(* ===== verification/Prelude.thy ===== *)
theory Prelude
  imports Main "HOL-Library.Word" "HOL-Library.Char_ord" "HOL-Library.List_Lexorder"
begin

section \<open>Shared vocabulary: exceptions, machine integers, C strings\<close>

text \<open>
  This theory holds what the components share: the C++ exceptions as values and the
  composition of fallible calls, the integer types of the code, the character
  classification and the number conversions of the C library that the code calls
  (\<open>isspace\<close>, \<open>tolower\<close>, \<open>strtoll\<close>, \<open>atoi\<close>), decimal output of integers, and the
  interface of a codec, a pair of an encoder and a decoder.
\<close>

named_theorems res_simps "rules for the composition of fallible calls"
named_theorems char_simps "rules for character classes and codes"

subsection \<open>Exceptions as values\<close>

text \<open>
  \<open>RuntimeError\<close> is \<open>std::runtime_error\<close> with its message; \<open>BadPath\<close> is the exception of
  a missing property-tree path; \<open>OutOfRange\<close> is \<open>std::out_of_range\<close>; \<open>ParseError\<close> is a string and \<open>PositionError\<close> an
  \<open>Error_position\<close> thrown by the JSON grammar; \<open>Undefined\<close> marks a point where the C++ program has no defined
  behaviour (an out-of-range read, a null dereference, a failed assertion).
\<close>

record Error_position =
  ep_line :: "32 word"
  ep_column :: "32 word"
  ep_reason :: string

datatype exn =
    RuntimeError string
  | BadPath string
  | OutOfRange string
  | ParseError string
  | PositionError Error_position
  | Undefined string

type_synonym 'a res = "exn + 'a"

fun bindR :: "'a res \<Rightarrow> ('a \<Rightarrow> 'b res) \<Rightarrow> 'b res" where
  "bindR (Inl e) f = Inl e"
| "bindR (Inr x) f = f x"

lemma bindR_Inr_iff [res_simps]: "bindR m f = Inr y \<longleftrightarrow> (\<exists>x. m = Inr x \<and> f x = Inr y)"
  by (cases m) auto

lemma bindR_Inl_iff [res_simps]:
  "bindR m f = Inl e \<longleftrightarrow> m = Inl e \<or> (\<exists>x. m = Inr x \<and> f x = Inl e)"
  by (cases m) auto

lemma bindR_assoc: "bindR (bindR m f) g = bindR m (\<lambda>x. bindR (f x) g)"
  by (cases m) auto

lemma bindR_return [simp]: "bindR m Inr = m"
  by (cases m) auto

text \<open>A loop over a sequence that stops at the first exception.\<close>

fun mapR :: "('a \<Rightarrow> 'b res) \<Rightarrow> 'a list \<Rightarrow> 'b list res" where
  "mapR f [] = Inr []"
| "mapR f (x # xs) = bindR (f x) (\<lambda>y. bindR (mapR f xs) (\<lambda>ys. Inr (y # ys)))"

fun foldR :: "('a \<Rightarrow> 's \<Rightarrow> 's res) \<Rightarrow> 'a list \<Rightarrow> 's \<Rightarrow> 's res" where
  "foldR f [] s = Inr s"
| "foldR f (x # xs) s = bindR (f x s) (foldR f xs)"

lemma foldR_Nil [simp]: "foldR f [] = Inr"
  by (rule ext) simp

lemma mapR_Inr_iff:
  "mapR f xs = Inr ys \<longleftrightarrow> list_all2 (\<lambda>x y. f x = Inr y) xs ys"
proof (induction xs arbitrary: ys)
  case Nil
  then show ?case by auto
next
  case (Cons x xs)
  then show ?case by (cases ys) (auto simp: res_simps)
qed

lemma mapR_length: "mapR f xs = Inr ys \<Longrightarrow> length ys = length xs"
  by (auto simp: mapR_Inr_iff dest: list_all2_lengthD)

lemma mapR_total: "(\<And>x. x \<in> set xs \<Longrightarrow> f x = Inr (g x)) \<Longrightarrow> mapR f xs = Inr (map g xs)"
  by (induction xs) auto

lemma foldR_append: "foldR f (xs @ ys) s = bindR (foldR f xs s) (foldR f ys)"
proof (induction xs arbitrary: s)
  case Nil
  then show ?case by simp
next
  case (Cons x xs)
  have "foldR f (xs @ ys) = (\<lambda>s. bindR (foldR f xs s) (foldR f ys))"
    by (rule ext) (rule Cons.IH)
  then show ?case by (simp add: bindR_assoc)
qed

lemma foldR_invariant:
  assumes "foldR f xs s = Inr s'" and "P s"
    and "\<And>x s s'. x \<in> set xs \<Longrightarrow> P s \<Longrightarrow> f x s = Inr s' \<Longrightarrow> P s'"
  shows "P s'"
  using assms
  by (induction xs arbitrary: s) (auto simp: res_simps)

subsection \<open>Integer types\<close>

text \<open>
  \<open>int\<close> is 32 bits wide, \<open>int64_t\<close> and \<open>uint64_t\<close> are 64 bits wide; signed values are
  read with \<open>sint\<close>, unsigned ones with \<open>uint\<close>.
\<close>

type_synonym int32 = "32 word"
type_synonym int64 = "64 word"
type_synonym uint64 = "64 word"

lemma sint32_bounds: "- (2 ^ 31) \<le> sint (w :: int32) \<and> sint w < 2 ^ 31"
  using sint_range_size [of w] by (simp add: word_size)

lemma sint64_bounds: "- (2 ^ 63) \<le> sint (w :: int64) \<and> sint w < 2 ^ 63"
  using sint_range_size [of w] by (simp add: word_size)

lemma uint_sint64: "uint (w :: int64) = (if sint w < 0 then sint w + 2 ^ 64 else sint w)"
proof -
  have "uint (word_of_int (sint w) :: int64) = sint w mod 2 ^ 64" by (simp only: uint_word_of_int) simp
  then have u: "uint w = sint w mod 2 ^ 64" by simp
  show ?thesis
  proof (cases "sint w < 0")
    case True
    have "(sint w + 2 ^ 64) mod 2 ^ 64 = sint w + 2 ^ 64"
      using True sint64_bounds [of w] by (intro mod_pos_pos_trivial) simp_all
    then show ?thesis using u True by simp
  next
    case False
    then show ?thesis using u sint64_bounds [of w] by simp
  qed
qed

lemma sint64_of_int:
  assumes "- (2 ^ 63) \<le> i" and "i < 2 ^ 63"
  shows "sint (word_of_int i :: int64) = i"
  using assms by (simp add: sint_sbintrunc' signed_take_bit_int_eq_self)

lemma sint32_of_int:
  assumes "- (2 ^ 31) \<le> i" and "i < 2 ^ 31"
  shows "sint (word_of_int i :: int32) = i"
  using assms by (simp add: sint_sbintrunc' signed_take_bit_int_eq_self)

lemma narrow_widen [simp]: "scast (scast (i :: int32) :: int64) = i"
  by (rule bit_word_eqI) (auto simp: bit_simps)

lemma sint_widen [simp]: "sint (scast (i :: int32) :: int64) = sint i"
  by transfer (simp add: signed_take_bit_signed_take_bit)

subsection \<open>Characters\<close>

definition code_of :: "char \<Rightarrow> nat" where
  "code_of c = of_char c"

lemma code_of_less [simp]: "code_of c < 256"
proof -
  have "code_of c = code_of c mod 256" by (simp add: code_of_def)
  then show ?thesis by (metis mod_less_divisor zero_less_numeral)
qed

lemma code_of_inject [simp]: "code_of c = code_of d \<longleftrightarrow> c = d"
  by (simp add: code_of_def)

lemma code_of_char_of [simp]: "code_of (char_of n) = n mod 256"
  by (simp add: code_of_def)

lemma char_of_code_of [simp]: "char_of (code_of c) = c"
  by (simp add: code_of_def)

text \<open>
  The classification functions in the "C" locale, the one a program that never calls
  \<open>setlocale\<close> runs in: white space is blank, tab, newline, vertical tab, form feed and
  carriage return.
\<close>

definition is_space :: "char \<Rightarrow> bool" where
  "is_space c \<longleftrightarrow> code_of c = 32 \<or> (9 \<le> code_of c \<and> code_of c \<le> 13)"

definition is_digit :: "char \<Rightarrow> bool" where
  "is_digit c \<longleftrightarrow> 48 \<le> code_of c \<and> code_of c \<le> 57"

definition to_lower_char :: "char \<Rightarrow> char" where
  "to_lower_char c = (if 65 \<le> code_of c \<and> code_of c \<le> 90 then char_of (code_of c + 32) else c)"

definition digit_char :: "nat \<Rightarrow> char" where
  "digit_char d = char_of (48 + d)"

definition digit_val :: "char \<Rightarrow> nat" where
  "digit_val c = code_of c - 48"

lemma code_of_digit_char [char_simps]: "d < 10 \<Longrightarrow> code_of (digit_char d) = 48 + d"
  by (simp add: digit_char_def)

lemma is_digit_digit_char [char_simps]: "d < 10 \<Longrightarrow> is_digit (digit_char d)"
  by (simp add: is_digit_def char_simps)

lemma digit_val_digit_char [char_simps]: "d < 10 \<Longrightarrow> digit_val (digit_char d) = d"
  by (simp add: digit_val_def char_simps)

lemma is_digit_not_space: "is_digit c \<Longrightarrow> \<not> is_space c"
  by (auto simp: is_digit_def is_space_def)

lemma is_space_minus [simp]: "\<not> is_space (CHR ''-'')"
  by (simp add: is_space_def code_of_def)

lemma is_digit_minus [simp]: "\<not> is_digit (CHR ''-'')"
  by (simp add: is_digit_def code_of_def)

text \<open>What \<open>c_str()\<close> shows a C function: the bytes before the first NUL.\<close>

definition c_str :: "string \<Rightarrow> string" where
  "c_str s = takeWhile (\<lambda>c. c \<noteq> CHR 0x00) s"

lemma c_str_no_nul: "CHR 0x00 \<notin> set s \<Longrightarrow> c_str s = s"
  by (induction s) (auto simp: c_str_def)

lemma nul_notin_c_str [simp]: "CHR 0x00 \<notin> set (c_str s)"
  by (auto simp: c_str_def dest: set_takeWhileD)

subsection \<open>Decimal output\<close>

text \<open>What \<open>operator<<\<close> writes for an integer when the stream is in its default state.\<close>

function dec_digits :: "int \<Rightarrow> string" where
  "dec_digits n =
     (if n < 10 then [digit_char (nat n)]
      else dec_digits (n div 10) @ [digit_char (nat (n mod 10))])"
  by pat_completeness auto
termination
  by (relation "measure nat") auto

declare dec_digits.simps [simp del]

definition dec_int :: "int \<Rightarrow> string" where
  "dec_int i = (if i < 0 then CHR ''-'' # dec_digits (- i) else dec_digits i)"

lemma nat_mod10 [simp]: "nat (n mod 10) < 10"
  by (simp add: nat_less_iff)

lemma dec_digits_digits: "0 \<le> n \<Longrightarrow> \<forall>c \<in> set (dec_digits n). is_digit c"
proof (induction n rule: dec_digits.induct)
  case (1 n)
  show ?case
  proof (cases "n < 10")
    case True
    with 1 show ?thesis by (subst dec_digits.simps) (simp add: char_simps nat_less_iff)
  next
    case False
    with 1 have "\<forall>c \<in> set (dec_digits (n div 10)). is_digit c" by simp
    with False show ?thesis by (subst dec_digits.simps) (auto simp: char_simps)
  qed
qed

lemma dec_digits_nonempty [simp]: "dec_digits n \<noteq> []"
  by (subst dec_digits.simps) simp

lemma dec_int_nonempty [simp]: "dec_int i \<noteq> []"
  by (simp add: dec_int_def)

lemma dec_int_chars: "\<forall>c \<in> set (dec_int i). is_digit c \<or> c = CHR ''-''"
  using dec_digits_digits [of i] dec_digits_digits [of "- i"] by (auto simp: dec_int_def)

lemma dec_int_no_space: "\<forall>c \<in> set (dec_int i). \<not> is_space c"
  using dec_int_chars [of i] by (auto dest: is_digit_not_space)

lemma dec_int_not_in:
  "\<not> is_digit c \<Longrightarrow> c \<noteq> CHR ''-'' \<Longrightarrow> c \<notin> set (dec_int i)"
  using dec_int_chars [of i] by blast

subsection \<open>strtoll and atoi\<close>

text \<open>
  \<open>strtoll(s, NULL, 10)\<close> skips white space, reads an optional sign and the longest run of
  digits, and saturates at the bounds of \<open>long long\<close>; without a digit it gives 0. \<open>atoi\<close>
  is \<open>strtol\<close> narrowed to \<open>int\<close>, the behaviour of the C library on Linux.
\<close>

fun digits_val :: "int \<Rightarrow> string \<Rightarrow> int" where
  "digits_val acc [] = acc"
| "digits_val acc (c # cs) =
     (if is_digit c then digits_val (10 * acc + int (digit_val c)) cs else acc)"

definition clamp64 :: "int \<Rightarrow> int" where
  "clamp64 i = max (- (2 ^ 63)) (min (2 ^ 63 - 1) i)"

definition parse_long :: "string \<Rightarrow> int" where
  "parse_long s =
     (case dropWhile is_space (c_str s) of
        [] \<Rightarrow> 0
      | c # cs \<Rightarrow>
          clamp64 (if c = CHR ''-'' then - digits_val 0 cs
                   else if c = CHR ''+'' then digits_val 0 cs
                   else digits_val 0 (c # cs)))"

definition strtoll :: "string \<Rightarrow> int64" where
  "strtoll s = word_of_int (parse_long s)"

definition atoi :: "string \<Rightarrow> int32" where
  "atoi s = word_of_int (parse_long s)"

lemma parse_long_bounds: "- (2 ^ 63) \<le> parse_long s \<and> parse_long s < 2 ^ 63"
proof -
  have "- (2 ^ 63) \<le> clamp64 i \<and> clamp64 i < 2 ^ 63" for i
    by (simp add: clamp64_def)
  then show ?thesis by (auto simp: parse_long_def split: list.split)
qed

lemma sint_strtoll: "sint (strtoll s) = parse_long s"
  using parse_long_bounds [of s] by (simp add: strtoll_def sint64_of_int)

definition stops_digits :: "string \<Rightarrow> bool" where
  "stops_digits rest \<longleftrightarrow> (case rest of [] \<Rightarrow> True | c # _ \<Rightarrow> \<not> is_digit c)"

lemma stops_digits_simps [simp]:
  "stops_digits []" "stops_digits (c # s) \<longleftrightarrow> \<not> is_digit c"
  by (simp_all add: stops_digits_def)

lemma digits_val_append:
  "\<forall>c \<in> set ds. is_digit c \<Longrightarrow> digits_val acc (ds @ rest) = digits_val (digits_val acc ds) rest"
  by (induction ds arbitrary: acc) auto

lemma digits_val_stop: "stops_digits rest \<Longrightarrow> digits_val acc rest = acc"
  by (cases rest) auto

lemma digits_val_dec_digits0: "0 \<le> n \<Longrightarrow> digits_val 0 (dec_digits n) = n"
proof (induction n rule: dec_digits.induct)
  case (1 n)
  show ?case
  proof (cases "n < 10")
    case True
    with 1 show ?thesis by (subst dec_digits.simps) (simp add: char_simps nat_less_iff)
  next
    case False
    then have "0 \<le> n div 10" by simp
    moreover from this False 1 have "digits_val 0 (dec_digits (n div 10)) = n div 10" by blast
    ultimately show ?thesis using False
      by (subst dec_digits.simps) (simp add: digits_val_append dec_digits_digits char_simps)
  qed
qed

lemma digits_val_dec_digits:
  "0 \<le> n \<Longrightarrow> stops_digits rest \<Longrightarrow> digits_val 0 (dec_digits n @ rest) = n"
  by (simp add: digits_val_append dec_digits_digits digits_val_dec_digits0 digits_val_stop)

lemma dec_digits_Cons:
  assumes "0 \<le> n"
  shows "\<exists>c cs. dec_digits n = c # cs \<and> is_digit c"
proof -
  obtain c cs where "dec_digits n = c # cs" by (cases "dec_digits n") auto
  moreover from this have "is_digit c" using dec_digits_digits [OF assms] by simp
  ultimately show ?thesis by blast
qed

text \<open>Reading back a printed number, whatever non-digit follows it.\<close>

lemma c_str_append:
  "CHR 0x00 \<notin> set a \<Longrightarrow> c_str (a @ b) = a @ c_str b"
  unfolding c_str_def by (rule takeWhile_append2) auto

lemma nul_not_digit [simp]: "\<not> is_digit (CHR 0x00)"
  by (simp add: is_digit_def code_of_def)

lemma stops_digits_c_str: "stops_digits rest \<Longrightarrow> stops_digits (c_str rest)"
  by (cases rest) (auto simp: c_str_def)

lemma parse_long_dec_int:
  assumes "- (2 ^ 63) \<le> i" and "i < 2 ^ 63" and "stops_digits rest"
  shows "parse_long (dec_int i @ rest) = i"
proof -
  have nul: "CHR 0x00 \<notin> set (dec_int i)" by (rule dec_int_not_in) simp_all
  have cs: "c_str (dec_int i @ rest) = dec_int i @ c_str rest"
    using nul by (rule c_str_append)
  have stop: "stops_digits (c_str rest)" using assms(3) by (rule stops_digits_c_str)
  obtain c cs' where c: "dec_digits \<bar>i\<bar> = c # cs'" and d: "is_digit c"
    using dec_digits_Cons [of "\<bar>i\<bar>"] by auto
  have cl: "clamp64 i = i" using assms by (simp add: clamp64_def)
  from d have ne: "c \<noteq> CHR ''-''" "c \<noteq> CHR ''+''" "\<not> is_space c"
    by (auto simp: is_digit_def code_of_def is_space_def)
  show ?thesis
  proof (cases "i < 0")
    case True
    then have "dec_int i = CHR ''-'' # dec_digits (- i)" by (simp add: dec_int_def)
    with stop True cl show ?thesis
      unfolding parse_long_def cs by (simp add: digits_val_dec_digits)
  next
    case False
    then have "dec_int i = c # cs'" using c by (simp add: dec_int_def)
    moreover have "digits_val 0 (c # cs' @ c_str rest) = i"
      using digits_val_dec_digits [OF _ stop, of "\<bar>i\<bar>"] c False by simp
    ultimately show ?thesis
      using ne False cl unfolding parse_long_def cs by (simp del: digits_val.simps)
  qed
qed

subsection \<open>The interface of a codec\<close>

text \<open>
  Several pairs of operations of the program encode a value as text and read it back:
  Base64, JSON string escapes, decimal numbers. What their clients rely on is stated once.
\<close>

locale codec =
  fixes enc :: "'a \<Rightarrow> 'b"
    and dec :: "'b \<Rightarrow> 'a"
    and valid :: "'a \<Rightarrow> bool"
  assumes dec_enc: "valid x \<Longrightarrow> dec (enc x) = x"
begin

lemma enc_inj: "valid x \<Longrightarrow> valid y \<Longrightarrow> enc x = enc y \<longleftrightarrow> x = y"
  using dec_enc by metis

lemma enc_inj_on: "inj_on enc {x. valid x}"
  by (rule inj_onI) (simp add: enc_inj)

lemma dec_map_enc: "\<forall>x \<in> set xs. valid x \<Longrightarrow> map (dec \<circ> enc) xs = xs"
  by (induction xs) (auto simp: dec_enc)

end

interpretation dec64: codec "\<lambda>w :: int64. dec_int (sint w)" strtoll "\<lambda>_. True"
proof unfold_locales
  fix w :: int64
  have "parse_long (dec_int (sint w) @ []) = sint w"
    using sint64_bounds by (intro parse_long_dec_int) simp_all
  then show "strtoll (dec_int (sint w)) = w" by (simp add: strtoll_def)
qed

end
