(* ===== verification/Base64.thy ===== *)
theory Base64
  imports Prelude
begin

section \<open>Base64 (utils.cpp)\<close>

text \<open>
  \<open>EncodeBase64\<close> and \<open>DecodeBase64\<close> of \<open>src/src/utils.cpp\<close>, as the loops over a mode and the
  bits left over that the code has. C's \<open>int\<close> values stay between 0 and 255 here, so they
  are HOL's \<open>int\<close> with its bit operations; a \<open>push_back\<close> narrows to a byte.
\<close>

unbundle bit_operations_syntax

subsection \<open>The code\<close>

definition pbase64 :: string where
  "pbase64 = ''ABCDEFGHIJKLMNOPQRSTUVWXYZabcdefghijklmnopqrstuvwxyz0123456789+/''"

definition pb :: "int \<Rightarrow> char" where
  "pb i = pbase64 ! nat i"

text \<open>One turn of the encoder's loop, on the output so far, the mode and the left-over bits.\<close>

fun encode_step :: "string \<times> nat \<times> int \<Rightarrow> char \<Rightarrow> string \<times> nat \<times> int" where
  "encode_step (ret, mode, left) ch =
     (let enc = int (code_of ch) in
      if mode = 0 then (ret @ [pb (drop_bit 2 enc)], 1, push_bit 4 (enc AND 3))
      else if mode = 1 then
        (ret @ [pb (left OR drop_bit 4 enc)], 2, push_bit 2 (enc AND 15))
      else
        (ret @ [pb (left OR drop_bit 6 enc), pb (enc AND 63)], 0, left))"

definition EncodeBase64 :: "string \<Rightarrow> string" where
  "EncodeBase64 s =
     (case foldl encode_step ([], 0, 0) s of (ret, mode, left) \<Rightarrow>
        if mode \<noteq> 0
        then ret @ [pb left] @ ''='' @ (if mode = 1 then ''='' else '''')
        else ret)"

definition decode64_table :: "int list" where
  "decode64_table =
    [-1, -1, -1, -1, -1, -1, -1, -1, -1, -1, -1, -1, -1, -1, -1, -1, -1, -1, -1, -1,
     -1, -1, -1, -1, -1, -1, -1, -1, -1, -1, -1, -1, -1, -1, -1, -1, -1, -1, -1, -1,
     -1, -1, -1, 62, -1, -1, -1, 63, 52, 53, 54, 55, 56, 57, 58, 59, 60, 61, -1, -1,
     -1, -1, -1, -1, -1,  0,  1,  2,  3,  4,  5,  6,  7,  8,  9, 10, 11, 12, 13, 14,
     15, 16, 17, 18, 19, 20, 21, 22, 23, 24, 25, -1, -1, -1, -1, -1, -1, 26, 27, 28,
     29, 30, 31, 32, 33, 34, 35, 36, 37, 38, 39, 40, 41, 42, 43, 44, 45, 46, 47, 48,
     49, 50, 51, -1, -1, -1, -1, -1, -1, -1, -1, -1, -1, -1, -1, -1, -1, -1, -1, -1,
     -1, -1, -1, -1, -1, -1, -1, -1, -1, -1, -1, -1, -1, -1, -1, -1, -1, -1, -1, -1,
     -1, -1, -1, -1, -1, -1, -1, -1, -1, -1, -1, -1, -1, -1, -1, -1, -1, -1, -1, -1,
     -1, -1, -1, -1, -1, -1, -1, -1, -1, -1, -1, -1, -1, -1, -1, -1, -1, -1, -1, -1,
     -1, -1, -1, -1, -1, -1, -1, -1, -1, -1, -1, -1, -1, -1, -1, -1, -1, -1, -1, -1,
     -1, -1, -1, -1, -1, -1, -1, -1, -1, -1, -1, -1, -1, -1, -1, -1, -1, -1, -1, -1,
     -1, -1, -1, -1, -1, -1, -1, -1, -1, -1, -1, -1, -1, -1, -1, -1]"

definition dec64_of :: "char \<Rightarrow> int" where
  "dec64_of c = decode64_table ! code_of c"

definition push_byte :: "int \<Rightarrow> char" where
  "push_byte i = char_of (nat (i mod 256))"

text \<open>
  The decoder's loop on the rest \<open>p\<close> of the C string: it returns where it stopped, the mode,
  the left-over bits and the bytes pushed. The end of the list is the terminating NUL, whose
  table entry is -1.
\<close>

fun decode_loop :: "string \<Rightarrow> nat \<Rightarrow> int \<Rightarrow> string \<Rightarrow> string \<times> nat \<times> int \<times> string" where
  "decode_loop [] mode left ret = ([], mode, left, ret)"
| "decode_loop (c # p) mode left ret =
     (let dec = dec64_of c in
      if dec = -1 then (c # p, mode, left, ret)
      else if mode = 0 then decode_loop p 1 dec ret
      else if mode = 1 then
        decode_loop p 2 (dec AND 15) (ret @ [push_byte (push_bit 2 left OR drop_bit 4 dec)])
      else if mode = 2 then
        decode_loop p 3 (dec AND 3) (ret @ [push_byte (push_bit 4 left OR drop_bit 2 dec)])
      else
        decode_loop p 0 left (ret @ [push_byte (push_bit 6 left OR dec)]))"

definition char_at :: "string \<Rightarrow> nat \<Rightarrow> char" where
  "char_at p i = (if i < length p then p ! i else CHR 0x00)"

definition pf_invalid :: "string \<Rightarrow> nat \<Rightarrow> int \<Rightarrow> bool" where
  "pf_invalid p mode left =
     (if mode = 0 then False
      else if mode = 1 then True
      else if mode = 2 then
        left \<noteq> 0 \<or> char_at p 0 \<noteq> CHR ''='' \<or> char_at p 1 \<noteq> CHR ''=''
          \<or> dec64_of (char_at p 2) \<noteq> -1
      else left \<noteq> 0 \<or> char_at p 0 \<noteq> CHR ''='' \<or> dec64_of (char_at p 1) \<noteq> -1)"

text \<open>\<open>DecodeBase64(const char *, bool *)\<close>: the bytes and the flag.\<close>

definition DecodeBase64_chars :: "string \<Rightarrow> string \<times> bool" where
  "DecodeBase64_chars s =
     (case decode_loop (c_str s) 0 0 [] of (p, mode, left, ret) \<Rightarrow>
        (ret, pf_invalid p mode left))"

text \<open>\<open>DecodeBase64(const string &)\<close>: the bytes alone.\<close>

definition DecodeBase64 :: "string \<Rightarrow> string" where
  "DecodeBase64 s = fst (DecodeBase64_chars s)"

subsection \<open>Bits as arithmetic\<close>

lemma and_masks:
  "(x :: int) AND 3 = x mod 4" "x AND 15 = x mod 16" "x AND 63 = x mod 64"
proof -
  have "x AND mask 2 = x mod 4" "x AND mask 4 = x mod 16" "x AND mask 6 = x mod 64"
    by (simp_all add: take_bit_eq_mod flip: take_bit_eq_mask)
  then show "x AND 3 = x mod 4" "x AND 15 = x mod 16" "x AND 63 = x mod 64"
    by (simp_all add: mask_eq_exp_minus_1)
qed

lemma push_bit_OR:
  assumes "0 \<le> (b :: int)" and "b < 2 ^ n"
  shows "push_bit n a OR b = a * 2 ^ n + b"
proof -
  have "\<not> bit b k" if "n \<le> k" for k
    using assms that by (metis bit_take_bit_iff not_le take_bit_int_eq_self)
  then have "push_bit n a AND b = 0"
    by (intro bit_eqI) (auto simp: bit_and_iff bit_push_bit_iff)
  then have "push_bit n a OR b = push_bit n a + b"
    using plus_and_or [of "push_bit n a" b] by simp
  then show ?thesis by (simp add: push_bit_eq_mult)
qed

subsection \<open>The reference: groups of three bytes\<close>

fun b64_groups :: "string \<Rightarrow> string" where
  "b64_groups [] = []"
| "b64_groups [a] =
     (let A = int (code_of a) in [pb (A div 4), pb (A mod 4 * 16), CHR ''='', CHR ''=''])"
| "b64_groups [a, b] =
     (let A = int (code_of a); B = int (code_of b) in
      [pb (A div 4), pb (A mod 4 * 16 + B div 16), pb (B mod 16 * 4), CHR ''=''])"
| "b64_groups (a # b # c # s) =
     (let A = int (code_of a); B = int (code_of b); C = int (code_of c) in
      pb (A div 4) # pb (A mod 4 * 16 + B div 16) # pb (B mod 16 * 4 + C div 64)
        # pb (C mod 64) # b64_groups s)"

lemma byte_bounds: "0 \<le> int (code_of c)" "int (code_of c) < 256"
  using code_of_less [of c] by linarith+

lemma div_bounds:
  assumes "0 \<le> (x :: int)" and "x < 256"
  shows "0 \<le> x div 16" "x div 16 < 16" "0 \<le> x div 64" "x div 64 < 4" "0 \<le> x div 4" "x div 4 < 64"
  using assms by presburger+

lemmas byte_div = div_bounds [OF byte_bounds]

lemma left_or:
  "x mod 4 * 16 OR int (code_of c) div 16 = x mod 4 * 16 + int (code_of c) div 16"
  "x mod 16 * 4 OR int (code_of c) div 64 = x mod 16 * 4 + int (code_of c) div 64"
proof -
  show
    "x mod 4 * 16 OR int (code_of c) div 16 = x mod 4 * 16 + int (code_of c) div 16"
    "x mod 16 * 4 OR int (code_of c) div 64 = x mod 16 * 4 + int (code_of c) div 64"
    using push_bit_OR [of "int (code_of c) div 16" 4 "x mod 4"]
      push_bit_OR [of "int (code_of c) div 64" 2 "x mod 16"] byte_div [of c]
    by (simp_all add: push_bit_eq_mult)
qed

definition encode_finish :: "string \<times> nat \<times> int \<Rightarrow> string" where
  "encode_finish st =
     (case st of (ret, mode, left) \<Rightarrow>
        if mode \<noteq> 0
        then ret @ [pb left] @ ''='' @ (if mode = 1 then ''='' else '''')
        else ret)"

lemma encode_groups: "encode_finish (foldl encode_step (ret, 0, l) s) = ret @ b64_groups s"
  by (induction s arbitrary: ret l rule: b64_groups.induct)
    (simp_all add: encode_finish_def Let_def left_or and_masks drop_bit_eq_div push_bit_eq_mult)

lemma EncodeBase64_groups: "EncodeBase64 s = b64_groups s"
  using encode_groups [of "[]" 0 s] by (simp add: EncodeBase64_def encode_finish_def)

lemma length_b64_groups: "length (b64_groups s) = (length s + 2) div 3 * 4"
proof (induction s rule: b64_groups.induct)
  case (4 a b c s)
  have "(length (a # b # c # s) + 2) div 3 = Suc ((length s + 2) div 3)"
    by simp
  with 4 show ?case by (simp only: b64_groups.simps Let_def list.size) simp
qed (simp_all add: Let_def)

subsection \<open>The two tables agree\<close>

lemma table_forward_rows: "list_all (\<lambda>i. dec64_of (pb i) = i) [0..63]"
  by (simp add: upto_rec1 dec64_of_def pb_def pbase64_def code_of_def decode64_table_def)

lemma table_forward: "0 \<le> i \<Longrightarrow> i < 64 \<Longrightarrow> dec64_of (pb i) = i"
  using table_forward_rows by (auto simp: list_all_iff)

lemma table_rows:
  "list_all (\<lambda>(i, d). d = -1 \<or> (0 \<le> d \<and> d < 64 \<and> pb d = char_of (nat i)))
     (zip [0..255] decode64_table)"
  by (simp add: upto_rec1 decode64_table_def pb_def pbase64_def char_of_def bit_0)

lemma table_backward:
  "dec64_of c = -1 \<or> (0 \<le> dec64_of c \<and> dec64_of c < 64 \<and> pb (dec64_of c) = c)"
proof -
  have "length decode64_table = 256" by (simp add: decode64_table_def)
  moreover have "code_of c \<le> 255" using code_of_less [of c] by linarith
  then have "[0..255] ! code_of c = int (code_of c)" by (simp add: nth_upto)
  ultimately have "(int (code_of c), dec64_of c) \<in> set (zip [0..255] decode64_table)"
    by (auto simp: in_set_zip dec64_of_def intro!: exI [of _ "code_of c"])
  with table_rows have "(\<lambda>(i, d). d = -1 \<or> (0 \<le> d \<and> d < 64 \<and> pb d = char_of (nat i)))
      (int (code_of c), dec64_of c)"
    unfolding list_all_iff by (rule bspec)
  then show ?thesis by simp
qed

lemma dec64_of_equals [simp]: "dec64_of (CHR ''='') = -1"
  by code_simp

lemma dec64_of_nul [simp]: "dec64_of (CHR 0x00) = -1"
  by code_simp

subsection \<open>Sextets back to bytes\<close>

lemma push_byte_code: "i mod 256 = int (code_of c) \<Longrightarrow> push_byte i = c"
  by (simp add: push_byte_def)

lemma code_of_push_byte: "0 \<le> i \<Longrightarrow> i < 256 \<Longrightarrow> int (code_of (push_byte i)) = i"
  by (simp add: push_byte_def)

lemma sextet_or:
  fixes u v :: int
  assumes "0 \<le> v" and "v < 64"
  shows "u * 4 OR v div 16 = u * 4 + v div 16"
    and "u * 16 OR v div 4 = u * 16 + v div 4"
    and "u * 64 OR v = u * 64 + v"
proof -
  from assms have "0 \<le> v div 16" "v div 16 < 2 ^ 2" and "0 \<le> v div 4" "v div 4 < 2 ^ 4"
    by simp_all
  with assms show "u * 4 OR v div 16 = u * 4 + v div 16"
    and "u * 16 OR v div 4 = u * 16 + v div 4" and "u * 64 OR v = u * 64 + v"
    using push_bit_OR [of "v div 16" 2 u] push_bit_OR [of "v div 4" 4 u] push_bit_OR [of v 6 u]
    by (simp_all add: push_bit_eq_mult)
qed

lemmas decode_bits = and_masks push_bit_eq_mult drop_bit_eq_div sextet_or

lemma join_parts:
  fixes x y n :: int
  assumes "0 \<le> y" and "y < n"
  shows "(x * n + y) div n = x" and "(x * n + y) mod n = y"
  using assms by simp_all

lemma join_bytes:
  fixes A B C :: int
  assumes "0 \<le> A" "A < 256" "0 \<le> B" "B < 256" "0 \<le> C" "C < 256"
  shows "(A mod 4 * 16 + B div 16) div 16 = A mod 4"
    and "(A mod 4 * 16 + B div 16) mod 16 = B div 16"
    and "(B mod 16 * 4 + C div 64) div 4 = B mod 16"
    and "(B mod 16 * 4 + C div 64) mod 4 = C div 64"
    and "A div 4 < 64" "A mod 4 * 16 + B div 16 < 64" "B mod 16 * 4 + C div 64 < 64"
proof -
  note a = div_bounds [OF assms(1,2)] and b = div_bounds(1,2) [OF assms(3,4)]
    and c = div_bounds(3,4) [OF assms(5,6)]
  show "(A mod 4 * 16 + B div 16) div 16 = A mod 4"
    and "(A mod 4 * 16 + B div 16) mod 16 = B div 16"
    using b by (rule join_parts)+
  show "(B mod 16 * 4 + C div 64) div 4 = B mod 16"
    and "(B mod 16 * 4 + C div 64) mod 4 = C div 64"
    using c by (rule join_parts)+
  show "A div 4 < 64" by (rule a)
  have "A mod 4 < 4" "B mod 16 < 16" by simp_all
  then show "A mod 4 * 16 + B div 16 < 64" "B mod 16 * 4 + C div 64 < 64"
    using b c by linarith+
qed

subsection \<open>Decoding what was encoded\<close>

lemma push_byte_join:
  "push_byte (push_bit 2 (A div 4) OR (A mod 4 * 16 + b) div 16) = c"
  if "A = int (code_of c)" and "0 \<le> b" and "b < 16" for A b :: int
proof -
  have "(A mod 4 * 16 + b) div 16 = A mod 4" using that(2,3) by (rule join_parts)
  moreover have "A mod 4 < 64" by (rule less_trans [of _ 4]) simp_all
  moreover have "push_bit 2 (A div 4) OR A mod 4 = A div 4 * 4 + A mod 4"
    using push_bit_OR [of "A mod 4" 2 "A div 4"] by simp
  ultimately have "push_bit 2 (A div 4) OR (A mod 4 * 16 + b) div 16 = A"
    by (simp only: div_mult_mod_eq)
  then show ?thesis using that(1) byte_bounds [of c] by (intro push_byte_code) simp
qed

lemma push_byte_join2:
  "push_byte (push_bit 4 (B div 16) OR (B mod 16 * 4 + b) div 4) = c"
  if "B = int (code_of c)" and "0 \<le> b" and "b < 4" for B b :: int
proof -
  have "(B mod 16 * 4 + b) div 4 = B mod 16" using that(2,3) by (rule join_parts)
  moreover have "push_bit 4 (B div 16) OR B mod 16 = B div 16 * 16 + B mod 16"
    using push_bit_OR [of "B mod 16" 4 "B div 16"] by simp
  ultimately have "push_bit 4 (B div 16) OR (B mod 16 * 4 + b) div 4 = B"
    by (simp only: div_mult_mod_eq)
  then show ?thesis using that(1) byte_bounds [of c] by (intro push_byte_code) simp
qed

lemma push_byte_join3:
  "push_byte (push_bit 6 (C div 64) OR C mod 64) = c" if "C = int (code_of c)" for C :: int
proof -
  have "push_bit 6 (C div 64) OR C mod 64 = C div 64 * 64 + C mod 64"
    using push_bit_OR [of "C mod 64" 6 "C div 64"] by simp
  then show ?thesis
    using that byte_bounds [of c] by (intro push_byte_code) (simp only: div_mult_mod_eq, simp)
qed

text \<open>One turn of the decoder's loop on an alphabet character, per mode.\<close>

lemma decode_pb:
  assumes "0 \<le> i" and "i < 64"
  shows "decode_loop (pb i # p) 0 l ret = decode_loop p (Suc 0) i ret"
    and "decode_loop (pb i # p) (Suc 0) l ret =
      decode_loop p 2 (i mod 16) (ret @ [push_byte (push_bit 2 l OR i div 16)])"
    and "decode_loop (pb i # p) 2 l ret =
      decode_loop p 3 (i mod 4) (ret @ [push_byte (push_bit 4 l OR i div 4)])"
    and "decode_loop (pb i # p) 3 l ret =
      decode_loop p 0 l (ret @ [push_byte (push_bit 6 l OR i)])"
  using assms by (simp_all add: table_forward and_masks drop_bit_eq_div)

lemma decode_stop: "decode_loop (CHR ''='' # p) mode l ret = (CHR ''='' # p, mode, l, ret)"
  by simp

lemma decode_groups:
  "\<exists>p mode left. decode_loop (b64_groups s) 0 l ret = (p, mode, left, ret @ s)
     \<and> \<not> pf_invalid p mode left"
proof (induction s arbitrary: l ret rule: b64_groups.induct)
  case 1
  show ?case by (simp add: pf_invalid_def)
next
  case (2 a)
  let ?A = "int (code_of a)"
  have b: "0 \<le> ?A mod 4 * 16" "?A mod 4 * 16 < 64" by (simp_all add: div_bounds)
  have "decode_loop (b64_groups [a]) 0 l ret = (''=='', 2, 0, ret @ [a])"
    using push_byte_join [OF refl, of 0 a]
    unfolding b64_groups.simps Let_def decode_pb(1) [OF byte_div(5,6)] decode_pb(2) [OF b] decode_stop
    by simp
  then show ?case by (simp add: pf_invalid_def char_at_def)
next
  case (3 a b)
  let ?A = "int (code_of a)" and ?B = "int (code_of b)"
  note j = join_bytes [OF byte_bounds [of a] byte_bounds [of b] byte_bounds [of a]]
  have m: "0 \<le> ?A mod 4 * 16 + ?B div 16" by (simp add: byte_div)
  have b: "0 \<le> ?B mod 16 * 4" "?B mod 16 * 4 < 64" by simp_all
  have "decode_loop (b64_groups [a, b]) 0 l ret = (''='', 3, 0, ret @ [a, b])"
    using push_byte_join [OF refl byte_div(1,2), of a b] push_byte_join2 [OF refl, of 0 b]
    unfolding b64_groups.simps Let_def decode_pb(1) [OF byte_div(5,6)]
      decode_pb(2) [OF m j(6)] decode_pb(3) [OF b] j decode_stop
    by simp
  then show ?case by (simp add: pf_invalid_def char_at_def)
next
  case (4 a b c s)
  let ?A = "int (code_of a)" and ?B = "int (code_of b)" and ?C = "int (code_of c)"
  note j = join_bytes [OF byte_bounds [of a] byte_bounds [of b] byte_bounds [of c]]
  have m: "0 \<le> ?A mod 4 * 16 + ?B div 16" "0 \<le> ?B mod 16 * 4 + ?C div 64"
    by (simp_all add: byte_div)
  have k: "0 \<le> ?C mod 64" "?C mod 64 < 64" by simp_all
  have "decode_loop (b64_groups (a # b # c # s)) 0 l ret =
      decode_loop (b64_groups s) 0 (?C div 64) (ret @ [a, b, c])"
    using push_byte_join [OF refl byte_div(1,2), of a b] push_byte_join2 [OF refl byte_div(3,4), of b c]
      push_byte_join3 [OF refl, of c]
    unfolding b64_groups.simps Let_def decode_pb(1) [OF byte_div(5,6)]
      decode_pb(2) [OF m(1) j(6)] decode_pb(3) [OF m(2) j(7)] decode_pb(4) [OF k] j
    by simp
  with "4.IH" [OF refl refl refl, of "?C div 64" "ret @ [a, b, c]"] show ?case by simp
qed

lemma b64_groups_chars:
  assumes x: "dec64_of x = - 1" "x \<noteq> CHR ''=''"
  shows "x \<notin> set (b64_groups s)"
proof -
  have pb: "pb i \<noteq> x" if "0 \<le> i" "i < 64" for i
    using table_forward [OF that] that(1) x(1) by (intro notI) simp
  have "\<forall>c \<in> set (b64_groups s). c \<noteq> x"
  proof (induction s rule: b64_groups.induct)
    case 1
    show ?case by simp
  next
    case (2 a)
    have "0 \<le> int (code_of a) mod 4 * 16" "int (code_of a) mod 4 * 16 < 64" by simp_all
    from pb [OF byte_div(5,6) [of a]] pb [OF this] show ?case
      unfolding b64_groups.simps Let_def using x(2) by simp
  next
    case (3 a b)
    let ?A = "int (code_of a)" and ?B = "int (code_of b)"
    note j = join_bytes [OF byte_bounds [of a] byte_bounds [of b] byte_bounds [of a]]
    have m: "0 \<le> ?A mod 4 * 16 + ?B div 16" by (simp add: byte_div)
    have k: "0 \<le> ?B mod 16 * 4" "?B mod 16 * 4 < 64" by simp_all
    from pb [OF byte_div(5,6) [of a]] pb [OF m j(6)] pb [OF k] show ?case
      unfolding b64_groups.simps Let_def using x(2) by simp
  next
    case (4 a b c s)
    let ?A = "int (code_of a)" and ?B = "int (code_of b)" and ?C = "int (code_of c)"
    note j = join_bytes [OF byte_bounds [of a] byte_bounds [of b] byte_bounds [of c]]
    have m: "0 \<le> ?A mod 4 * 16 + ?B div 16" "0 \<le> ?B mod 16 * 4 + ?C div 64"
      by (simp_all add: byte_div)
    have k: "0 \<le> ?C mod 64" "?C mod 64 < 64" by simp_all
    from "4.IH" [OF refl refl refl] pb [OF byte_div(5,6) [of a]] pb [OF m(1) j(6)]
      pb [OF m(2) j(7)] pb [OF k]
    show ?case unfolding b64_groups.simps Let_def by simp
  qed
  then show ?thesis by blast
qed

lemma b64_groups_no_nul: "CHR 0x00 \<notin> set (b64_groups s)"
  by (rule b64_groups_chars) (simp_all add: dec64_of_def decode64_table_def code_of_def)

lemma EncodeBase64_chars: "dec64_of x = - 1 \<Longrightarrow> x \<noteq> CHR ''='' \<Longrightarrow> x \<notin> set (EncodeBase64 s)"
  by (simp add: EncodeBase64_groups b64_groups_chars)

lemma EncodeBase64_nonempty: "s \<noteq> [] \<Longrightarrow> EncodeBase64 s \<noteq> []"
  unfolding EncodeBase64_groups by (cases s rule: b64_groups.cases) (simp_all add: Let_def)

lemma decode_encode: "DecodeBase64_chars (EncodeBase64 s) = (s, False)"
proof -
  obtain p mode left where "decode_loop (b64_groups s) 0 0 [] = (p, mode, left, s)"
    and "\<not> pf_invalid p mode left"
    using decode_groups [of s 0 "[]"] by auto
  then show ?thesis
    by (simp add: DecodeBase64_chars_def EncodeBase64_groups c_str_no_nul b64_groups_no_nul)
qed

interpretation base64: codec EncodeBase64 DecodeBase64 "\<lambda>_. True"
  by unfold_locales (simp add: DecodeBase64_def decode_encode)

subsection \<open>What the decoder accepts\<close>

text \<open>The bytes that two, three and four sextets give, and the sextets they give back.\<close>

lemma sextets_to_byte:
  fixes u v :: int
  assumes "0 \<le> u" and "u < 64" and "0 \<le> v" and "v < 64"
  defines "A \<equiv> int (code_of (push_byte (push_bit 2 u OR v div 16)))"
    and "B \<equiv> int (code_of (push_byte (push_bit 4 (u mod 16) OR v div 4)))"
    and "C \<equiv> int (code_of (push_byte (push_bit 6 (u mod 4) OR v)))"
  shows "A div 4 = u" and "A mod 4 = v div 16"
    and "B div 16 = u mod 16" and "B mod 16 = v div 4"
    and "C div 64 = u mod 4" and "C mod 64 = v"
proof -
  have v: "0 \<le> v div 16" "v div 16 < 4" "0 \<le> v div 4" "v div 4 < 16"
    using assms(3,4) by presburger+
  have u: "0 \<le> u mod 16" "u mod 16 < 16" "0 \<le> u mod 4" "u mod 4 < 4"
    by simp_all
  have bd: "u mod 16 * 16 + v div 4 < 256" "u mod 4 * 64 + v < 256"
    using u v assms(4) by linarith+
  have "A = u * 4 + v div 16"
    using assms(1,2) v push_bit_OR [of "v div 16" 2 u] by (simp add: A_def code_of_push_byte)
  then show "A div 4 = u" "A mod 4 = v div 16"
    using join_parts [OF v(1,2)] by simp_all
  have "B = u mod 16 * 16 + v div 4"
    using u v bd push_bit_OR [of "v div 4" 4 "u mod 16"] by (simp add: B_def code_of_push_byte)
  then show "B div 16 = u mod 16" "B mod 16 = v div 4"
    using join_parts [OF v(3,4)] by simp_all
  have "C = u mod 4 * 64 + v"
    using u assms(3,4) bd push_bit_OR [of v 6 "u mod 4"] by (simp add: C_def code_of_push_byte)
  then show "C div 64 = u mod 4" "C mod 64 = v"
    using join_parts [OF assms(3,4)] by simp_all
qed

definition stops :: "string \<Rightarrow> bool" where
  "stops p \<longleftrightarrow> p = [] \<or> dec64_of (hd p) = -1"

lemma decode_halt: "stops p \<Longrightarrow> decode_loop p mode l ret = (p, mode, l, ret)"
  by (cases p) (auto simp: stops_def)

declare decode_loop.simps [simp del]

lemma next_sextet:
  obtains "stops p" | v q where "p = pb v # q" and "0 \<le> v" and "v < 64"
proof (cases p)
  case Nil
  then show thesis by (intro that(1)) (simp add: stops_def)
next
  case (Cons c q)
  show thesis
  proof (cases "dec64_of c = -1")
    case True
    with Cons show thesis by (intro that(1)) (simp add: stops_def)
  next
    case False
    with table_backward [of c] Cons show thesis by (intro that(2) [of "dec64_of c" q]) auto
  qed
qed

lemma stops_char_at: "dec64_of (char_at p (length xs)) = -1 \<Longrightarrow> p = xs @ q \<Longrightarrow> stops q"
  by (cases q) (auto simp: stops_def char_at_def)

lemma char_at_equals:
  "char_at p 0 = CHR ''='' \<Longrightarrow> \<exists>q. p = CHR ''='' # q"
  "char_at (c # p) (Suc 0) = char_at p 0"
  by (cases p; simp add: char_at_def)+

lemma decode_valid:
  assumes "decode_loop p 0 l ret = (p', mode, left, ret')" and "\<not> pf_invalid p' mode left"
  shows "\<exists>bytes rest. ret' = ret @ bytes \<and> p = b64_groups bytes @ rest \<and> stops rest"
  using assms
proof (induction p arbitrary: l ret rule: length_induct)
  case (1 p)
  show ?case
  proof (cases rule: next_sextet [of p])
    case 1
    with "1.prems" show ?thesis by (auto simp: decode_halt intro: exI [of _ "[]"])
  next
    case (2 u p1)
    show ?thesis
    proof (cases rule: next_sextet [of p1])
      case 1
      with "1.prems" 2 show ?thesis by (auto simp: decode_pb decode_halt pf_invalid_def)
    next
      case v: (2 v p2)
      let ?a = "push_byte (push_bit 2 u OR v div 16)"
      note a = sextets_to_byte(1,2) [OF 2(2,3) v(2,3)]
      show ?thesis
      proof (cases rule: next_sextet [of p2])
        case 1
        with "1.prems" 2 v have e: "p' = p2" "mode = 2" "left = v mod 16" "ret' = ret @ [?a]"
          by (auto simp: decode_pb decode_halt)
        with "1.prems"(2) have v0: "v mod 16 = 0" and eq: "char_at p2 0 = CHR ''=''"
          "char_at p2 1 = CHR ''=''" "dec64_of (char_at p2 2) = -1"
          by (auto simp: pf_invalid_def)
        from eq(1) obtain r where r: "p2 = CHR ''='' # r"
          using char_at_equals(1) by blast
        with eq(2) have "char_at r 0 = CHR ''=''" by (simp add: char_at_equals(2))
        with r obtain q where q: "p2 = ''=='' @ q"
          using char_at_equals(1) by auto
        with eq(3) have "stops q" by (intro stops_char_at [of p2 "''==''" q]) (simp_all add: numeral_2_eq_2)
        moreover have "v div 16 * 16 = v" using v0 div_mult_mod_eq [of v 16] by simp
        then have "p = b64_groups [?a] @ q"
          unfolding b64_groups.simps Let_def a using 2(1) v(1) q by simp
        ultimately show ?thesis using e by blast
      next
        case w: (2 w p3)
        let ?b = "push_byte (push_bit 4 (v mod 16) OR w div 4)"
        note b = sextets_to_byte(3,4) [OF v(2,3) w(2,3)]
        show ?thesis
        proof (cases rule: next_sextet [of p3])
          case 1
          with "1.prems" 2 v w have e: "p' = p3" "mode = 3" "left = w mod 4" "ret' = ret @ [?a, ?b]"
            by (auto simp: decode_pb decode_halt)
          with "1.prems"(2) have w0: "w mod 4 = 0" and eq: "char_at p3 0 = CHR ''=''"
            "dec64_of (char_at p3 1) = -1"
            by (auto simp: pf_invalid_def)
          from eq(1) obtain q where q: "p3 = ''='' @ q"
            using char_at_equals(1) by auto
          with eq(2) have "stops q" by (intro stops_char_at [of p3 "''=''" q]) simp_all
          moreover have "w div 4 * 4 = w" using w0 div_mult_mod_eq [of w 4] by simp
          then have "p = b64_groups [?a, ?b] @ q"
            unfolding b64_groups.simps Let_def a b div_mult_mod_eq using 2(1) v(1) w(1) q by simp
          ultimately show ?thesis using e by blast
        next
          case x: (2 x p4)
          let ?c = "push_byte (push_bit 6 (w mod 4) OR x)"
          note c = sextets_to_byte(5,6) [OF w(2,3) x(2,3)]
          have "decode_loop p4 0 (w mod 4) (ret @ [?a, ?b, ?c]) = (p', mode, left, ret')"
            using "1.prems"(1) unfolding 2(1) v(1) w(1) x(1)
            by (simp only: decode_pb 2(2,3) v(2,3) w(2,3) x(2,3)) simp
          moreover have "length p4 < length p" using 2(1) v(1) w(1) x(1) by simp
          ultimately obtain bytes rest where ih: "ret' = (ret @ [?a, ?b, ?c]) @ bytes"
            "p4 = b64_groups bytes @ rest" "stops rest"
            using "1.IH" "1.prems"(2) by blast
          have "p = b64_groups (?a # ?b # ?c # bytes) @ rest"
            unfolding b64_groups.simps Let_def a b c div_mult_mod_eq
            using 2(1) v(1) w(1) x(1) ih(2) by simp
          with ih show ?thesis by (intro exI [of _ "?a # ?b # ?c # bytes"] exI [of _ rest]) simp
        qed
      qed
    qed
  qed
qed

subsection \<open>Properties\<close>

text \<open>
  C11: Base64 round trip: decoding the encoding of any byte string gives the string back and
  the decoder's \<open>pfInvalid\<close> flag stays false.
\<close>

theorem base64_roundtrip: "DecodeBase64_chars (EncodeBase64 s) = (s, False)"
  by (rule decode_encode)

text \<open>
  C33: What the decoder accepts is an encoding: if the flag is false, the input is the
  canonical encoding of the bytes returned, followed by nothing or by text whose first
  character is outside the alphabet (which the decoder does not look at).
\<close>

theorem base64_accepts_canonical:
  assumes "DecodeBase64_chars s = (bytes, False)"
  shows "\<exists>rest. c_str s = EncodeBase64 bytes @ rest \<and> (rest = [] \<or> dec64_of (hd rest) = -1)"
proof -
  obtain p mode left where "decode_loop (c_str s) 0 0 [] = (p, mode, left, bytes)"
    and "\<not> pf_invalid p mode left"
    using assms by (auto simp: DecodeBase64_chars_def split: prod.splits)
  from decode_valid [OF this] show ?thesis by (auto simp: EncodeBase64_groups stops_def)
qed

theorem base64_accepts_canonical_witness:
  "\<exists>rest. c_str ''QUI=!'' = EncodeBase64 ''AB'' @ rest \<and> (rest = [] \<or> dec64_of (hd rest) = -1)"
proof (rule base64_accepts_canonical)
  show "DecodeBase64_chars ''QUI=!'' = (''AB'', False)" by code_simp
qed

text \<open>
  The encoder's loop over a mode and left-over bits computes the grouped reference: three
  bytes give four alphabet characters, a last group of one or two bytes is padded, and the
  length is the one the code reserves.
\<close>

theorem base64_encode_groups:
  "EncodeBase64 s = b64_groups s \<and> length (EncodeBase64 s) = (length s + 2) div 3 * 4"
  by (simp add: EncodeBase64_groups length_b64_groups)

end
