(* ===== verification/Double.thy ===== *)
theory Double
  imports Prelude
begin

section \<open>Floating point and its texts\<close>

text \<open>
  A finite \<open>double\<close> is a sign, a mantissa and a binary exponent. \<open>double_of_int\<close> is the cast
  of an integer, rounding to nearest even at 53 bits, and \<open>trunc_double\<close> the cast to an integer. The
  texts of a \<open>double\<close> are those of \<open>operator<<\<close>, which the C++ standard defines by \<open>printf\<close>: exact, rounded
  half to even at the last digit.
\<close>

datatype double = DFin bool int int | DInf bool | DNan

function bit_len :: "int \<Rightarrow> nat" where
  "bit_len n = (if n \<le> 0 then 0 else Suc (bit_len (n div 2)))"
  by pat_completeness auto
termination
  by (relation "measure nat") auto

declare bit_len.simps [simp del]

definition round_half_even :: "int \<Rightarrow> int \<Rightarrow> int" where
  "round_half_even n d =
     (let q = n div d; r = n mod d in
      if 2 * r > d \<or> (2 * r = d \<and> odd q) then q + 1 else q)"

definition double_of_int :: "int \<Rightarrow> double" where
  "double_of_int i =
     (let k = bit_len \<bar>i\<bar> - 53 in DFin (i < 0) (round_half_even \<bar>i\<bar> (2 ^ k)) (int k))"

fun double_eq :: "double \<Rightarrow> double \<Rightarrow> bool" where
  "double_eq (DFin s m e) (DFin t n f) =
     (let l = min e f; a = m * 2 ^ nat (e - l); b = n * 2 ^ nat (f - l) in
      a = b \<and> (s = t \<or> a = 0))"
| "double_eq (DInf s) (DInf t) = (s = t)"
| "double_eq _ _ = False"

fun trunc_double :: "double \<Rightarrow> int option" where
  "trunc_double (DFin s m e) =
     (let n = m * 2 ^ nat e div 2 ^ nat (- e) in Some (if s then - n else n))"
| "trunc_double _ = None"

fun double_neg :: "double \<Rightarrow> bool" where
  "double_neg (DFin s m e) = s"
| "double_neg (DInf s) = s"
| "double_neg DNan = False"

definition pad_digits :: "nat \<Rightarrow> int \<Rightarrow> string" where
  "pad_digits w n = (let d = dec_digits n in replicate (w - length d) (CHR ''0'') @ d)"

text \<open>What \<open>std::fixed << std::setprecision(8)\<close> prints.\<close>

fun fixed8 :: "double \<Rightarrow> string" where
  "fixed8 (DFin s m e) =
     (let n = (if e \<ge> 0 then m * 2 ^ nat e * 10 ^ 8 else round_half_even (m * 10 ^ 8) (2 ^ nat (- e)))
      in (if s then ''-'' else '''') @ dec_digits (n div 10 ^ 8) @ ''.'' @ pad_digits 8 (n mod 10 ^ 8))"
| "fixed8 (DInf s) = (if s then ''-inf'' else ''inf'')"
| "fixed8 DNan = ''nan''"

subsection \<open>Any precision\<close>

text \<open>\<open>m * 2 ^ e * 10 ^ k\<close>, rounded; \<open>k\<close> may be negative.\<close>

definition scaled :: "int \<Rightarrow> int \<Rightarrow> int \<Rightarrow> int" where
  "scaled m e k = round_half_even (m * 2 ^ nat e * 10 ^ nat k) (2 ^ nat (- e) * 10 ^ nat (- k))"

text \<open>How often \<open>n / d\<close> must be multiplied by 10 to reach 1.\<close>

function tens_to_one :: "int \<Rightarrow> int \<Rightarrow> nat" where
  "tens_to_one n d = (if n \<le> 0 \<or> n \<ge> d then 0 else Suc (tens_to_one (10 * n) d))"
  by pat_completeness auto
termination
  by (relation "measure (\<lambda>(n, d). nat (d - n))") auto

declare tens_to_one.simps [simp del]

text \<open>The exponent of the first decimal digit that is not zero.\<close>

definition dec_exponent :: "int \<Rightarrow> int \<Rightarrow> int" where
  "dec_exponent m e =
     (let n = m * 2 ^ nat e; d = 2 ^ nat (- e) in
      if m \<le> 0 then 0
      else if n \<ge> d then int (length (dec_digits (n div d))) - 1
      else - int (tens_to_one n d))"

text \<open>The digits of \<open>%e\<close> as one number of \<open>p + 1\<close> digits, and its exponent.\<close>

definition sci_digits :: "nat \<Rightarrow> int \<Rightarrow> int \<Rightarrow> int \<times> int" where
  "sci_digits p m e =
     (let x = dec_exponent m e; n = scaled m e (int p - x) in
      if n = 10 ^ (p + 1) then (10 ^ p, x + 1) else (n, x))"

definition with_point :: "bool \<Rightarrow> string \<Rightarrow> string \<Rightarrow> string" where
  "with_point point i f = i @ (if f = [] \<and> \<not> point then [] else CHR ''.'' # f)"

definition fraction :: "nat \<Rightarrow> int \<Rightarrow> string" where
  "fraction p n = (if p = 0 then [] else pad_digits p (n mod 10 ^ p))"

definition exponent_text :: "bool \<Rightarrow> int \<Rightarrow> string" where
  "exponent_text up x = (if up then ''E'' else ''e'') @ (if x < 0 then ''-'' else ''+'') @ pad_digits 2 \<bar>x\<bar>"

definition strip_zeros :: "string \<Rightarrow> string" where
  "strip_zeros f = rev (dropWhile (\<lambda>c. c = CHR ''0'') (rev f))"

text \<open>\<open>%f\<close>, \<open>%e\<close> and \<open>%g\<close> of a magnitude; \<open>point\<close> is the flag \<open>#\<close>.\<close>

definition fixed_text :: "bool \<Rightarrow> nat \<Rightarrow> int \<Rightarrow> int \<Rightarrow> string" where
  "fixed_text point p m e =
     (let n = scaled m e (int p) in with_point point (dec_digits (n div 10 ^ p)) (fraction p n))"

definition sci_text :: "bool \<Rightarrow> bool \<Rightarrow> nat \<Rightarrow> int \<Rightarrow> int \<Rightarrow> string" where
  "sci_text point up p m e =
     (case sci_digits p m e of (n, x) \<Rightarrow>
       with_point point (dec_digits (n div 10 ^ p)) (fraction p n) @ exponent_text up x)"

definition general_text :: "bool \<Rightarrow> bool \<Rightarrow> nat \<Rightarrow> int \<Rightarrow> int \<Rightarrow> string" where
  "general_text point up prec m e =
     (let p = (if prec = 0 then 1 else prec); strip = (if point then (\<lambda>f. f) else strip_zeros) in
      case sci_digits (p - 1) m e of (n, x) \<Rightarrow>
        if - 4 \<le> x \<and> x < int p
        then let q = nat (int p - 1 - x); k = scaled m e (int q)
             in with_point point (dec_digits (k div 10 ^ q)) (strip (fraction q k))
        else with_point point (dec_digits (n div 10 ^ (p - 1))) (strip (fraction (p - 1) n))
               @ exponent_text up x)"

text \<open>What is written without a precision or a style: \<open>%g\<close> with six digits.\<close>

definition show_double :: "double \<Rightarrow> string" where
  "show_double d = (if double_neg d then ''-'' else '''') @
     (case d of DFin s m e \<Rightarrow> general_text False False 6 m e | DInf s \<Rightarrow> ''inf'' | DNan \<Rightarrow> ''nan'')"

lemma scaled_8: "scaled m e (int 8) =
    (if e \<ge> 0 then m * 2 ^ nat e * 10 ^ 8 else round_half_even (m * 10 ^ 8) (2 ^ nat (- e)))"
  by (simp add: scaled_def round_half_even_def)

text \<open>With eight digits this is what the JSON generator writes.\<close>

lemma fixed_text_8: "(if s then ''-'' else '''') @ fixed_text False 8 m e = fixed8 (DFin s m e)"
proof -
  have f: "with_point False i (fraction 8 n) = i @ ''.'' @ pad_digits 8 (n mod 10 ^ 8)" for i n
    by (simp only: with_point_def fraction_def) (simp add: pad_digits_def Let_def del: power_numeral)
  show ?thesis
    unfolding fixed_text_def fixed8.simps scaled_8 Let_def f ..
qed

end
