(* ===== verification/TinyFormat.thy ===== *)
theory TinyFormat
  imports Double
begin

section \<open>strprintf (tinyformat.h)\<close>

text \<open>
  The formatter of \<open>src/src/tinyformat.h\<close>: the output stream's state, the
  \<open>FormatIterator\<close> that walks over the format string, and \<open>tfm::format\<close>, which the
  program calls as \<open>strprintf\<close>. A pointer into the format string is the suffix it points to,
  so the terminating NUL is the empty list. Arguments are the types the program formats:
  \<open>int\<close>, \<open>int64_t\<close>, \<open>size_t\<close>, \<open>std::string\<close>, \<open>const char *\<close> and \<open>char\<close>, and also \<open>double\<close>.
\<close>

subsection \<open>The stream state\<close>

datatype adjustfield = AdjNone | AdjLeft | AdjInternal
datatype basefield = BaseNone | BaseDec | BaseOct | BaseHex
datatype floatfield = FloatNone | FloatFixed | FloatScientific

record ostream =
  os_text :: string
  os_width :: int
  os_prec :: int
  os_fill :: char
  os_adjust :: adjustfield
  os_base :: basefield
  os_float :: floatfield
  os_showbase :: bool
  os_showpoint :: bool
  os_showpos :: bool
  os_boolalpha :: bool
  os_upper :: bool

definition fresh_stream :: ostream where
  "fresh_stream = \<lparr>os_text = [], os_width = 0, os_prec = 6, os_fill = CHR '' '',
     os_adjust = AdjNone, os_base = BaseDec, os_float = FloatNone, os_showbase = False,
     os_showpoint = False, os_showpos = False, os_boolalpha = False, os_upper = False\<rparr>"

text \<open>\<open>flags()\<close>, read and written as a whole.\<close>

type_synonym fmtflags = "adjustfield \<times> basefield \<times> floatfield \<times> bool \<times> bool \<times> bool \<times> bool \<times> bool"

definition os_flags :: "ostream \<Rightarrow> fmtflags" where
  "os_flags os = (os_adjust os, os_base os, os_float os, os_showbase os, os_showpoint os,
     os_showpos os, os_boolalpha os, os_upper os)"

definition os_set_flags :: "fmtflags \<Rightarrow> ostream \<Rightarrow> ostream" where
  "os_set_flags fl os = (case fl of (a, b, f, sb, spt, sps, ba, up) \<Rightarrow>
     os\<lparr>os_adjust := a, os_base := b, os_float := f, os_showbase := sb, os_showpoint := spt,
        os_showpos := sps, os_boolalpha := ba, os_upper := up\<rparr>)"

text \<open>The unformatted \<open>write\<close>.\<close>

definition os_write :: "string \<Rightarrow> ostream \<Rightarrow> ostream" where
  "os_write t os = os\<lparr>os_text := os_text os @ t\<rparr>"

text \<open>
  The formatted \<open>operator<<\<close>: pad to the width with the fill character, then reset the width.
  \<open>pre\<close> is the sign or base prefix, after which internal padding goes.
\<close>

definition os_pad :: "string \<Rightarrow> string \<Rightarrow> ostream \<Rightarrow> ostream" where
  "os_pad pre body os =
     (let n = nat (os_width os - int (length pre + length body)); p = replicate n (os_fill os) in
      os\<lparr>os_width := 0, os_text := os_text os @
        (case os_adjust os of
           AdjLeft \<Rightarrow> pre @ body @ p
         | AdjInternal \<Rightarrow> pre @ p @ body
         | AdjNone \<Rightarrow> p @ pre @ body)\<rparr>)"

definition os_put_string :: "string \<Rightarrow> ostream \<Rightarrow> ostream" where
  "os_put_string s os =
     (let n = nat (os_width os - int (length s)); p = replicate n (os_fill os) in
      os\<lparr>os_width := 0, os_text := os_text os @
        (if os_adjust os = AdjLeft then s @ p else p @ s)\<rparr>)"

fun radix_digits :: "bool \<Rightarrow> int \<Rightarrow> nat \<Rightarrow> int \<Rightarrow> string" where
  "radix_digits up b 0 n = []"
| "radix_digits up b (Suc k) n =
     (let d = nat (n mod b);
          c = (if d < 10 then digit_char d else char_of ((if up then 55 else 87) + d))
      in (if n < b then [c] else radix_digits up b k (n div b) @ [c]))"

text \<open>
  An integer of value \<open>i\<close> whose unsigned reading is \<open>u\<close>: decimal prints the value, octal and
  hexadecimal the unsigned reading (at most 64 bits, so 22 digits are enough).
\<close>

definition os_put_int :: "bool \<Rightarrow> int \<Rightarrow> int \<Rightarrow> ostream \<Rightarrow> ostream" where
  "os_put_int sgnd i u os =
     (case os_base os of
        BaseOct \<Rightarrow>
          os_pad (if os_showbase os \<and> u \<noteq> 0 then ''0'' else '''') (radix_digits False 8 22 u) os
      | BaseHex \<Rightarrow>
          os_pad (if os_showbase os \<and> u \<noteq> 0 then (if os_upper os then ''0X'' else ''0x'') else '''')
            (radix_digits (os_upper os) 16 22 u) os
      | _ \<Rightarrow>
          os_pad (if i < 0 then ''-'' else if sgnd \<and> os_showpos os then ''+'' else '''')
            (dec_digits \<bar>i\<bar>) os)"

text \<open>A \<open>double\<close>, in the style of the flags \<open>floatfield\<close>; a negative precision stands for six.\<close>

definition os_put_double :: "double \<Rightarrow> ostream \<Rightarrow> ostream" where
  "os_put_double d os =
     (let p = (if os_prec os < 0 then 6 else nat (os_prec os));
          body = (case d of
            DFin s m e \<Rightarrow>
              (case os_float os of
                 FloatFixed \<Rightarrow> fixed_text (os_showpoint os) p m e
               | FloatScientific \<Rightarrow> sci_text (os_showpoint os) (os_upper os) p m e
               | FloatNone \<Rightarrow> general_text (os_showpoint os) (os_upper os) p m e)
          | DInf s \<Rightarrow> if os_upper os then ''INF'' else ''inf''
          | DNan \<Rightarrow> if os_upper os then ''NAN'' else ''nan'')
      in os_pad (if double_neg d then ''-'' else if os_showpos os then ''+'' else [])
           body os)"

subsection \<open>Format specifications\<close>

record extra_flags =
  Flag_TruncateToPrecision :: bool
  Flag_SpacePadPositive :: bool
  Flag_VariableWidth :: bool
  Flag_VariablePrecision :: bool

definition Flag_None :: extra_flags where
  "Flag_None = \<lparr>Flag_TruncateToPrecision = False, Flag_SpacePadPositive = False,
     Flag_VariableWidth = False, Flag_VariablePrecision = False\<rparr>"

fun parseIntAndAdvance :: "int \<Rightarrow> string \<Rightarrow> int \<times> string" where
  "parseIntAndAdvance i [] = (i, [])"
| "parseIntAndAdvance i (c # s) =
     (if is_digit c then parseIntAndAdvance (10 * i + int (digit_val c)) s else (i, c # s))"

text \<open>Print the literal part; \<open>%%\<close> is a literal \<open>%\<close>. Returns the text and the next position.\<close>

fun printFormatStringLiteral :: "string \<Rightarrow> string \<times> string" where
  "printFormatStringLiteral [] = ([], [])"
| "printFormatStringLiteral (c # s) =
     (if c = CHR ''%'' then
        (case s of
           [] \<Rightarrow> ([], c # s)
         | d # s' \<Rightarrow>
             if d \<noteq> CHR ''%'' then ([], c # s)
             else (case printFormatStringLiteral s' of (t, r) \<Rightarrow> (CHR ''%'' # t, r)))
      else (case printFormatStringLiteral s of (t, r) \<Rightarrow> (c # t, r)))"

fun parse_flags :: "ostream \<Rightarrow> extra_flags \<Rightarrow> string \<Rightarrow> ostream \<times> extra_flags \<times> string" where
  "parse_flags os ex [] = (os, ex, [])"
| "parse_flags os ex (c # s) =
     (if c = CHR ''#'' then parse_flags (os\<lparr>os_showpoint := True, os_showbase := True\<rparr>) ex s
      else if c = CHR ''0'' then
        parse_flags
          (if os_adjust os \<noteq> AdjLeft
           then os\<lparr>os_fill := CHR ''0'', os_adjust := AdjInternal\<rparr> else os) ex s
      else if c = CHR ''-'' then
        parse_flags (os\<lparr>os_fill := CHR '' '', os_adjust := AdjLeft\<rparr>) ex s
      else if c = CHR '' '' then
        parse_flags os (if \<not> os_showpos os then ex\<lparr>Flag_SpacePadPositive := True\<rparr> else ex) s
      else if c = CHR ''+'' then
        parse_flags (os\<lparr>os_showpos := True\<rparr>) (ex\<lparr>Flag_SpacePadPositive := False\<rparr>) s
      else (os, ex, c # s))"

text \<open>A number that overflows \<open>int\<close> while it is read has no defined value.\<close>

definition checked_int :: "int \<Rightarrow> int res" where
  "checked_int n = (if n < 2 ^ 31 then Inr n else Inl (Undefined ''int overflow''))"

definition parse_width ::
  "ostream \<Rightarrow> extra_flags \<Rightarrow> int \<Rightarrow> string \<Rightarrow> (ostream \<times> extra_flags \<times> bool \<times> string) res" where
  "parse_width os ex vw c =
     bindR
       (case c of
          [] \<Rightarrow> Inr (os, False, c)
        | d # _ \<Rightarrow>
            if is_digit d then
              (case parseIntAndAdvance 0 c of (n, c') \<Rightarrow>
                 bindR (checked_int n) (\<lambda>n. Inr (os\<lparr>os_width := n\<rparr>, True, c')))
            else Inr (os, False, c))
       (\<lambda>(os, widthSet, c).
          case c of
            d # c' \<Rightarrow>
              if d = CHR ''*'' then
                bindR (checked_int \<bar>vw\<bar>) (\<lambda>w.
                  Inr ((if vw < 0 then os\<lparr>os_fill := CHR '' '', os_adjust := AdjLeft\<rparr> else os)
                         \<lparr>os_width := w\<rparr>,
                       ex\<lparr>Flag_VariableWidth := True\<rparr>, True, c'))
              else Inr (os, ex, widthSet, c)
          | [] \<Rightarrow> Inr (os, ex, widthSet, c))"

definition parse_precision ::
  "ostream \<Rightarrow> extra_flags \<Rightarrow> int \<Rightarrow> string \<Rightarrow> (ostream \<times> extra_flags \<times> bool \<times> string) res" where
  "parse_precision os ex vp c =
     (case c of
        [] \<Rightarrow> Inr (os, ex, False, c)
      | d # c1 \<Rightarrow>
          if d \<noteq> CHR ''.'' then Inr (os, ex, False, c)
          else (case c1 of
              [] \<Rightarrow> Inr (os\<lparr>os_prec := 0\<rparr>, ex, True, c1)
            | e # c2 \<Rightarrow>
                if e = CHR ''*'' then
                  Inr (os\<lparr>os_prec := vp\<rparr>, ex\<lparr>Flag_VariablePrecision := True\<rparr>, True, c2)
                else if is_digit e then
                  (case parseIntAndAdvance 0 c1 of (n, c') \<Rightarrow>
                     bindR (checked_int n) (\<lambda>n. Inr (os\<lparr>os_prec := n\<rparr>, ex, True, c')))
                else if e = CHR ''-'' then
                  (case parseIntAndAdvance 0 c2 of (n, c') \<Rightarrow>
                     bindR (checked_int n) (\<lambda>n. Inr (os\<lparr>os_prec := 0\<rparr>, ex, True, c')))
                else Inr (os\<lparr>os_prec := 0\<rparr>, ex, True, c1)))"

definition is_length_modifier :: "char \<Rightarrow> bool" where
  "is_length_modifier c \<longleftrightarrow> c \<in> set ''lhLjzt''"

text \<open>The conversion specifier sets the stream flags; it returns whether it is an integer one.\<close>

definition conversion ::
  "bool \<Rightarrow> char \<Rightarrow> ostream \<Rightarrow> extra_flags \<Rightarrow> (ostream \<times> extra_flags \<times> bool) res" where
  "conversion precisionSet c os ex =
     (if c \<in> set ''udi'' then Inr (os\<lparr>os_base := BaseDec\<rparr>, ex, True)
      else if c = CHR ''o'' then Inr (os\<lparr>os_base := BaseOct\<rparr>, ex, True)
      else if c = CHR ''X'' then Inr (os\<lparr>os_upper := True, os_base := BaseHex\<rparr>, ex, True)
      else if c \<in> set ''xp'' then Inr (os\<lparr>os_base := BaseHex\<rparr>, ex, True)
      else if c = CHR ''E'' then
        Inr (os\<lparr>os_upper := True, os_float := FloatScientific, os_base := BaseDec\<rparr>, ex, False)
      else if c = CHR ''e'' then
        Inr (os\<lparr>os_float := FloatScientific, os_base := BaseDec\<rparr>, ex, False)
      else if c = CHR ''F'' then Inr (os\<lparr>os_upper := True, os_float := FloatFixed\<rparr>, ex, False)
      else if c = CHR ''f'' then Inr (os\<lparr>os_float := FloatFixed\<rparr>, ex, False)
      else if c = CHR ''G'' then
        Inr (os\<lparr>os_upper := True, os_base := BaseDec, os_float := FloatNone\<rparr>, ex, False)
      else if c = CHR ''g'' then Inr (os\<lparr>os_base := BaseDec, os_float := FloatNone\<rparr>, ex, False)
      else if c \<in> set ''aA'' then
        Inl (RuntimeError ''tinyformat: the %a and %A conversion specs are not supported'')
      else if c = CHR ''s'' then
        Inr (os\<lparr>os_boolalpha := True\<rparr>,
             (if precisionSet then ex\<lparr>Flag_TruncateToPrecision := True\<rparr> else ex), False)
      else if c = CHR ''n'' then
        Inl (RuntimeError ''tinyformat: %n conversion spec not supported'')
      else Inr (os, ex, False))"

definition reset_stream :: "ostream \<Rightarrow> ostream" where
  "reset_stream os = os\<lparr>os_width := 0, os_prec := 6, os_fill := CHR '' '', os_adjust := AdjNone,
     os_base := BaseNone, os_float := FloatNone, os_showbase := False, os_boolalpha := False,
     os_showpoint := False, os_showpos := False, os_upper := False\<rparr>"

text \<open>The precision of an integer is a minimal number of digits, unless there is a width.\<close>

definition int_precision :: "bool \<Rightarrow> bool \<Rightarrow> bool \<Rightarrow> ostream \<Rightarrow> ostream" where
  "int_precision intConversion precisionSet widthSet os =
     (if intConversion \<and> precisionSet \<and> \<not> widthSet
      then os\<lparr>os_width := os_prec os, os_adjust := AdjInternal, os_fill := CHR ''0''\<rparr>
      else os)"

text \<open>
  \<open>streamStateFromFormat\<close>: the stream, the extra flags, the conversion character (what
  \<open>*(fmtEnd-1)\<close> reads later) and the position after the specification.
\<close>

definition streamStateFromFormat ::
  "ostream \<Rightarrow> string \<Rightarrow> int \<Rightarrow> int \<Rightarrow> (ostream \<times> extra_flags \<times> char \<times> string) res" where
  "streamStateFromFormat os fmtStart vw vp =
     (case fmtStart of
        [] \<Rightarrow> Inl (RuntimeError ''tinyformat: Not enough conversion specifiers in format string'')
      | f # c0 \<Rightarrow>
          if f \<noteq> CHR ''%'' then
            Inl (RuntimeError ''tinyformat: Not enough conversion specifiers in format string'')
          else
            (case parse_flags (reset_stream os) Flag_None c0 of (os1, ex1, c1) \<Rightarrow>
             bindR (parse_width os1 ex1 vw c1) (\<lambda>(os2, ex2, widthSet, c2).
             bindR (parse_precision os2 ex2 vp c2) (\<lambda>(os3, ex3, precisionSet, c3).
             case dropWhile is_length_modifier c3 of
               [] \<Rightarrow> Inl (RuntimeError
                 ''tinyformat: Conversion spec incorrectly terminated by end of string'')
             | c # rest \<Rightarrow>
                 bindR (conversion precisionSet c os3 ex3) (\<lambda>(os4, ex4, intConversion).
                 Inr (int_precision intConversion precisionSet widthSet os4, ex4, c, rest))))))"

subsection \<open>Arguments\<close>

datatype arg =
    ArgInt int32
  | ArgInt64 int64
  | ArgSize uint64
  | ArgString string
  | ArgCString string
  | ArgChar char
  | ArgDouble double

definition char_int :: "char \<Rightarrow> int" where
  "char_int c = (if code_of c < 128 then int (code_of c) else int (code_of c) - 256)"

text \<open>\<open>formatValueAsType<T, char>\<close>: the cast of a \<open>double\<close> is undefined where it does not fit.\<close>

definition format_as_char :: "int \<Rightarrow> ostream \<Rightarrow> ostream" where
  "format_as_char i os = os_put_string [char_of (nat (i mod 256))] os"

definition cast_double :: "int \<Rightarrow> double \<Rightarrow> int res" where
  "cast_double bound d =
     (case trunc_double d of
        Some i \<Rightarrow> if - bound \<le> i \<and> i < bound then Inr i else Inl (Undefined ''cast of a double'')
      | None \<Rightarrow> Inl (Undefined ''cast of a double''))"

text \<open>\<open>formatValue\<close>, the generic one and the one for \<open>char\<close>; \<open>cv\<close> is the conversion character.\<close>

fun formatValue :: "ostream \<Rightarrow> char \<Rightarrow> arg \<Rightarrow> ostream res" where
  "formatValue os cv (ArgInt w) =
     (if cv = CHR ''c'' then Inr (format_as_char (sint w) os)
      else Inr (os_put_int True (sint w) (uint w) os))"
| "formatValue os cv (ArgInt64 w) =
     (if cv = CHR ''c'' then Inr (format_as_char (sint w) os)
      else Inr (os_put_int True (sint w) (uint w) os))"
| "formatValue os cv (ArgSize w) =
     (if cv = CHR ''c'' then Inr (format_as_char (uint w) os)
      else Inr (os_put_int False (uint w) (uint w) os))"
| "formatValue os cv (ArgString s) = Inr (os_put_string s os)"
| "formatValue os cv (ArgCString s) =
     (if cv = CHR ''p'' then Inl (Undefined ''the address of a string'')
      else Inr (os_put_string (c_str s) os))"
| "formatValue os cv (ArgChar c) =
     (if cv \<in> set ''udioXx''
      then Inr (os_put_int True (char_int c) (char_int c mod 2 ^ 32) os)
      else Inr (os_put_string [c] os))"
| "formatValue os cv (ArgDouble d) =
     (if cv = CHR ''c'' then bindR (cast_double 128 d) (\<lambda>i. Inr (format_as_char i os))
      else Inr (os_put_double d os))"

fun convertToInt :: "arg \<Rightarrow> int res" where
  "convertToInt (ArgInt w) = Inr (sint w)"
| "convertToInt (ArgInt64 w) = Inr (sint (scast w :: int32))"
| "convertToInt (ArgSize w) = Inr (sint (ucast w :: int32))"
| "convertToInt (ArgChar c) = Inr (char_int c)"
| "convertToInt (ArgDouble d) = cast_double (2 ^ 31) d"
| "convertToInt _ = Inl (RuntimeError
     ''tinyformat: Cannot convert from argument type to integer for use as variable width or precision'')"

text \<open>\<open>formatCStringTruncate\<close>: only a C string is truncated while it is read.\<close>

fun formatCStringTruncate :: "ostream \<Rightarrow> arg \<Rightarrow> int \<Rightarrow> ostream option" where
  "formatCStringTruncate os (ArgCString s) n = Some (os_write (take (nat n) (c_str s)) os)"
| "formatCStringTruncate os _ n = None"

subsection \<open>The iterator\<close>

record format_iterator =
  m_out :: ostream
  m_fmt :: string
  m_extraFlags :: extra_flags
  m_wantWidth :: bool
  m_wantPrecision :: bool
  m_variableWidth :: int
  m_variablePrecision :: int
  m_origWidth :: int
  m_origPrecision :: int
  m_origFlags :: fmtflags
  m_origFill :: char

definition FormatIterator :: "ostream \<Rightarrow> string \<Rightarrow> format_iterator" where
  "FormatIterator out fmt = \<lparr>m_out = out, m_fmt = c_str fmt, m_extraFlags = Flag_None,
     m_wantWidth = False, m_wantPrecision = False, m_variableWidth = 0, m_variablePrecision = 0,
     m_origWidth = os_width out, m_origPrecision = os_prec out, m_origFlags = os_flags out,
     m_origFill = os_fill out\<rparr>"

definition finish :: "format_iterator \<Rightarrow> format_iterator res" where
  "finish fi =
     (case printFormatStringLiteral (m_fmt fi) of (t, r) \<Rightarrow>
        if r \<noteq> []
        then Inl (RuntimeError ''tinyformat: Too many conversion specifiers in format string'')
        else Inr (fi\<lparr>m_out := os_write t (m_out fi), m_fmt := r\<rparr>))"

definition minus_plus :: "string \<Rightarrow> string" where
  "minus_plus s = map (\<lambda>c. if c = CHR ''+'' then CHR '' '' else c) s"

text \<open>The formatting part of \<open>accept\<close>, with the temporary stream of the special cases.\<close>

definition format_into :: "ostream \<Rightarrow> extra_flags \<Rightarrow> char \<Rightarrow> arg \<Rightarrow> ostream res" where
  "format_into out ex cv v =
     (if \<not> (Flag_SpacePadPositive ex \<or> Flag_TruncateToPrecision ex)
      then formatValue out cv v
      else
        let tmp0 = out\<lparr>os_text := []\<rparr>;
            tmp = (if Flag_SpacePadPositive ex then tmp0\<lparr>os_showpos := True\<rparr> else tmp0)
        in bindR
             (case (if Flag_TruncateToPrecision ex
                    then formatCStringTruncate tmp v (os_prec out) else None) of
                Some tmp' \<Rightarrow> Inr tmp'
              | None \<Rightarrow> formatValue tmp cv v)
             (\<lambda>tmp'.
                let result0 = os_text tmp';
                    result = (if Flag_SpacePadPositive ex then minus_plus result0 else result0)
                in if Flag_TruncateToPrecision ex \<and> int (length result) > os_prec out
                   then (if os_prec out < 0 then Inl (Undefined ''write of a negative count'')
                         else Inr (os_write (take (nat (os_prec out)) result) out))
                   else Inr (os_put_string result out)))"

text \<open>\<open>accept\<close>; \<open>fmtEnd\<close> is \<open>None\<close> while it is the null pointer.\<close>

definition accept_parse :: "format_iterator \<Rightarrow> (format_iterator \<times> (char \<times> string) option) res" where
  "accept_parse fi =
     (if m_extraFlags fi = Flag_None \<and> \<not> m_wantWidth fi \<and> \<not> m_wantPrecision fi
      then (case printFormatStringLiteral (m_fmt fi) of (t, r) \<Rightarrow>
             bindR (streamStateFromFormat (os_write t (m_out fi)) r 0 0) (\<lambda>(os, ex, cv, e).
               Inr (fi\<lparr>m_out := os, m_fmt := r, m_extraFlags := ex,
                       m_wantWidth := Flag_VariableWidth ex,
                       m_wantPrecision := Flag_VariablePrecision ex\<rparr>, Some (cv, e))))
      else Inr (fi, None))"

definition accept_emit ::
  "arg \<Rightarrow> format_iterator \<Rightarrow> (char \<times> string) option \<Rightarrow> format_iterator res" where
  "accept_emit v fi fmtEnd =
     (case fmtEnd of
        None \<Rightarrow> Inl (Undefined ''null fmtEnd'')
      | Some (cv, e) \<Rightarrow>
          bindR (format_into (m_out fi) (m_extraFlags fi) cv v) (\<lambda>os.
            Inr (fi\<lparr>m_out := os, m_extraFlags := Flag_None, m_fmt := e\<rparr>)))"

definition accept :: "arg \<Rightarrow> format_iterator \<Rightarrow> format_iterator res" where
  "accept v fi0 =
     bindR (accept_parse fi0) (\<lambda>(fi, fmtEnd).
       if Flag_VariableWidth (m_extraFlags fi) \<or> Flag_VariablePrecision (m_extraFlags fi)
       then
         if m_wantWidth fi \<or> m_wantPrecision fi
         then bindR (convertToInt v) (\<lambda>n.
                Inr (if m_wantWidth fi then fi\<lparr>m_variableWidth := n, m_wantWidth := False\<rparr>
                     else fi\<lparr>m_variablePrecision := n, m_wantPrecision := False\<rparr>))
         else bindR (streamStateFromFormat (m_out fi) (m_fmt fi)
                       (m_variableWidth fi) (m_variablePrecision fi)) (\<lambda>(os, ex, cv, e).
                accept_emit v (fi\<lparr>m_out := os, m_extraFlags := ex\<rparr>) (Some (cv, e)))
       else accept_emit v fi fmtEnd)"

fun format_args :: "arg list \<Rightarrow> format_iterator \<Rightarrow> format_iterator res" where
  "format_args [] fi = finish fi"
| "format_args (v # vs) fi = bindR (accept v fi) (format_args vs)"

definition strprintf :: "string \<Rightarrow> arg list \<Rightarrow> string res" where
  "strprintf fmt vs =
     bindR (format_args vs (FormatIterator fresh_stream fmt)) (\<lambda>fi. Inr (os_text (m_out fi)))"

subsection \<open>What a format string means\<close>

text \<open>
  A format string made of literal text and plain conversions (\<open>%d\<close>, \<open>%u\<close>, \<open>%i\<close>, \<open>%s\<close>), the
  ones the program uses: each piece with the text it stands for.
\<close>

datatype piece = Lit string | Conv char arg

definition plain_convs :: string where
  "plain_convs = ''duis''"

fun show_arg :: "char \<Rightarrow> arg \<Rightarrow> string" where
  "show_arg cv (ArgInt w) = dec_int (sint w)"
| "show_arg cv (ArgInt64 w) = dec_int (sint w)"
| "show_arg cv (ArgSize w) = dec_int (uint w)"
| "show_arg cv (ArgString s) = s"
| "show_arg cv (ArgCString s) = c_str s"
| "show_arg cv (ArgChar c) = (if cv = CHR ''s'' then [c] else dec_int (char_int c))"
| "show_arg cv (ArgDouble d) = show_double d"

definition escape_percent :: "string \<Rightarrow> string" where
  "escape_percent s = concat (map (\<lambda>c. if c = CHR ''%'' then ''%%'' else [c]) s)"

fun piece_fmt :: "piece \<Rightarrow> string" where
  "piece_fmt (Lit s) = escape_percent s"
| "piece_fmt (Conv cv a) = [CHR ''%'', cv]"

fun piece_args :: "piece \<Rightarrow> arg list" where
  "piece_args (Lit s) = []"
| "piece_args (Conv cv a) = [a]"

fun piece_text :: "piece \<Rightarrow> string" where
  "piece_text (Lit s) = s"
| "piece_text (Conv cv a) = show_arg cv a"

fun piece_ok :: "piece \<Rightarrow> bool" where
  "piece_ok (Lit s) \<longleftrightarrow> CHR 0x00 \<notin> set s"
| "piece_ok (Conv cv a) \<longleftrightarrow> cv \<in> set plain_convs"

definition idle :: "format_iterator \<Rightarrow> bool" where
  "idle fi \<longleftrightarrow> m_extraFlags fi = Flag_None \<and> \<not> m_wantWidth fi \<and> \<not> m_wantPrecision fi"

definition add_text :: "string \<Rightarrow> format_iterator \<Rightarrow> format_iterator" where
  "add_text t fi = fi\<lparr>m_out := os_write t (m_out fi)\<rparr>"

lemma print_literal_escape:
  "printFormatStringLiteral (escape_percent s @ r) =
     (case printFormatStringLiteral r of (t, r') \<Rightarrow> (s @ t, r'))"
  by (induction s) (auto simp: escape_percent_def split: prod.splits)

lemma os_write_write: "os_write b (os_write a os) = os_write (a @ b) os"
  by (simp add: os_write_def)

lemma os_write_simps [simp]:
  "os_text (os_write t os) = os_text os @ t" "os_write [] os = os"
  by (simp_all add: os_write_def)

text \<open>Literal text before a position can be written at once.\<close>

lemma accept_literal:
  assumes "idle fi" and "m_fmt fi = escape_percent s @ r"
  shows "accept v fi = accept v (add_text s fi\<lparr>m_fmt := r\<rparr>)"
  using assms
  by (simp add: accept_def accept_parse_def idle_def add_text_def print_literal_escape
      os_write_write split: prod.split)

lemma finish_literal:
  assumes "m_fmt fi = escape_percent s @ r"
  shows "finish fi = finish (add_text s fi\<lparr>m_fmt := r\<rparr>)"
  using assms
  by (simp add: finish_def add_text_def print_literal_escape os_write_write split: prod.split)

lemma format_args_literal:
  assumes "idle fi" and "m_fmt fi = escape_percent s @ r"
  shows "format_args vs fi = format_args vs (add_text s fi\<lparr>m_fmt := r\<rparr>)"
  using assms by (cases vs) (simp_all add: finish_literal accept_literal)

text \<open>A plain conversion prints its argument, whatever the previous one left in the stream.\<close>

lemma plain_char:
  assumes "cv \<in> set plain_convs"
  shows "parse_flags os ex (cv # s) = (os, ex, cv # s)"
    and "parse_width os ex vw (cv # s) = Inr (os, ex, False, cv # s)"
    and "parse_precision os ex vp (cv # s) = Inr (os, ex, False, cv # s)"
    and "\<not> is_length_modifier cv"
    and "cv \<noteq> CHR ''%''"
proof -
  have "list_all (\<lambda>c. \<not> is_digit c \<and> \<not> is_length_modifier c) plain_convs" by code_simp
  then have c: "\<not> is_digit cv" "\<not> is_length_modifier cv" using assms by (auto simp: list_all_iff)
  have d: "cv \<notin> set ''#0- +*.%''" using assms by (auto simp: plain_convs_def)
  show "parse_flags os ex (cv # s) = (os, ex, cv # s)"
    and "parse_width os ex vw (cv # s) = Inr (os, ex, False, cv # s)"
    and "parse_precision os ex vp (cv # s) = Inr (os, ex, False, cv # s)"
    and "cv \<noteq> CHR ''%''"
    using c d by (simp_all add: parse_width_def parse_precision_def)
  show "\<not> is_length_modifier cv" by (rule c)
qed

lemma conversion_plain:
  assumes "cv \<in> set plain_convs"
  shows "conversion False cv os ex =
    Inr (if cv = CHR ''s'' then os\<lparr>os_boolalpha := True\<rparr> else os\<lparr>os_base := BaseDec\<rparr>,
         ex, cv \<noteq> CHR ''s'')"
proof (cases "cv = CHR ''s''")
  case True
  then show ?thesis by (simp add: conversion_def)
next
  case False
  then have "cv \<in> set ''udi''" using assms by (auto simp: plain_convs_def)
  then show ?thesis using False by (simp only: conversion_def if_True if_False simp_thms)
qed

definition plain_state :: "ostream \<Rightarrow> bool" where
  "plain_state os \<longleftrightarrow> os_width os = 0 \<and> os_prec os = 6 \<and> os_adjust os = AdjNone
     \<and> os_base os \<in> {BaseNone, BaseDec} \<and> os_float os = FloatNone \<and> \<not> os_showpoint os
     \<and> \<not> os_showpos os \<and> \<not> os_upper os"

lemma stream_state_plain:
  assumes "cv \<in> set plain_convs"
  shows "\<exists>os'. streamStateFromFormat os (CHR ''%'' # cv # rest) vw vp = Inr (os', Flag_None, cv, rest)
    \<and> os_text os' = os_text os \<and> plain_state os'"
proof -
  let ?os = "reset_stream os"
  have "streamStateFromFormat os (CHR ''%'' # cv # rest) vw vp =
    Inr (if cv = CHR ''s'' then ?os\<lparr>os_boolalpha := True\<rparr> else ?os\<lparr>os_base := BaseDec\<rparr>,
      Flag_None, cv, rest)"
    by (simp add: streamStateFromFormat_def plain_char [OF assms] conversion_plain [OF assms]
        int_precision_def del: parse_flags.simps)
  then show ?thesis by (simp add: reset_stream_def plain_state_def)
qed

lemma put_plain:
  assumes "plain_state os"
  shows "os_text (os_put_int sg i u os) = os_text os @ dec_int i"
    and "os_text (os_put_string s os) = os_text os @ s"
    and "os_text (os_put_double d os) = os_text os @ show_double d"
  using assms
  by (auto simp: plain_state_def os_put_int_def os_put_string_def os_put_double_def os_pad_def
      dec_int_def show_double_def Let_def split: double.split)

lemma formatValue_plain:
  assumes "plain_state os" and "cv \<in> set plain_convs"
  shows "\<exists>os'. formatValue os cv v = Inr os' \<and> os_text os' = os_text os @ show_arg cv v"
  using assms(2) put_plain [OF assms(1)] by (cases v) (auto simp: plain_convs_def)

lemma accept_plain:
  assumes "idle fi" and "m_fmt fi = CHR ''%'' # cv # rest" and "cv \<in> set plain_convs"
  shows "\<exists>fi'. accept v fi = Inr fi' \<and> idle fi' \<and> m_fmt fi' = rest
    \<and> os_text (m_out fi') = os_text (m_out fi) @ show_arg cv v"
proof -
  have "cv \<noteq> CHR ''%''" using assms(3) by (rule plain_char(5))
  then have "printFormatStringLiteral (m_fmt fi) = ([], CHR ''%'' # cv # rest)"
    using assms(2) by simp
  moreover obtain os' where
    "streamStateFromFormat (m_out fi) (CHR ''%'' # cv # rest) 0 0 = Inr (os', Flag_None, cv, rest)"
    and os: "os_text os' = os_text (m_out fi)" "plain_state os'"
    using stream_state_plain [OF assms(3)] by blast
  moreover obtain os'' where "formatValue os' cv v = Inr os''"
    and "os_text os'' = os_text os' @ show_arg cv v"
    using formatValue_plain [OF os(2) assms(3)] by blast
  ultimately show ?thesis
    using assms(1) os(1)
    by (simp add: accept_def accept_parse_def accept_emit_def idle_def Flag_None_def format_into_def)
qed

lemma format_args_pieces:
  assumes "idle fi" and "\<forall>p \<in> set ps. piece_ok p" and "m_fmt fi = concat (map piece_fmt ps) @ r"
  shows "\<exists>fi'. format_args (concat (map piece_args ps) @ vs) fi = format_args vs fi'
    \<and> idle fi' \<and> m_fmt fi' = r
    \<and> os_text (m_out fi') = os_text (m_out fi) @ concat (map piece_text ps)"
  using assms
proof (induction ps arbitrary: fi)
  case Nil
  then show ?case by auto
next
  case (Cons p ps)
  show ?case
  proof (cases p)
    case (Lit s)
    let ?fi = "add_text s fi\<lparr>m_fmt := concat (map piece_fmt ps) @ r\<rparr>"
    have "format_args (concat (map piece_args ps) @ vs) fi
        = format_args (concat (map piece_args ps) @ vs) ?fi"
      using Cons.prems Lit by (intro format_args_literal) simp_all
    moreover have "idle ?fi" "os_text (m_out ?fi) = os_text (m_out fi) @ s"
      using Cons.prems(1) by (simp_all add: idle_def add_text_def)
    ultimately show ?thesis
      using Cons.IH [of ?fi] Cons.prems(2) Lit by simp
  next
    case (Conv cv a)
    then obtain fi1 where "accept a fi = Inr fi1" and 1: "idle fi1"
      "m_fmt fi1 = concat (map piece_fmt ps) @ r"
      "os_text (m_out fi1) = os_text (m_out fi) @ show_arg cv a"
      using accept_plain [of fi cv "concat (map piece_fmt ps) @ r" a] Cons.prems by auto
    then show ?thesis using Cons.IH [of fi1] Cons.prems(2) Conv by simp
  qed
qed

lemma piece_fmt_no_nul: "piece_ok p \<Longrightarrow> CHR 0x00 \<notin> set (piece_fmt p)"
  by (cases p) (auto simp: plain_convs_def escape_percent_def)

lemma strprintf_start:
  assumes "\<forall>p \<in> set ps. piece_ok p" and "CHR 0x00 \<notin> set r"
  shows "\<exists>fi'. strprintf (concat (map piece_fmt ps) @ r) (concat (map piece_args ps) @ vs) =
      bindR (format_args vs fi') (\<lambda>fi. Inr (os_text (m_out fi)))
    \<and> idle fi' \<and> m_fmt fi' = r \<and> os_text (m_out fi') = concat (map piece_text ps)"
proof -
  let ?fmt = "concat (map piece_fmt ps) @ r" and ?fi = "FormatIterator fresh_stream"
  have "CHR 0x00 \<notin> set ?fmt" using assms piece_fmt_no_nul by fastforce
  then have "m_fmt (?fi ?fmt) = ?fmt" by (simp add: FormatIterator_def c_str_no_nul)
  moreover have "idle (?fi ?fmt)" "os_text (m_out (?fi ?fmt)) = []"
    by (simp_all add: idle_def FormatIterator_def fresh_stream_def)
  ultimately show ?thesis
    using format_args_pieces [OF _ assms(1), of "?fi ?fmt" r vs] by (auto simp: strprintf_def)
qed

lemma strprintf_pieces:
  assumes "\<forall>p \<in> set ps. piece_ok p"
  shows "strprintf (concat (map piece_fmt ps)) (concat (map piece_args ps)) =
    Inr (concat (map piece_text ps))"
  using strprintf_start [OF assms, of "[]" "[]"] by (auto simp: finish_def)

text \<open>With eight digits after the point a \<open>double\<close> is printed as the JSON generator prints it.\<close>

lemma strprintf_fixed8: "strprintf ''%.8f'' [ArgDouble d] = Inr (fixed8 d)"
proof -
  let ?os = "(reset_stream (os_write [] fresh_stream))\<lparr>os_prec := 8, os_float := FloatFixed\<rparr>"
  have st: "streamStateFromFormat (os_write [] fresh_stream) ''%.8f'' 0 0 = Inr (?os, Flag_None, CHR ''f'', [])"
    by code_simp
  have t: "os_text (os_put_double d ?os) = fixed8 d"
    using fixed_text_8
    by (cases d) (auto simp: os_put_double_def os_pad_def reset_stream_def fresh_stream_def Let_def)
  have f: "c_str ''%.8f'' = ''%.8f''" by code_simp
  then show ?thesis
    using st t
    by (simp add: strprintf_def FormatIterator_def accept_def accept_parse_def accept_emit_def finish_def
        format_into_def Flag_None_def)
qed

lemma strprintf_d:
  "strprintf ''%d'' [ArgInt64 n] = Inr (dec_int (sint n))"
  "strprintf ''%d'' [ArgInt i] = Inr (dec_int (sint i))"
  "strprintf ''%d'' [ArgString s] = Inr s"
  using strprintf_pieces [of "[Conv (CHR ''d'') (ArgInt64 n)]"]
    strprintf_pieces [of "[Conv (CHR ''d'') (ArgInt i)]"]
    strprintf_pieces [of "[Conv (CHR ''d'') (ArgString s)]"]
  by (simp_all add: plain_convs_def)

lemma strprintf_too_few_specs:
  assumes "\<forall>p \<in> set ps. piece_ok p"
  shows "strprintf (concat (map piece_fmt ps)) (concat (map piece_args ps) @ v # vs) =
    Inl (RuntimeError ''tinyformat: Not enough conversion specifiers in format string'')"
  using strprintf_start [OF assms, of "[]" "v # vs"]
  by (auto simp: accept_def accept_parse_def idle_def streamStateFromFormat_def)

lemma strprintf_too_many_specs:
  assumes "\<forall>p \<in> set ps. piece_ok p" and "piece_ok (Conv cv a)"
    and "\<forall>p \<in> set qs. piece_ok p"
  shows "strprintf (concat (map piece_fmt (ps @ Conv cv a # qs))) (concat (map piece_args ps)) =
    Inl (RuntimeError ''tinyformat: Too many conversion specifiers in format string'')"
proof -
  let ?r = "CHR ''%'' # cv # concat (map piece_fmt qs)"
  have "CHR 0x00 \<notin> set ?r" using assms(2,3) piece_fmt_no_nul by (fastforce simp: plain_convs_def)
  moreover have "cv \<noteq> CHR ''%''" using assms(2) by (auto simp: plain_convs_def)
  ultimately show ?thesis
    using strprintf_start [OF assms(1), of ?r "[]"] by (auto simp: finish_def)
qed

text \<open>
  C17: \<open>strprintf\<close> on a format string of literal text and plain conversions, with one argument
  per conversion, returns the literal text with every conversion replaced by its argument, and
  throws nothing.
\<close>

theorem strprintf_meaning:
  assumes "\<forall>p \<in> set ps. piece_ok p"
  shows "strprintf (concat (map piece_fmt ps)) (concat (map piece_args ps)) =
    Inr (concat (map piece_text ps))"
  using assms by (rule strprintf_pieces)

theorem strprintf_meaning_witness:
  "strprintf ''%d %s 100%%'' [ArgInt (- 7), ArgString ''OK''] = Inr ''-7 OK 100%''"
proof -
  let ?ps = "[Conv (CHR ''d'') (ArgInt (- 7)), Lit '' '', Conv (CHR ''s'') (ArgString ''OK''),
    Lit '' 100%'']"
  have "\<forall>p \<in> set ?ps. piece_ok p" by (simp add: plain_convs_def)
  note strprintf_meaning [OF this]
  moreover have "dec_int (sint (- 7 :: int32)) = ''-7''" by code_simp
  ultimately show ?thesis by (simp add: escape_percent_def)
qed

text \<open>
  A wrong number of arguments is reported: a surplus argument throws the error of too few
  conversion specifiers, a missing one the error of too many.
\<close>

theorem strprintf_arity:
  assumes "\<forall>p \<in> set ps. piece_ok p" and "\<forall>p \<in> set qs. piece_ok p" and "piece_ok (Conv cv a)"
  shows "strprintf (concat (map piece_fmt ps)) (concat (map piece_args ps) @ v # vs) =
      Inl (RuntimeError ''tinyformat: Not enough conversion specifiers in format string'') \<and>
    strprintf (concat (map piece_fmt (ps @ Conv cv a # qs))) (concat (map piece_args ps)) =
      Inl (RuntimeError ''tinyformat: Too many conversion specifiers in format string'')"
  using strprintf_too_few_specs [OF assms(1)] strprintf_too_many_specs [OF assms(1,3,2)] by blast

theorem strprintf_arity_witness:
  "strprintf ''%d'' [ArgInt 1, ArgInt 2] =
      Inl (RuntimeError ''tinyformat: Not enough conversion specifiers in format string'') \<and>
    strprintf ''%d,%s'' [ArgInt 1] =
      Inl (RuntimeError ''tinyformat: Too many conversion specifiers in format string'')"
  using strprintf_arity [of "[Conv (CHR ''d'') (ArgInt 1)]" "[]" "CHR ''s''" "ArgInt 1" "ArgInt 2" "[]"]
    strprintf_arity [of "[Conv (CHR ''d'') (ArgInt 1), Lit '','']" "[]" "CHR ''s''" "ArgInt 1" "ArgInt 2" "[]"]
  by (simp add: plain_convs_def escape_percent_def)

end
