(* ===== verification/TinyStream.thy ===== *)
theory TinyStream
  imports TinyFormat
begin

section \<open>Formatting into a stream that is in use (tinyformat.h)\<close>

text \<open>
  \<open>format(out, fmt, ...)\<close> and \<open>printf\<close> of \<open>tinyformat.h\<close> format into a stream of the caller, whatever
  its state. The \<open>FormatIterator\<close> changes the state of the stream as it goes, and its destructor
  restores it, also when an exception leaves \<open>format\<close>.
\<close>

text \<open>\<open>~FormatIterator\<close>.\<close>

definition restore :: "format_iterator \<Rightarrow> ostream \<Rightarrow> ostream" where
  "restore fi out =
     (os_set_flags (m_origFlags fi) (out\<lparr>os_width := m_origWidth fi, os_prec := m_origPrecision fi\<rparr>))
       \<lparr>os_fill := m_origFill fi\<rparr>"

text \<open>
  The stream when \<open>accept\<close> or \<open>finish\<close> throws: the literal text before the specification at fault has
  been written. The state of the stream does not matter, for it is restored.
\<close>

definition thrown_out :: "format_iterator \<Rightarrow> ostream" where
  "thrown_out fi =
     (if m_extraFlags fi = Flag_None \<and> \<not> m_wantWidth fi \<and> \<not> m_wantPrecision fi
      then os_write (fst (printFormatStringLiteral (m_fmt fi))) (m_out fi) else m_out fi)"

fun format_all :: "arg list \<Rightarrow> format_iterator \<Rightarrow> unit res \<times> ostream" where
  "format_all [] fi =
     (case finish fi of
        Inl e \<Rightarrow> (Inl e, os_write (fst (printFormatStringLiteral (m_fmt fi))) (m_out fi))
      | Inr fi \<Rightarrow> (Inr (), m_out fi))"
| "format_all (v # vs) fi =
     (case accept v fi of
        Inl e \<Rightarrow> (Inl e, thrown_out fi)
      | Inr fi \<Rightarrow> format_all vs fi)"

definition format_os :: "ostream \<Rightarrow> string \<Rightarrow> arg list \<Rightarrow> unit res \<times> ostream" where
  "format_os out fmt vs =
     (let fi = FormatIterator out fmt in case format_all vs fi of (r, out) \<Rightarrow> (r, restore fi out))"

text \<open>\<open>printf\<close> formats into \<open>cout\<close>.\<close>

definition tfm_printf :: "string \<Rightarrow> arg list \<Rightarrow> ostream \<Rightarrow> unit res \<times> ostream" where
  "tfm_printf fmt vs cout = format_os cout fmt vs"

subsection \<open>The state of the stream does not matter\<close>

text \<open>
  Text is only ever appended, and the state is reset before it is used: streams that differ in
  what was written before, and in their state, get the same text.
\<close>

abbreviation with_text :: "string \<Rightarrow> ostream \<Rightarrow> ostream" where
  "with_text t os \<equiv> os\<lparr>os_text := t\<rparr>"

text \<open>The text can be set last.\<close>

lemma with_text_out:
  "(with_text t os)\<lparr>os_width := x0\<rparr> = with_text t (os\<lparr>os_width := x0\<rparr>)"
  "(with_text t os)\<lparr>os_prec := x1\<rparr> = with_text t (os\<lparr>os_prec := x1\<rparr>)"
  "(with_text t os)\<lparr>os_fill := x2\<rparr> = with_text t (os\<lparr>os_fill := x2\<rparr>)"
  "(with_text t os)\<lparr>os_adjust := x3\<rparr> = with_text t (os\<lparr>os_adjust := x3\<rparr>)"
  "(with_text t os)\<lparr>os_base := x4\<rparr> = with_text t (os\<lparr>os_base := x4\<rparr>)"
  "(with_text t os)\<lparr>os_float := x5\<rparr> = with_text t (os\<lparr>os_float := x5\<rparr>)"
  "(with_text t os)\<lparr>os_showbase := x6\<rparr> = with_text t (os\<lparr>os_showbase := x6\<rparr>)"
  "(with_text t os)\<lparr>os_showpoint := x7\<rparr> = with_text t (os\<lparr>os_showpoint := x7\<rparr>)"
  "(with_text t os)\<lparr>os_showpos := x8\<rparr> = with_text t (os\<lparr>os_showpos := x8\<rparr>)"
  "(with_text t os)\<lparr>os_boolalpha := x9\<rparr> = with_text t (os\<lparr>os_boolalpha := x9\<rparr>)"
  "(with_text t os)\<lparr>os_upper := x10\<rparr> = with_text t (os\<lparr>os_upper := x10\<rparr>)"
  by simp_all

lemma reset_stream_text: "reset_stream os = with_text (os_text os) (reset_stream os')"
  by (simp add: reset_stream_def)

lemma parse_flags_text:
  "parse_flags (with_text t os) ex s = (case parse_flags os ex s of (os, r) \<Rightarrow> (with_text t os, r))"
  by (induction os ex s rule: parse_flags.induct) (auto simp: with_text_out)

lemma parse_width_text:
  "parse_width (with_text t os) ex vw c = map_sum (\<lambda>e. e) (\<lambda>(os, r). (with_text t os, r)) (parse_width os ex vw c)"
  by (auto simp: with_text_out parse_width_def checked_int_def split: list.split prod.split)

lemma parse_precision_text:
  "parse_precision (with_text t os) ex vp c =
     map_sum (\<lambda>e. e) (\<lambda>(os, r). (with_text t os, r)) (parse_precision os ex vp c)"
  by (auto simp: with_text_out parse_precision_def checked_int_def split: list.split prod.split)

lemma conversion_text:
  "conversion b c (with_text t os) ex = map_sum (\<lambda>e. e) (\<lambda>(os, r). (with_text t os, r)) (conversion b c os ex)"
  by (simp add: conversion_def with_text_out)

text \<open>The specification sets the same state on every stream.\<close>

lemma stream_state_text:
  "streamStateFromFormat os fmt vw vp =
     map_sum (\<lambda>e. e) (\<lambda>(os', r). (with_text (os_text os) os', r)) (streamStateFromFormat os0 fmt vw vp)"
proof (cases fmt)
  case (Cons f c0)
  obtain os1 ex1 c1 where 1: "parse_flags (reset_stream os0) Flag_None c0 = (os1, ex1, c1)"
    by (cases "parse_flags (reset_stream os0) Flag_None c0")
  then have 2: "parse_flags (reset_stream os) Flag_None c0 = (with_text (os_text os) os1, ex1, c1)"
    using parse_flags_text [of "os_text os" "reset_stream os0"] reset_stream_text [of os os0] by simp
  note d = streamStateFromFormat_def Cons 1 2 parse_width_text
  show ?thesis
  proof (cases "f = CHR ''%''")
    case True
    show ?thesis
    proof (cases "parse_width os1 ex1 vw c1")
      case (Inr r2)
      obtain os2 ex2 ws c2 where r2: "r2 = (os2, ex2, ws, c2)" by (cases r2)
      show ?thesis
      proof (cases "parse_precision os2 ex2 vp c2")
        case p: (Inr r3)
        obtain os3 ex3 ps c3 where r3: "r3 = (os3, ex3, ps, c3)" by (cases r3)
        show ?thesis
        proof (cases "dropWhile is_length_modifier c3")
          case c: (Cons c rest)
          show ?thesis
            by (cases "conversion ps c os3 ex3")
              (auto simp: d True Inr r2 p r3 c parse_precision_text conversion_text with_text_out int_precision_def)
        next
          case n: Nil
          show ?thesis
            by (simp add: d True Inr r2 p r3 n parse_precision_text del: dropWhile_eq_Nil_conv)
        qed
      qed (simp add: d True Inr r2 parse_precision_text)
    qed (simp add: d True)
  qed (simp add: d)
qed (simp add: streamStateFromFormat_def)

text \<open>Formatted output appends.\<close>

abbreviation after :: "string \<Rightarrow> ostream \<Rightarrow> ostream" where
  "after p os \<equiv> with_text (p @ os_text os) os"

lemma put_after:
  "os_write t (after p os) = after p (os_write t os)"
  "os_put_string s (after p os) = after p (os_put_string s os)"
  "os_pad pre body (after p os) = after p (os_pad pre body os)"
proof -
  show "os_write t (after p os) = after p (os_write t os)" by (simp add: os_write_def)
  show "os_put_string s (after p os) = after p (os_put_string s os)"
    by (simp add: os_put_string_def Let_def with_text_out)
  show "os_pad pre body (after p os) = after p (os_pad pre body os)"
    by (simp add: os_pad_def Let_def with_text_out)
qed

lemma put_int_after: "os_put_int sg i u (after p os) = after p (os_put_int sg i u os)"
proof -
  have "os_base (after p os) = os_base os" "os_showbase (after p os) = os_showbase os"
    "os_upper (after p os) = os_upper os" "os_showpos (after p os) = os_showpos os"
    by simp_all
  then show ?thesis unfolding os_put_int_def by (cases "os_base os") (simp_all only: basefield.case put_after)
qed

lemma put_double_after: "os_put_double d (after p os) = after p (os_put_double d os)"
proof -
  have "os_prec (after p os) = os_prec os" "os_float (after p os) = os_float os"
    "os_upper (after p os) = os_upper os" "os_showpos (after p os) = os_showpos os"
    "os_showpoint (after p os) = os_showpoint os"
    by simp_all
  then show ?thesis unfolding os_put_double_def Let_def by (simp only: put_after)
qed

lemma formatValue_after:
  "formatValue (after p os) cv v = map_sum (\<lambda>e. e) (after p) (formatValue os cv v)"
proof (cases v)
  case (ArgDouble d)
  then show ?thesis by (cases "cast_double 128 d") (simp_all add: format_as_char_def put_after put_double_after)
qed (simp_all add: format_as_char_def put_after put_int_after)

lemma format_into_after:
  "format_into (after p out) ex cv v = map_sum (\<lambda>e. e) (after p) (format_into out ex cv v)"
proof (cases "Flag_SpacePadPositive ex \<or> Flag_TruncateToPrecision ex")
  case True
  have t: "with_text [] (after p out) = with_text [] out" "os_prec (after p out) = os_prec out" by simp_all
  define tmp where "tmp = (if Flag_SpacePadPositive ex then (with_text [] out)\<lparr>os_showpos := True\<rparr> else with_text [] out)"
  define body where "body = (case (if Flag_TruncateToPrecision ex then formatCStringTruncate tmp v (os_prec out) else None) of
      Some tmp' \<Rightarrow> Inr tmp' | None \<Rightarrow> formatValue tmp cv v)"
  have f: "format_into os1 ex cv v = bindR body (\<lambda>tmp'.
      let result = (if Flag_SpacePadPositive ex then minus_plus (os_text tmp') else os_text tmp')
      in if Flag_TruncateToPrecision ex \<and> int (length result) > os_prec out
         then (if os_prec out < 0 then Inl (Undefined ''write of a negative count'')
               else Inr (os_write (take (nat (os_prec out)) result) os1))
         else Inr (os_put_string result os1))"
    if "with_text [] os1 = with_text [] out" "os_prec os1 = os_prec out" for os1
    using True unfolding format_into_def that tmp_def body_def Let_def by simp
  show ?thesis
    unfolding f [OF t] f [OF refl refl] by (cases body) (simp_all add: put_after Let_def)
qed (simp add: format_into_def formatValue_after)

text \<open>
  Iterators that differ in what their stream holds, and in the state to be restored: the stream's
  state is no part of the relation, for every operation that looks at it resets it first.
\<close>

definition like :: "string \<Rightarrow> format_iterator \<Rightarrow> format_iterator \<Rightarrow> bool" where
  "like p fi fi' \<longleftrightarrow> os_text (m_out fi') = p @ os_text (m_out fi) \<and> m_fmt fi' = m_fmt fi
     \<and> m_extraFlags fi' = m_extraFlags fi \<and> m_wantWidth fi' = m_wantWidth fi
     \<and> m_wantPrecision fi' = m_wantPrecision fi \<and> m_variableWidth fi' = m_variableWidth fi
     \<and> m_variablePrecision fi' = m_variablePrecision fi"

lemma stream_state_after:
  assumes "os_text out' = p @ os_text out"
  shows "streamStateFromFormat out' fmt vw vp =
    map_sum (\<lambda>e. e) (\<lambda>(os, r). (after p os, r)) (streamStateFromFormat out fmt vw vp)"
proof -
  note same = stream_state_text [of _ fmt vw vp out]
  show ?thesis
  proof (cases "streamStateFromFormat out fmt vw vp")
    case (Inl e)
    show ?thesis unfolding same [of out'] Inl by simp
  next
    case (Inr r)
    obtain os q where r: "r = (os, q)" by (cases r)
    have "Inr (os, q) = Inr (with_text (os_text out) os, q)"
      using same [of out] unfolding Inr r by simp
    from arg_cong [OF this, of "\<lambda>x. os_text (fst (projr x))"] have t: "os_text os = os_text out"
      by simp
    show ?thesis unfolding same [of out'] Inr r by (simp add: t assms)
  qed
qed

lemma accept_emit_like:
  assumes "like p fi fi'" and "m_out fi' = after p (m_out fi)"
  shows "rel_sum (=) (like p) (accept_emit v fi e) (accept_emit v fi' e)"
  using assms
  by (cases e; cases "format_into (m_out fi) (m_extraFlags fi) (fst (the e)) v")
    (auto simp: accept_emit_def like_def format_into_after)

lemma accept_again_like:
  assumes "like p fi fi'"
  shows "rel_sum (=) (like p)
    (bindR (streamStateFromFormat (m_out fi) (m_fmt fi) vw vp) (\<lambda>(os, ex, cv, e).
       accept_emit v (fi\<lparr>m_out := os, m_extraFlags := ex\<rparr>) (Some (cv, e))))
    (bindR (streamStateFromFormat (m_out fi') (m_fmt fi') vw vp) (\<lambda>(os, ex, cv, e).
       accept_emit v (fi'\<lparr>m_out := os, m_extraFlags := ex\<rparr>) (Some (cv, e))))"
proof -
  have "os_text (m_out fi') = p @ os_text (m_out fi)" "m_fmt fi' = m_fmt fi"
    using assms by (simp_all add: like_def)
  note same = stream_state_after [OF this(1)] this(2)
  have e: "rel_sum (=) (like p)
      (accept_emit v (fi\<lparr>m_out := os, m_extraFlags := ex\<rparr>) q)
      (accept_emit v (fi'\<lparr>m_out := after p os, m_extraFlags := ex\<rparr>) q)" for os ex q
    by (rule accept_emit_like) (use assms in \<open>auto simp: like_def\<close>)
  show ?thesis
    unfolding same by (cases "streamStateFromFormat (m_out fi) (m_fmt fi) vw vp") (use e in auto)
qed

lemma accept_parse_like:
  assumes "like p fi fi'"
  shows "rel_sum (=) (\<lambda>(gi, e) (gi', e'). like p gi gi' \<and> e' = e
      \<and> (e \<noteq> None \<longrightarrow> m_out gi' = after p (m_out gi))) (accept_parse fi) (accept_parse fi')"
proof -
  obtain t r where t: "printFormatStringLiteral (m_fmt fi) = (t, r)"
    by (cases "printFormatStringLiteral (m_fmt fi)")
  have "os_text (os_write t (m_out fi')) = p @ os_text (os_write t (m_out fi))"
    using assms by (simp add: like_def)
  note same = stream_state_after [OF this]
  show ?thesis
    by (cases "streamStateFromFormat (os_write t (m_out fi)) r 0 0")
      (use assms in \<open>auto simp: like_def accept_parse_def t same\<close>)
qed

lemma accept_like:
  assumes "like p fi fi'"
  shows "rel_sum (=) (like p) (accept v fi) (accept v fi')"
proof (cases "accept_parse fi")
  case (Inl e)
  then have "accept_parse fi' = Inl e" using accept_parse_like [OF assms] by (auto elim: rel_sum.cases)
  then show ?thesis using Inl by (simp add: accept_def)
next
  case (Inr r)
  obtain gi q where r: "r = (gi, q)" by (cases r)
  obtain gi' where l: "like p gi gi'" and p': "accept_parse fi' = Inr (gi', q)"
    and o': "q \<noteq> None \<Longrightarrow> m_out gi' = after p (m_out gi)"
    using accept_parse_like [OF assms] unfolding Inr r by (auto elim: rel_sum.cases)
  have f: "m_extraFlags gi' = m_extraFlags gi" "m_wantWidth gi' = m_wantWidth gi"
    "m_wantPrecision gi' = m_wantPrecision gi" "m_variableWidth gi' = m_variableWidth gi"
    "m_variablePrecision gi' = m_variablePrecision gi"
    using l by (simp_all add: like_def)
  have e: "rel_sum (=) (like p) (accept_emit v gi q) (accept_emit v gi' q)"
  proof (cases "q = None")
    case True
    then show ?thesis by (simp add: accept_emit_def)
  next
    case False
    show ?thesis by (rule accept_emit_like [OF l o' [OF False]])
  qed
  show ?thesis
    unfolding accept_def Inr r p' bindR.simps prod.case f
    using e accept_again_like [OF l] l by (cases "convertToInt v") (auto simp: like_def)
qed

lemma format_all_like:
  assumes "like p fi fi'"
  shows "fst (format_all vs fi') = fst (format_all vs fi)
    \<and> os_text (snd (format_all vs fi')) = p @ os_text (snd (format_all vs fi))"
  using assms
proof (induction vs arbitrary: fi fi')
  case Nil
  then show ?case by (auto simp: finish_def like_def split: prod.split)
next
  case (Cons v vs)
  show ?case
    using accept_like [OF Cons.prems, of v]
  proof (cases rule: rel_sum.cases)
    case (1 e e')
    then show ?thesis using Cons.prems by (auto simp: thrown_out_def like_def)
  next
    case (2 gi gi')
    then show ?thesis using Cons.IH [of gi gi'] by simp
  qed
qed

lemma restore_own:
  "restore (FormatIterator out fmt) os = out\<lparr>os_text := os_text os\<rparr>"
  by (cases out; cases os) (simp add: restore_def FormatIterator_def os_flags_def os_set_flags_def)

lemma strprintf_all:
  "strprintf fmt vs = (case format_all vs (FormatIterator fresh_stream fmt) of
     (Inl e, os) \<Rightarrow> Inl e | (Inr _, os) \<Rightarrow> Inr (os_text os))"
proof -
  have "bindR (format_args vs fi) (\<lambda>fi. Inr (os_text (m_out fi)))
      = (case format_all vs fi of (Inl e, os) \<Rightarrow> Inl e | (Inr _, os) \<Rightarrow> Inr (os_text os))" for fi
    by (induction vs arbitrary: fi) (auto split: sum.split)
  then show ?thesis by (simp add: strprintf_def)
qed

text \<open> C18:
  Formatting into a stream of the caller (\<open>tfm::format(out, ...)\<close>) appends exactly what
  \<open>strprintf\<close> of the same format and arguments returns, and leaves width, precision, flags and
  fill of the stream as they were, whatever they were; if it throws, it throws what \<open>strprintf\<close>
  throws, the state of the stream is restored as well, and some text has been appended that depends
  on format and arguments only.
\<close>

theorem format_on_stream:
  "\<exists>t. (\<forall>out. format_os out fmt vs =
          (map_sum (\<lambda>e. e) (\<lambda>_. ()) (strprintf fmt vs), out\<lparr>os_text := os_text out @ t\<rparr>))
       \<and> (case strprintf fmt vs of Inr s \<Rightarrow> t = s | Inl e \<Rightarrow> True)"
proof (intro exI conjI allI)
  fix out
  let ?fresh = "format_all vs (FormatIterator fresh_stream fmt)"
  let ?t = "os_text (snd ?fresh)"
  have "like (os_text out) (FormatIterator fresh_stream fmt) (FormatIterator out fmt)"
    by (simp add: like_def FormatIterator_def fresh_stream_def)
  from format_all_like [OF this, of vs] show "format_os out fmt vs =
      (map_sum (\<lambda>e. e) (\<lambda>_. ()) (strprintf fmt vs), out\<lparr>os_text := os_text out @ ?t\<rparr>)"
    by (auto simp: format_os_def Let_def restore_own strprintf_all split: prod.split sum.split)
  show "case strprintf fmt vs of Inr s \<Rightarrow> ?t = s | Inl e \<Rightarrow> True"
    by (auto simp: strprintf_all split: prod.split sum.split)
qed

end
