(* ===== verification/StdMap.thy ===== *)
theory StdMap
  imports Prelude
begin

section \<open>The ordered map of the standard library\<close>

text \<open>
  The program keeps its configuration (\<open>mapArgs\<close>) and its HTTP headers in
  \<open>std::map<string, string>\<close>. The map is a list of pairs in strictly increasing key order,
  the order in which an iterator visits it. \<open>map_put\<close> is \<open>m[k] = v\<close>, \<open>map_insert\<close> is
  \<open>m.insert(make_pair(k, v))\<close>, which keeps an existing value, \<open>map_count\<close> is \<open>m.count(k)\<close>,
  and \<open>map_index\<close> is a read \<open>m[k]\<close>, which stores a default value under a missing key.
  The interface the clients rely on is the locale \<open>std_map\<close>.
\<close>

type_synonym ('k, 'v) omap = "('k \<times> 'v) list"

fun map_find :: "('k, 'v) omap \<Rightarrow> 'k \<Rightarrow> 'v option" where
  "map_find [] k = None"
| "map_find ((k', v) # m) k = (if k = k' then Some v else map_find m k)"

fun map_put :: "'k::linorder \<Rightarrow> 'v \<Rightarrow> ('k, 'v) omap \<Rightarrow> ('k, 'v) omap" where
  "map_put k v [] = [(k, v)]"
| "map_put k v ((k', v') # m) =
     (if k < k' then (k, v) # (k', v') # m
      else if k = k' then (k, v) # m
      else (k', v') # map_put k v m)"

definition ordered :: "('k::linorder, 'v) omap \<Rightarrow> bool" where
  "ordered m \<longleftrightarrow> sorted_wrt (<) (map fst m)"

definition map_count :: "('k, 'v) omap \<Rightarrow> 'k \<Rightarrow> bool" where
  "map_count m k \<longleftrightarrow> map_find m k \<noteq> None"

definition map_insert :: "'k::linorder \<Rightarrow> 'v \<Rightarrow> ('k, 'v) omap \<Rightarrow> ('k, 'v) omap" where
  "map_insert k v m = (case map_find m k of None \<Rightarrow> map_put k v m | Some _ \<Rightarrow> m)"

definition map_index :: "'v \<Rightarrow> 'k::linorder \<Rightarrow> ('k, 'v) omap \<Rightarrow> 'v \<times> ('k, 'v) omap" where
  "map_index dflt k m =
     (case map_find m k of None \<Rightarrow> (dflt, map_put k dflt m) | Some v \<Rightarrow> (v, m))"

subsection \<open>The interface\<close>

locale std_map =
  fixes find :: "'m \<Rightarrow> 'k \<Rightarrow> 'v option"
    and put :: "'k \<Rightarrow> 'v \<Rightarrow> 'm \<Rightarrow> 'm"
    and empty :: 'm
    and ok :: "'m \<Rightarrow> bool"
  assumes find_empty: "find empty = Map.empty"
    and find_put: "find (put k v m) = (find m)(k \<mapsto> v)"
    and ok_empty: "ok empty"
    and ok_put: "ok m \<Longrightarrow> ok (put k v m)"
begin

lemma find_put_same: "find (put k v m) k = Some v"
  by (simp add: find_put)

lemma find_put_other: "k' \<noteq> k \<Longrightarrow> find (put k v m) k' = find m k'"
  by (simp add: find_put)

lemma dom_put: "dom (find (put k v m)) = insert k (dom (find m))"
  by (simp add: find_put)

text \<open>Storing a list of pairs one after the other: the last one wins.\<close>

lemma find_fold_put:
  "find (fold (\<lambda>(k, v). put k v) kvs m) = find m ++ map_of (rev kvs)"
proof (induction kvs arbitrary: m)
  case Nil
  then show ?case by simp
next
  case (Cons kv kvs)
  obtain k v where kv: "kv = (k, v)" by (cases kv)
  show ?case by (simp add: kv Cons.IH find_put fun_eq_iff map_add_def split: option.split)
qed

lemma ok_fold_put: "ok m \<Longrightarrow> ok (fold (\<lambda>(k, v). put k v) kvs m)"
  by (induction kvs arbitrary: m) (auto intro: ok_put)

end

lemma map_find_put: "map_find (map_put k v m) = (map_find m)(k \<mapsto> v)"
  by (rule ext, induction k v m rule: map_put.induct) auto

lemma fst_map_put: "set (map fst (map_put k v m)) = insert k (set (map fst m))"
  by (induction k v m rule: map_put.induct) auto

lemma ordered_Nil: "ordered []"
  by (simp add: ordered_def)

lemma ordered_Cons:
  "ordered ((k, v) # m) \<longleftrightarrow> (\<forall>k' \<in> set (map fst m). k < k') \<and> ordered m"
  by (simp add: ordered_def)

lemma ordered_put: "ordered m \<Longrightarrow> ordered (map_put k v m)"
proof (induction k v m rule: map_put.induct)
  case (1 k v)
  then show ?case by (simp add: ordered_def)
next
  case (2 k v k' v' m)
  show ?case
  proof (cases "k \<le> k'")
    case True
    with "2.prems" show ?thesis by (auto simp: ordered_Cons)
  next
    case False
    with 2 have "ordered (map_put k v m)" by (auto simp: ordered_Cons)
    moreover have "\<forall>x \<in> set (map fst (map_put k v m)). k' < x"
      using 2 False by (subst fst_map_put) (auto simp: ordered_Cons)
    ultimately show ?thesis using False by (auto simp: ordered_Cons)
  qed
qed

interpretation omap: std_map map_find map_put "[]" ordered
  by unfold_locales (simp_all add: fun_eq_iff map_find_put ordered_put ordered_Nil)

lemmas map_laws = omap.find_put_same omap.find_put_other omap.dom_put map_find_put

subsection \<open>insert and operator[]\<close>

lemma map_find_insert:
  "map_find (map_insert k v m) k' =
     (if k' = k \<and> map_find m k = None then Some v else map_find m k')"
  by (auto simp: map_insert_def map_find_put split: option.split)

lemma map_insert_keeps: "map_find m k = Some w \<Longrightarrow> map_insert k v m = m"
  by (simp add: map_insert_def)

lemma ordered_insert: "ordered m \<Longrightarrow> ordered (map_insert k v m)"
  by (auto simp: map_insert_def ordered_put split: option.split)

lemma map_index_value: "fst (map_index d k m) = (case map_find m k of None \<Rightarrow> d | Some v \<Rightarrow> v)"
  by (auto simp: map_index_def split: option.split)

lemma map_index_find:
  "map_find (snd (map_index d k m)) k' =
     (if k' = k \<and> map_find m k = None then Some d else map_find m k')"
  by (auto simp: map_index_def map_find_put split: option.split)

lemma ordered_index: "ordered m \<Longrightarrow> ordered (snd (map_index d k m))"
  by (auto simp: map_index_def ordered_put split: option.split)


text \<open>Both add a binding below the ones that are there.\<close>

lemma map_find_insert_below: "map_find (map_insert k v m) = [k \<mapsto> v] ++ map_find m"
  by (rule ext) (simp add: map_find_insert map_add_def split: option.split)

lemma map_find_index_below: "map_find (snd (map_index d k m)) = [k \<mapsto> d] ++ map_find m"
  by (rule ext) (simp add: map_index_find map_add_def split: option.split)

end
