(* ===== verification/JsonValue.thy ===== *)
theory JsonValue
  imports StdMap Double
begin

section \<open>JSON values (json/json_spirit_value.h, json/json_spirit_utils.h)\<close>

text \<open>
  \<open>Value_impl\<close> with its type tag, its constructors and its checked accessors, objects as
  vectors of pairs (\<open>Config_vector\<close>), and the helpers \<open>find_value\<close>, \<open>obj_to_map\<close> and
  \<open>map_to_obj\<close>. A variant and its tag always agree in the code (every constructor sets both),
  so the two are one datatype; the flag \<open>is_uint64_\<close> is kept beside the 64-bit integer.
\<close>

subsection \<open>Values\<close>

datatype Value_type = obj_type | array_type | str_type | bool_type | int_type | real_type | null_type

datatype jvalue =
    VObj "(string \<times> jvalue) list"
  | VArr "jvalue list"
  | VStr string
  | VBool bool
  | VInt (v_int: int64) (is_uint64: bool)
  | VReal double
  | VNull

type_synonym jobject = "(string \<times> jvalue) list"

text \<open>The constructors from C++ values.\<close>

definition value_of_cstr :: "string \<Rightarrow> jvalue" where "value_of_cstr s = VStr (c_str s)"
definition value_of_int :: "int32 \<Rightarrow> jvalue" where "value_of_int i = VInt (scast i) False"
definition value_of_int64 :: "int64 \<Rightarrow> jvalue" where "value_of_int64 i = VInt i False"
definition value_of_uint64 :: "uint64 \<Rightarrow> jvalue" where "value_of_uint64 i = VInt i True"

fun type_of :: "jvalue \<Rightarrow> Value_type" where
  "type_of (VObj _) = obj_type"
| "type_of (VArr _) = array_type"
| "type_of (VStr _) = str_type"
| "type_of (VBool _) = bool_type"
| "type_of (VInt _ _) = int_type"
| "type_of (VReal _) = real_type"
| "type_of VNull = null_type"

definition is_null :: "jvalue \<Rightarrow> bool" where
  "is_null v \<longleftrightarrow> type_of v = null_type"

fun Value_type_name :: "Value_type \<Rightarrow> string" where
  "Value_type_name obj_type = ''obj''"
| "Value_type_name array_type = ''array''"
| "Value_type_name str_type = ''str''"
| "Value_type_name bool_type = ''bool''"
| "Value_type_name int_type = ''int''"
| "Value_type_name real_type = ''real''"
| "Value_type_name null_type = ''null''"

text \<open>\<open>operator==\<close>; the identity test in front of it differs only for a NaN inside.\<close>

fun value_eq :: "jvalue \<Rightarrow> jvalue \<Rightarrow> bool"
  and obj_eq :: "jobject \<Rightarrow> jobject \<Rightarrow> bool"
  and arr_eq :: "jvalue list \<Rightarrow> jvalue list \<Rightarrow> bool" where
  "value_eq (VObj a) v = (case v of VObj b \<Rightarrow> obj_eq a b | _ \<Rightarrow> False)"
| "value_eq (VArr a) v = (case v of VArr b \<Rightarrow> arr_eq a b | _ \<Rightarrow> False)"
| "value_eq (VStr a) v = (case v of VStr b \<Rightarrow> a = b | _ \<Rightarrow> False)"
| "value_eq (VBool a) v = (case v of VBool b \<Rightarrow> a = b | _ \<Rightarrow> False)"
| "value_eq (VInt a _) v = (case v of VInt b _ \<Rightarrow> a = b | _ \<Rightarrow> False)"
| "value_eq (VReal a) v = (case v of VReal b \<Rightarrow> double_eq a b | _ \<Rightarrow> False)"
| "value_eq VNull v = (case v of VNull \<Rightarrow> True | _ \<Rightarrow> False)"
| "obj_eq [] b = (b = [])"
| "obj_eq ((n, x) # a) b = (case b of [] \<Rightarrow> False | (m, y) # b' \<Rightarrow> n = m \<and> value_eq x y \<and> obj_eq a b')"
| "arr_eq [] b = (b = [])"
| "arr_eq (x # a) b = (case b of [] \<Rightarrow> False | y # b' \<Rightarrow> value_eq x y \<and> arr_eq a b')"

subsection \<open>Checked accessors\<close>

definition type_error :: "Value_type \<Rightarrow> Value_type \<Rightarrow> exn" where
  "type_error t vtype = RuntimeError
     (''value is type '' @ Value_type_name t @ '', expected '' @ Value_type_name vtype)"

definition check_type :: "Value_type \<Rightarrow> jvalue \<Rightarrow> unit res" where
  "check_type vtype v =
     (if type_of v \<noteq> vtype then Inl (type_error (type_of v) vtype) else Inr ())"

definition variant_get :: "('a \<Rightarrow> 'b option) \<Rightarrow> 'a \<Rightarrow> 'b res" where
  "variant_get sel v = (case sel v of Some x \<Rightarrow> Inr x | None \<Rightarrow> Inl (Undefined ''bad variant get''))"

definition get_str :: "jvalue \<Rightarrow> string res" where
  "get_str v = bindR (check_type str_type v) (\<lambda>_.
     variant_get (\<lambda>v. case v of VStr s \<Rightarrow> Some s | _ \<Rightarrow> None) v)"

definition get_obj :: "jvalue \<Rightarrow> jobject res" where
  "get_obj v = bindR (check_type obj_type v) (\<lambda>_.
     variant_get (\<lambda>v. case v of VObj s \<Rightarrow> Some s | _ \<Rightarrow> None) v)"

definition get_array :: "jvalue \<Rightarrow> jvalue list res" where
  "get_array v = bindR (check_type array_type v) (\<lambda>_.
     variant_get (\<lambda>v. case v of VArr s \<Rightarrow> Some s | _ \<Rightarrow> None) v)"

definition get_bool :: "jvalue \<Rightarrow> bool res" where
  "get_bool v = bindR (check_type bool_type v) (\<lambda>_.
     variant_get (\<lambda>v. case v of VBool s \<Rightarrow> Some s | _ \<Rightarrow> None) v)"

definition get_int64 :: "jvalue \<Rightarrow> int64 res" where
  "get_int64 v = bindR (check_type int_type v) (\<lambda>_.
     variant_get (\<lambda>v. case v of VInt i _ \<Rightarrow> Some i | _ \<Rightarrow> None) v)"

definition get_int :: "jvalue \<Rightarrow> int32 res" where
  "get_int v = bindR (check_type int_type v) (\<lambda>_.
     bindR (get_int64 v) (\<lambda>i. Inr (scast i)))"

definition get_uint64 :: "jvalue \<Rightarrow> uint64 res" where
  "get_uint64 v = bindR (check_type int_type v) (\<lambda>_. get_int64 v)"

definition get_real :: "jvalue \<Rightarrow> double res" where
  "get_real v =
     (if type_of v = int_type
      then if is_uint64 v then bindR (get_uint64 v) (\<lambda>u. Inr (double_of_int (uint u)))
           else bindR (get_int64 v) (\<lambda>i. Inr (double_of_int (sint i)))
      else bindR (check_type real_type v) (\<lambda>_.
             variant_get (\<lambda>v. case v of VReal d \<Rightarrow> Some d | _ \<Rightarrow> None) v))"

subsection \<open>Objects\<close>

definition obj_add :: "jobject \<Rightarrow> string \<Rightarrow> jvalue \<Rightarrow> jobject" where
  "obj_add obj name v = obj @ [(name, v)]"

fun find_value :: "jobject \<Rightarrow> string \<Rightarrow> jvalue" where
  "find_value [] name = VNull"
| "find_value ((n, v) # obj) name = (if n = name then v else find_value obj name)"

definition obj_to_map :: "jobject \<Rightarrow> (string, jvalue) omap" where
  "obj_to_map obj = fold (\<lambda>(k, v). map_put k v) obj []"

definition map_to_obj :: "(string, jvalue) omap \<Rightarrow> jobject" where
  "map_to_obj m = foldl (\<lambda>obj (k, v). obj_add obj k v) [] m"

subsection \<open>Lemmas\<close>

lemmas get_defs = get_str_def get_obj_def get_array_def get_bool_def get_int64_def
  get_int_def get_uint64_def get_real_def check_type_def variant_get_def

lemma get_simps [simp]:
  "get_str (VStr s) = Inr s"
  "get_obj (VObj obj) = Inr obj"
  "get_array (VArr a) = Inr a"
  "get_bool (VBool b) = Inr b"
  "get_int64 (VInt i u) = Inr i"
  "get_uint64 (VInt i u) = Inr i"
  "get_int (VInt i u) = Inr (scast i)"
  "get_real (VReal d) = Inr d"
  by (simp_all add: get_defs)

text \<open>Every accessor returns or throws the error that names the two types; it never reads a
  wrong variant.\<close>

lemma get_errors:
  "type_of v \<noteq> str_type \<Longrightarrow> get_str v = Inl (type_error (type_of v) str_type)"
  "type_of v \<noteq> obj_type \<Longrightarrow> get_obj v = Inl (type_error (type_of v) obj_type)"
  "type_of v \<noteq> array_type \<Longrightarrow> get_array v = Inl (type_error (type_of v) array_type)"
  "type_of v \<noteq> bool_type \<Longrightarrow> get_bool v = Inl (type_error (type_of v) bool_type)"
  "type_of v \<noteq> int_type \<Longrightarrow> get_int64 v = Inl (type_error (type_of v) int_type)"
  "type_of v \<noteq> int_type \<Longrightarrow> get_int v = Inl (type_error (type_of v) int_type)"
  "type_of v \<noteq> int_type \<Longrightarrow> get_uint64 v = Inl (type_error (type_of v) int_type)"
  "type_of v \<noteq> int_type \<Longrightarrow> type_of v \<noteq> real_type \<Longrightarrow>
     get_real v = Inl (type_error (type_of v) real_type)"
  by (simp_all add: get_defs)

lemma get_ok_iff:
  "get_str v = Inr s \<longleftrightarrow> v = VStr s"
  "get_obj v = Inr obj \<longleftrightarrow> v = VObj obj"
  "get_array v = Inr a \<longleftrightarrow> v = VArr a"
  "get_bool v = Inr b \<longleftrightarrow> v = VBool b"
  "get_int64 v = Inr i \<longleftrightarrow> (\<exists>u. v = VInt i u)"
  by (cases v; simp add: get_defs)+

lemma find_value_map_of:
  "find_value obj name = (case map_of obj name of Some v \<Rightarrow> v | None \<Rightarrow> VNull)"
  by (induction obj name rule: find_value.induct) auto

lemma map_find_map_of: "map_find m = map_of m"
proof
  show "map_find m k = map_of m k" for k
    by (induction m k rule: map_find.induct) auto
qed

lemma obj_to_map_find: "map_find (obj_to_map obj) k = map_of (rev obj) k"
  by (simp add: obj_to_map_def omap.find_fold_put omap.find_empty)

lemma obj_to_map_ordered: "ordered (obj_to_map obj)"
  unfolding obj_to_map_def by (rule omap.ok_fold_put) (rule ordered_Nil)

lemma map_to_obj_eq: "map_to_obj m = m"
proof -
  have "foldl (\<lambda>obj (k, v). obj_add obj k v) obj m = obj @ m" for obj
    by (induction m arbitrary: obj) (auto simp: obj_add_def)
  then show ?thesis by (simp add: map_to_obj_def)
qed

lemma ordered_map_put_last:
  "ordered m \<Longrightarrow> (\<forall>k' \<in> set (map fst m). k' < k) \<Longrightarrow> map_put k v m = m @ [(k, v)]"
  by (induction k v m rule: map_put.induct) (auto simp: ordered_Cons dest: less_asym)

lemma ordered_append:
  "ordered (m @ n) \<longleftrightarrow>
     ordered m \<and> ordered n \<and> (\<forall>a \<in> set (map fst m). \<forall>b \<in> set (map fst n). a < b)"
  by (auto simp: ordered_def sorted_wrt_append)

lemma fold_put_ordered: "ordered (m @ n) \<Longrightarrow> fold (\<lambda>(k, v). map_put k v) n m = m @ n"
proof (induction n arbitrary: m)
  case Nil
  then show ?case by simp
next
  case (Cons kv n)
  obtain k v where kv: "kv = (k, v)" by (cases kv)
  have "ordered m" "\<forall>k' \<in> set (map fst m). k' < k"
    using Cons.prems by (auto simp: kv ordered_append)
  then have "map_put k v m = m @ [(k, v)]" by (rule ordered_map_put_last)
  then show ?case using Cons.IH [of "m @ [kv]"] Cons.prems by (simp add: kv)
qed

lemma bit_len_bound: "n < 2 ^ k \<Longrightarrow> bit_len n \<le> k"
proof (induction k arbitrary: n)
  case 0
  then show ?case by (subst bit_len.simps) simp
next
  case (Suc k)
  then have "n div 2 < 2 ^ k" by (simp add: div_less_iff_less_mult)
  from Suc.IH [OF this] show ?case by (subst bit_len.simps) simp
qed

lemma double_of_int_exact:
  assumes "\<bar>i\<bar> < 2 ^ 53"
  shows "double_of_int i = DFin (i < 0) \<bar>i\<bar> 0"
proof -
  have "bit_len \<bar>i\<bar> - 53 = 0" using bit_len_bound [OF assms] by simp
  then show ?thesis by (simp add: double_of_int_def round_half_even_def)
qed

subsection \<open>Properties\<close>

text \<open>
  The vector and the map form of an object: building the map keeps, under each name, the
  last value of that name, in key order; reading by \<open>find_value\<close> gives the first; and the two
  conversions are inverse on maps.
\<close>

theorem object_map_views:
  "ordered (obj_to_map obj) \<and>
   map_find (obj_to_map obj) k = map_of (rev obj) k \<and>
   find_value obj k = (case map_of obj k of Some v \<Rightarrow> v | None \<Rightarrow> VNull) \<and>
   obj_to_map (map_to_obj (obj_to_map obj)) = obj_to_map obj"
proof -
  have "obj_to_map (obj_to_map obj) = obj_to_map obj"
    using fold_put_ordered [of "[]" "obj_to_map obj"] obj_to_map_ordered
    by (simp add: obj_to_map_def)
  then show ?thesis
    by (simp add: obj_to_map_ordered obj_to_map_find find_value_map_of map_to_obj_eq)
qed

text \<open>
  The accessors are exact: each returns the content of its own type of value, throws the
  \<open>runtime_error\<close> naming both types for every other type, and never reads a variant that is
  not there; an integer is also readable as a \<open>double\<close>, exactly below 2^53.
\<close>

theorem accessors_checked:
  "get_str v = (case v of VStr s \<Rightarrow> Inr s | _ \<Rightarrow> Inl (type_error (type_of v) str_type)) \<and>
   get_obj v = (case v of VObj m \<Rightarrow> Inr m | _ \<Rightarrow> Inl (type_error (type_of v) obj_type)) \<and>
   get_array v = (case v of VArr a \<Rightarrow> Inr a | _ \<Rightarrow> Inl (type_error (type_of v) array_type)) \<and>
   get_bool v = (case v of VBool b \<Rightarrow> Inr b | _ \<Rightarrow> Inl (type_error (type_of v) bool_type)) \<and>
   get_int v = (case v of VInt i _ \<Rightarrow> Inr (scast i) | _ \<Rightarrow> Inl (type_error (type_of v) int_type)) \<and>
   get_real v = (case v of VReal d \<Rightarrow> Inr d
     | VInt i u \<Rightarrow> Inr (let n = (if u then uint i else sint i) in
         if \<bar>n\<bar> < 2 ^ 53 then DFin (n < 0) \<bar>n\<bar> 0 else double_of_int n)
     | _ \<Rightarrow> Inl (type_error (type_of v) real_type))"
proof (cases v)
  case (VInt i u)
  have "get_real v = Inr (double_of_int (if u then uint i else sint i))"
    by (simp add: VInt get_real_def)
  then show ?thesis by (simp add: VInt get_errors Let_def double_of_int_exact)
qed (simp_all add: get_errors)

text \<open>Accessors on a value of their type.\<close>

lemma accessors_typed:
  "get_str (VStr s) = Inr s" "get_obj (VObj ob) = Inr ob" "get_array (VArr vs) = Inr vs"
  "get_int64 (VInt i u) = Inr i" "get_uint64 (VInt i u) = Inr i" "get_int (VInt i u) = Inr (scast i)"
  "get_real (VReal d) = Inr d" "get_bool (VBool b) = Inr b"
  by (simp_all add: get_str_def get_obj_def get_array_def get_int64_def get_uint64_def get_int_def
      get_real_def get_bool_def check_type_def variant_get_def)

end
