(* ===== verification/JsonWriter.thy ===== *)
theory JsonWriter
  imports JsonValue
begin

section \<open>Writing JSON (json/json_spirit_writer_template.h)\<close>

text \<open>
  The escaping of strings and the \<open>Generator\<close>, whose state is the output stream, the
  indentation level and the \<open>pretty\<close> flag. The abstract side is \<open>json_text\<close>, the text of a
  value as a function of the value, the flag and the level alone.
\<close>

unbundle bit_operations_syntax

subsection \<open>Strings\<close>

definition to_hex_char :: "int \<Rightarrow> char res" where
  "to_hex_char c =
     (if \<not> c \<le> 15 then Inl (Undefined ''assertion c <= 0xF'')
      else if c < 10 then Inr (char_of (nat (48 + c)))
      else Inr (char_of (nat (65 - 10 + c))))"

definition non_printable_to_string :: "int \<Rightarrow> string res" where
  "non_printable_to_string c =
     bindR (to_hex_char (c AND 15)) (\<lambda>h5. let c = drop_bit 4 c in
     bindR (to_hex_char (c AND 15)) (\<lambda>h4. let c = drop_bit 4 c in
     bindR (to_hex_char (c AND 15)) (\<lambda>h3. let c = drop_bit 4 c in
     bindR (to_hex_char (c AND 15)) (\<lambda>h2.
     Inr [CHR 0x5C, CHR ''u'', h2, h3, h4, h5]))))"

definition add_esc_char :: "char \<Rightarrow> string \<Rightarrow> string \<times> bool" where
  "add_esc_char c s =
     (if c = CHR 0x22 then (s @ [CHR 0x5C, CHR 0x22], True)
      else if c = CHR 0x5C then (s @ [CHR 0x5C, CHR 0x5C], True)
      else if c = CHR 0x08 then (s @ [CHR 0x5C, CHR ''b''], True)
      else if c = CHR 0x0C then (s @ [CHR 0x5C, CHR ''f''], True)
      else if c = CHR 0x0A then (s @ [CHR 0x5C, CHR ''n''], True)
      else if c = CHR 0x0D then (s @ [CHR 0x5C, CHR ''r''], True)
      else if c = CHR 0x09 then (s @ [CHR 0x5C, CHR ''t''], True)
      else (s, False))"

text \<open>\<open>iswprint\<close> in the "C" locale: the printable ASCII characters.\<close>

definition iswprint :: "int \<Rightarrow> bool" where
  "iswprint c \<longleftrightarrow> 32 \<le> c \<and> c \<le> 126"

fun add_esc_loop :: "string \<Rightarrow> string \<Rightarrow> string res" where
  "add_esc_loop [] result = Inr result"
| "add_esc_loop (c # s) result =
     (case add_esc_char c result of (result', done) \<Rightarrow>
        if done then add_esc_loop s result'
        else
          let unsigned_c = int (code_of c) in
          if iswprint unsigned_c then add_esc_loop s (result @ [c])
          else bindR (non_printable_to_string unsigned_c) (\<lambda>u. add_esc_loop s (result @ u)))"

definition add_esc_chars :: "string \<Rightarrow> string res" where
  "add_esc_chars s = add_esc_loop s []"

subsection \<open>The generator\<close>

record generator =
  g_os :: string
  g_indentation_level :: int
  g_pretty :: bool

definition put :: "string \<Rightarrow> generator \<Rightarrow> generator" where
  "put t g = g\<lparr>g_os := g_os g @ t\<rparr>"

definition g_indent :: "generator \<Rightarrow> generator" where
  "g_indent g =
     (if \<not> g_pretty g then g
      else put (concat (replicate (nat (g_indentation_level g)) ''    '')) g)"

definition g_space :: "generator \<Rightarrow> generator" where
  "g_space g = (if g_pretty g then put '' '' g else g)"

definition g_new_line :: "generator \<Rightarrow> generator" where
  "g_new_line g = (if g_pretty g then put [CHR 0x0A] g else g)"

definition output_int :: "int64 \<Rightarrow> bool \<Rightarrow> generator \<Rightarrow> generator" where
  "output_int i u g = (if u then put (dec_int (uint i)) g else put (dec_int (sint i)) g)"

definition output_string :: "string \<Rightarrow> generator \<Rightarrow> generator res" where
  "output_string s g =
     bindR (add_esc_chars s) (\<lambda>t. Inr (put (CHR 0x22 # t @ [CHR 0x22]) g))"

definition output_bool :: "bool \<Rightarrow> generator \<Rightarrow> generator" where
  "output_bool b g = put (if b then ''true'' else ''false'') g"

definition up_level :: "int \<Rightarrow> generator \<Rightarrow> generator" where
  "up_level d g = g\<lparr>g_indentation_level := g_indentation_level g + d\<rparr>"

text \<open>
  \<open>output\<close> by the type of the value. The loop of \<open>output_array_or_obj\<close> is \<open>output_elements\<close> for
  arrays and \<open>output_members\<close> for objects: the comma follows every element but the last.
\<close>

fun gen_output :: "jvalue \<Rightarrow> generator \<Rightarrow> generator res"
  and output_elements :: "jvalue list \<Rightarrow> generator \<Rightarrow> generator res"
  and output_members :: "jobject \<Rightarrow> generator \<Rightarrow> generator res" where
  "gen_output (VObj obj) g =
     bindR (output_members obj (up_level 1 (g_new_line (put ''{'' g)))) (\<lambda>g.
     Inr (put ''}'' (g_indent (up_level (- 1) g))))"
| "gen_output (VArr arr) g =
     bindR (output_elements arr (up_level 1 (g_new_line (put ''['' g)))) (\<lambda>g.
     Inr (put '']'' (g_indent (up_level (- 1) g))))"
| "gen_output (VStr s) g = output_string s g"
| "gen_output (VBool b) g = Inr (output_bool b g)"
| "gen_output (VInt i u) g = Inr (output_int i u g)"
| "gen_output (VReal d) g = Inr (put (fixed8 d) g)"
| "gen_output VNull g = Inr (put ''null'' g)"
| "output_elements [] g = Inr g"
| "output_elements (v # vs) g =
     bindR (gen_output v (g_indent g)) (\<lambda>g.
     output_elements vs (g_new_line (if vs \<noteq> [] then put '','' g else g)))"
| "output_members [] g = Inr g"
| "output_members ((n, v) # ms) g =
     bindR (output_string n (g_indent g)) (\<lambda>g.
     bindR (gen_output v (g_space (put '':'' (g_space g)))) (\<lambda>g.
     output_members ms (g_new_line (if ms \<noteq> [] then put '','' g else g))))"

text \<open>\<open>write_stream\<close> appends to what the stream holds.\<close>

definition write_stream :: "jvalue \<Rightarrow> string \<Rightarrow> bool \<Rightarrow> string res" where
  "write_stream v os pretty =
     bindR (gen_output v \<lparr>g_os = os, g_indentation_level = 0, g_pretty = pretty\<rparr>) (\<lambda>g. Inr (g_os g))"

definition write_string :: "jvalue \<Rightarrow> bool \<Rightarrow> string res" where
  "write_string v pretty = write_stream v [] pretty"

text \<open>\<open>write\<close> and \<open>write_formatted\<close> of \<open>json_spirit_writer.cpp\<close>.\<close>

definition write_json :: "jvalue \<Rightarrow> string res" where
  "write_json v = write_string v False"

definition write_formatted :: "jvalue \<Rightarrow> string res" where
  "write_formatted v = write_string v True"

subsection \<open>The text of a value\<close>

definition hex_digit :: "nat \<Rightarrow> char" where
  "hex_digit d = (if d < 10 then digit_char d else char_of (55 + d))"

fun esc :: "char \<Rightarrow> string" where
  "esc c =
     (if c = CHR 0x22 then [CHR 0x5C, CHR 0x22]
      else if c = CHR 0x5C then [CHR 0x5C, CHR 0x5C]
      else if c = CHR 0x08 then [CHR 0x5C, CHR ''b'']
      else if c = CHR 0x0C then [CHR 0x5C, CHR ''f'']
      else if c = CHR 0x0A then [CHR 0x5C, CHR ''n'']
      else if c = CHR 0x0D then [CHR 0x5C, CHR ''r'']
      else if c = CHR 0x09 then [CHR 0x5C, CHR ''t'']
      else if iswprint (int (code_of c)) then [c]
      else [CHR 0x5C, CHR ''u'', CHR ''0'', CHR ''0'',
            hex_digit (code_of c div 16), hex_digit (code_of c mod 16)])"

definition escape :: "string \<Rightarrow> string" where
  "escape s = concat (map esc s)"

definition quoted :: "string \<Rightarrow> string" where
  "quoted s = CHR 0x22 # escape s @ [CHR 0x22]"

definition nl :: "bool \<Rightarrow> string" where "nl p = (if p then [CHR 0x0A] else [])"
definition sp :: "bool \<Rightarrow> string" where "sp p = (if p then '' '' else [])"
definition ind :: "bool \<Rightarrow> nat \<Rightarrow> string" where
  "ind p n = (if p then concat (replicate n ''    '') else [])"
definition comma :: "'a list \<Rightarrow> string" where "comma xs = (if xs = [] then [] else '','')"

fun json_text :: "bool \<Rightarrow> nat \<Rightarrow> jvalue \<Rightarrow> string"
  and elements_text :: "bool \<Rightarrow> nat \<Rightarrow> jvalue list \<Rightarrow> string"
  and members_text :: "bool \<Rightarrow> nat \<Rightarrow> jobject \<Rightarrow> string" where
  "json_text p n (VObj obj) = ''{'' @ nl p @ members_text p (Suc n) obj @ ind p n @ ''}''"
| "json_text p n (VArr arr) = ''['' @ nl p @ elements_text p (Suc n) arr @ ind p n @ '']''"
| "json_text p n (VStr s) = quoted s"
| "json_text p n (VBool b) = (if b then ''true'' else ''false'')"
| "json_text p n (VInt i u) = dec_int (if u then uint i else sint i)"
| "json_text p n (VReal d) = fixed8 d"
| "json_text p n VNull = ''null''"
| "elements_text p n [] = []"
| "elements_text p n (v # vs) = ind p n @ json_text p n v @ comma vs @ nl p @ elements_text p n vs"
| "members_text p n [] = []"
| "members_text p n ((k, v) # ms) =
     ind p n @ quoted k @ sp p @ '':'' @ sp p @ json_text p n v @ comma ms @ nl p
       @ members_text p n ms"

subsection \<open>The generator writes the text\<close>

lemma to_hex_char_digit: "d < 16 \<Longrightarrow> to_hex_char (int d) = Inr (hex_digit d)"
  by (auto simp: to_hex_char_def hex_digit_def digit_char_def nat_add_distrib)

lemma and_15: "(x :: int) AND 15 = x mod 16"
proof -
  have "x AND mask 4 = x mod 16"
    by (simp add: take_bit_eq_mod flip: take_bit_eq_mask)
  then show ?thesis by (simp add: mask_eq_exp_minus_1)
qed

lemma non_printable_byte:
  "non_printable_to_string (int (code_of c)) =
     Inr [CHR 0x5C, CHR ''u'', CHR ''0'', CHR ''0'',
          hex_digit (code_of c div 16), hex_digit (code_of c mod 16)]"
proof -
  let ?n = "code_of c"
  have z: "?n div 16 div 16 = 0" "?n div 16 < 16"
    using code_of_less [of c] by (simp_all add: div_less_iff_less_mult flip: div_mult2_eq)
  have d: "to_hex_char (int m mod 16) = Inr (hex_digit (m mod 16))" for m
    using to_hex_char_digit [of "m mod 16"] by (simp add: zmod_int)
  have q: "int m div 16 = int (m div 16)" for m by (simp add: zdiv_int)
  have "hex_digit 0 = CHR ''0''" by code_simp
  then show ?thesis
    using z unfolding non_printable_to_string_def Let_def and_15 drop_bit_eq_div
    using to_hex_char_digit [of 0] to_hex_char_digit [OF z(2)]
    by (simp add: q d)
qed

lemma add_esc_loop_escape: "add_esc_loop s result = Inr (result @ escape s)"
  by (induction s arbitrary: result) (auto simp: add_esc_char_def non_printable_byte escape_def)

lemma add_esc_chars_escape: "add_esc_chars s = Inr (escape s)"
  by (simp add: add_esc_chars_def add_esc_loop_escape)

lemma gen_simps [simp]:
  "g_indentation_level (put t g) = g_indentation_level g"
  "g_pretty (put t g) = g_pretty g"
  "g_pretty (up_level d g) = g_pretty g"
  "g_indentation_level (up_level d g) = g_indentation_level g + d"
  "put b (put a g) = put (a @ b) g"
  "put [] g = g"
  "up_level d (put t g) = put t (up_level d g)"
  "up_level (- d) (up_level d g) = g"
  "g_os (put t g) = g_os g @ t"
  by (simp_all add: put_def up_level_def)

lemma gen_layout:
  "g_new_line g = put (nl (g_pretty g)) g"
  "g_space g = put (sp (g_pretty g)) g"
  "g_indent g = put (ind (g_pretty g) (nat (g_indentation_level g))) g"
  "(if xs \<noteq> [] then put '','' g else g) = put (comma xs) g"
  by (simp_all add: g_new_line_def g_space_def g_indent_def nl_def sp_def ind_def comma_def)

lemma output_string_quoted: "output_string s g = Inr (put (quoted s) g)"
  by (simp add: output_string_def add_esc_chars_escape quoted_def)

lemma output_text_at:
  shows "\<And>g. g_pretty g = p \<Longrightarrow> g_indentation_level g = int n \<Longrightarrow>
      gen_output v g = Inr (put (json_text p n v) g)"
    and "\<And>g. g_pretty g = p \<Longrightarrow> g_indentation_level g = int n \<Longrightarrow>
      output_elements vs g = Inr (put (elements_text p n vs) g)"
    and "\<And>g. g_pretty g = p \<Longrightarrow> g_indentation_level g = int n \<Longrightarrow>
      output_members ms g = Inr (put (members_text p n ms) g)"
  by (induction p n v and p n vs and p n ms
      rule: json_text_elements_text_members_text.induct)
    (simp_all add: gen_layout output_string_quoted output_bool_def output_int_def)

lemma output_text:
  assumes "0 \<le> g_indentation_level g"
  shows "gen_output v g = Inr (put (json_text (g_pretty g) (nat (g_indentation_level g)) v) g)"
  using assms by (intro output_text_at) simp_all

lemma write_string_json_text: "write_string v pretty = Inr (json_text pretty 0 v)"
  by (simp add: write_string_def write_stream_def output_text)

lemma write_stream_json_text: "write_stream v os pretty = Inr (os @ json_text pretty 0 v)"
  by (simp add: write_stream_def output_text)

subsection \<open>Properties\<close>

text \<open>
  The generator writes the text of the value, compact or pretty, and never fails: no
  assertion on a hexadecimal digit is violated, and the indentation level is restored after
  every compound.
\<close>

theorem write_string_text:
  "write_string v pretty = Inr (json_text pretty 0 v) \<and>
   (0 \<le> g_indentation_level g \<longrightarrow> (\<exists>g'. gen_output v g = Inr g' \<and>
      g_indentation_level g' = g_indentation_level g \<and> g_pretty g' = g_pretty g))"
  using write_string_json_text [of v pretty] output_text [of g v] by simp

theorem write_string_text_witness:
  "\<exists>g'. gen_output (VArr [VNull]) \<lparr>g_os = [], g_indentation_level = 2, g_pretty = True\<rparr> = Inr g' \<and>
     g_indentation_level g' = 2 \<and> g_pretty g'"
  using write_string_text [of "VArr [VNull]" True
      "\<lparr>g_os = [], g_indentation_level = 2, g_pretty = True\<rparr>"] by simp

end
