(* ===== verification/JsonReader.thy ===== *)
theory JsonReader
  imports JsonWriter
begin

section \<open>Reading JSON: escapes and semantic actions (json/json_spirit_reader_template.h)\<close>

text \<open>
  The substitution of escape sequences, and \<open>Semantic_actions\<close>, the class whose methods the
  grammar calls while it parses. An iterator is the suffix it points to. A pointer to a value
  under construction is its path from the root value.
\<close>

subsection \<open>Escape sequences\<close>

fun is_eq :: "string \<Rightarrow> string \<Rightarrow> bool" where
  "is_eq [] lit = True"
| "is_eq (c # i) [] = False"
| "is_eq (c # i) (d # lit) = (c = d \<and> is_eq i lit)"

definition hex_to_num :: "char \<Rightarrow> int" where
  "hex_to_num c =
     (let n = int (code_of c) in
      if 48 \<le> n \<and> n \<le> 57 then n - 48
      else if 97 \<le> n \<and> n \<le> 102 then n - 97 + 10
      else if 65 \<le> n \<and> n \<le> 70 then n - 65 + 10
      else 0)"

text \<open>
  The two readers advance the iterator to the last digit they read; the \<open>char\<close> they return
  keeps the low byte.
\<close>

definition hex_str_to_char :: "string \<Rightarrow> char \<times> string" where
  "hex_str_to_char i =
     (char_of (nat ((hex_to_num (i ! 1) * 16 + hex_to_num (i ! 2)) mod 256)), drop 2 i)"

definition unicode_str_to_char :: "string \<Rightarrow> char \<times> string" where
  "unicode_str_to_char i =
     (char_of (nat ((hex_to_num (i ! 1) * 4096 + hex_to_num (i ! 2) * 256
         + hex_to_num (i ! 3) * 16 + hex_to_num (i ! 4)) mod 256)), drop 4 i)"

definition append_esc_char_and_incr_iter :: "string \<Rightarrow> string \<Rightarrow> string \<times> string" where
  "append_esc_char_and_incr_iter s i =
     (let c2 = hd i in
      if c2 = CHR ''t'' then (s @ [CHR 0x09], i)
      else if c2 = CHR ''b'' then (s @ [CHR 0x08], i)
      else if c2 = CHR ''f'' then (s @ [CHR 0x0C], i)
      else if c2 = CHR ''n'' then (s @ [CHR 0x0A], i)
      else if c2 = CHR ''r'' then (s @ [CHR 0x0D], i)
      else if c2 = CHR 0x5C then (s @ [CHR 0x5C], i)
      else if c2 = CHR ''/'' then (s @ ''/'', i)
      else if c2 = CHR 0x22 then (s @ [CHR 0x22], i)
      else if c2 = CHR ''x'' then
        (if length i \<ge> 3 then (case hex_str_to_char i of (c, i') \<Rightarrow> (s @ [c], i')) else (s, i))
      else if c2 = CHR ''u'' then
        (if length i \<ge> 5 then (case unicode_str_to_char i of (c, i') \<Rightarrow> (s @ [c], i')) else (s, i))
      else (s, i))"

lemma append_esc_shrinks:
  "length (snd (append_esc_char_and_incr_iter s i)) \<le> length i"
  by (simp add: append_esc_char_and_incr_iter_def hex_str_to_char_def unicode_str_to_char_def Let_def)

lemma append_esc_advances:
  assumes "(a, b) = append_esc_char_and_incr_iter s (tl i)" and "\<not> length i < 2"
  shows "length (tl b) < length i"
proof -
  have "length b \<le> length (tl i)"
    using append_esc_shrinks [of s "tl i"] assms(1) by (metis snd_conv)
  then show ?thesis using assms(2) by simp
qed

text \<open>
  The loop of \<open>substitute_esc_chars\<close>: \<open>seg\<close> is the text from \<open>substr_start\<close> to \<open>i\<close>, and the
  list argument the text from \<open>i\<close> to \<open>end\<close>, so \<open>i < end_minus_1\<close> says it has two characters.
\<close>

function subst_loop :: "string \<Rightarrow> string \<Rightarrow> string \<Rightarrow> string" where
  "subst_loop result seg i =
     (if length i < 2 then result @ seg @ i
      else if hd i = CHR 0x5C then
        (case append_esc_char_and_incr_iter (result @ seg) (tl i) of (result', i') \<Rightarrow>
           subst_loop result' [] (tl i'))
      else subst_loop result (seg @ [hd i]) (tl i))"
  by pat_completeness auto
termination
  by (relation "measure (\<lambda>(_, _, i). length i)") (auto dest: append_esc_advances)

declare subst_loop.simps [simp del]

definition substitute_esc_chars :: "string \<Rightarrow> string" where
  "substitute_esc_chars s = (if length s < 2 then s else subst_loop [] [] s)"

definition read_str :: "string \<Rightarrow> string res" where
  "read_str s =
     (if length s < 2 then Inl (Undefined ''assertion end - begin >= 2'')
      else Inr (substitute_esc_chars (butlast (tl s))))"

subsection \<open>Reading back an escaped string\<close>

lemma hex_to_num_digit: "d < 16 \<Longrightarrow> hex_to_num (hex_digit d) = int d"
  by (auto simp: hex_to_num_def hex_digit_def char_simps)

lemma unicode_esc:
  "unicode_str_to_char (CHR ''u'' # CHR ''0'' # CHR ''0''
      # hex_digit (code_of c div 16) # hex_digit (code_of c mod 16) # s)
    = (c, hex_digit (code_of c mod 16) # s)"
proof -
  have "code_of c div 16 < 16" using code_of_less [of c] by linarith
  moreover have "hex_to_num (CHR ''0'') = 0" by code_simp
  moreover have "nat ((int (code_of c div 16) * 16 + int (code_of c mod 16)) mod 256) = code_of c"
  proof -
    have "int (code_of c div 16) * 16 + int (code_of c mod 16) = int (code_of c)"
      by (metis div_mult_mod_eq of_nat_add of_nat_mult of_nat_numeral)
    then show ?thesis using code_of_less [of c] by simp
  qed
  ultimately show ?thesis by (simp add: unicode_str_to_char_def hex_to_num_digit)
qed

lemma subst_loop_plain:
  "c \<noteq> CHR 0x5C \<Longrightarrow> s \<noteq> [] \<Longrightarrow> subst_loop result seg (c # s) = subst_loop result (seg @ [c]) s"
  by (subst subst_loop.simps) (simp add: Suc_le_eq not_less)

lemma subst_loop_seg:
  "subst_loop result (seg @ seg') i = subst_loop (result @ seg) seg' i"
proof (induction result seg' i arbitrary: rule: subst_loop.induct)
  case (1 result seg' i)
  show ?case
    using 1(2) by (subst (1 2) subst_loop.simps) auto
qed

lemma subst_loop_seg0: "subst_loop result seg i = subst_loop (result @ seg) [] i"
  using subst_loop_seg [of result seg "[]" i] by simp

lemma esc_nonempty [simp]: "esc c \<noteq> []"
  by simp

lemma subst_loop_esc:
  assumes "s \<noteq> [] \<or> hd (esc c) = CHR 0x5C"
  shows "subst_loop result [] (esc c @ s) = subst_loop (result @ [c]) [] s"
proof (cases "hd (esc c) = CHR 0x5C")
  case True
  then obtain t where t: "esc c = CHR 0x5C # t" "t \<noteq> []"
    and a: "append_esc_char_and_incr_iter result (t @ s) = (result @ [c], last t # s)"
    by (auto simp: append_esc_char_and_incr_iter_def unicode_esc Let_def split: if_splits)
  have "subst_loop result [] (CHR 0x5C # t @ s) = subst_loop (result @ [c]) [] s"
    by (subst subst_loop.simps) (simp add: a t(2))
  then show ?thesis by (simp only: t(1) append_Cons)
next
  case False
  then have "esc c = [c]" "c \<noteq> CHR 0x5C" by (auto split: if_splits)
  then show ?thesis using False assms by (simp add: subst_loop_plain subst_loop_seg0 [of result "[c]"])
qed


lemma esc_head:
  "esc c = [c] \<and> c \<noteq> CHR 0x5C \<or> hd (esc c) = CHR 0x5C"
  by simp

lemma escape_Nil_iff: "escape s = [] \<longleftrightarrow> s = []"
  by (cases s) (simp_all add: escape_def)

lemma subst_loop_escape: "subst_loop result [] (escape s) = result @ s"
proof (induction s arbitrary: result)
  case Nil
  then show ?case by (subst subst_loop.simps) (simp add: escape_def)
next
  case (Cons c s)
  have e: "escape (c # s) = esc c @ escape s" by (simp add: escape_def)
  show ?case
  proof (cases "s \<noteq> [] \<or> hd (esc c) = CHR 0x5C")
    case True
    then show ?thesis by (simp only: e) (simp add: subst_loop_esc escape_Nil_iff Cons.IH del: esc.simps)
  next
    case False
    then have "escape (c # s) = [c]" using esc_head [of c] by (auto simp: e escape_def)
    then show ?thesis using False by (subst subst_loop.simps) simp
  qed
qed

lemma substitute_escape: "substitute_esc_chars (escape s) = s"
proof (cases "length (escape s) < 2")
  case True
  have "subst_loop [] [] (escape s) = escape s"
    by (subst subst_loop.simps) (simp add: True)
  then show ?thesis using True subst_loop_escape [of "[]" s] by (simp add: substitute_esc_chars_def)
next
  case False
  then show ?thesis using subst_loop_escape [of "[]" s] by (simp add: substitute_esc_chars_def)
qed

lemma read_str_quoted: "read_str (quoted s) = Inr s"
  by (simp add: read_str_def quoted_def substitute_escape)

interpretation json_escape: codec escape substitute_esc_chars "\<lambda>_. True"
  by unfold_locales (rule substitute_escape)

end
