(* ===== verification/JsonActions.thy ===== *)
theory JsonActions
  imports JsonReader
begin

section \<open>Building a value from parse events (Semantic_actions)\<close>

text \<open>
  The class \<open>Semantic_actions\<close> of \<open>json/json_spirit_reader_template.h\<close>: the value under
  construction, the pointer to the compound that is being filled, the stack of its parents and
  the last member name. A pointer is the path from the root; \<open>None\<close> is the null pointer. A
  failed assertion or a \<open>back()\<close> of an empty vector is \<open>Undefined\<close>.
\<close>

subsection \<open>Paths into a value\<close>

fun get_at :: "nat list \<Rightarrow> jvalue \<Rightarrow> jvalue option" where
  "get_at [] v = Some v"
| "get_at (i # p) (VObj ms) = (if i < length ms then get_at p (snd (ms ! i)) else None)"
| "get_at (i # p) (VArr vs) = (if i < length vs then get_at p (vs ! i) else None)"
| "get_at (i # p) v = None"

fun update_at :: "nat list \<Rightarrow> (jvalue \<Rightarrow> jvalue) \<Rightarrow> jvalue \<Rightarrow> jvalue" where
  "update_at [] f v = f v"
| "update_at (i # p) f (VObj ms) =
     VObj (if i < length ms then ms[i := (fst (ms ! i), update_at p f (snd (ms ! i)))] else ms)"
| "update_at (i # p) f (VArr vs) =
     VArr (if i < length vs then vs[i := update_at p f (vs ! i)] else vs)"
| "update_at (i # p) f v = v"

subsection \<open>The class\<close>

text \<open>
  The class is a template over the configuration, which says how objects are kept, and over the
  iterator. Both are members of the state here. A plain iterator is its rest of the text; a position
  iterator also knows the line and the column of each point of the text.
\<close>

datatype config = Config_vector | Config_map

datatype iter_type = Plain_iter | Position_iter "string \<Rightarrow> 32 word \<times> 32 word"

text \<open>
  \<open>Config_type::add\<close>: the object with the member added, and where it is. A vector gets a new last
  member; a map has one member of each name, in the order of the names.
\<close>

primrec config_add :: "config \<Rightarrow> jobject \<Rightarrow> string \<Rightarrow> jvalue \<Rightarrow> jobject \<times> nat" where
  "config_add Config_vector obj name value = (obj_add obj name value, length obj)"
| "config_add Config_map obj name value =
     (map_put name value obj, length (takeWhile (\<lambda>(k, _). k < name) obj))"

record sem_state =
  sa_value :: jvalue
  sa_current_p :: "nat list option"
  sa_stack :: "nat list list"
  sa_name :: string
  sa_config :: config
  sa_iter :: iter_type

definition Semantic_actions :: "config \<Rightarrow> iter_type \<Rightarrow> jvalue \<Rightarrow> sem_state" where
  "Semantic_actions cfg it v =
     \<lparr>sa_value = v, sa_current_p = None, sa_stack = [], sa_name = [], sa_config = cfg, sa_iter = it\<rparr>"

definition add_first :: "jvalue \<Rightarrow> sem_state \<Rightarrow> (nat list \<times> sem_state) res" where
  "add_first v st =
     (if sa_current_p st \<noteq> None then Inl (Undefined ''assertion current_p_ == 0'')
      else Inr ([], st\<lparr>sa_value := v, sa_current_p := Some []\<rparr>))"

text \<open>\<open>add_to_current\<close> returns the pointer to the value it added.\<close>

definition add_to_current :: "jvalue \<Rightarrow> sem_state \<Rightarrow> (nat list \<times> sem_state) res" where
  "add_to_current v st =
     (case sa_current_p st of
        None \<Rightarrow> add_first v st
      | Some p \<Rightarrow>
          (case get_at p (sa_value st) of
             Some (VArr vs) \<Rightarrow>
               Inr (p @ [length vs],
                    st\<lparr>sa_value := update_at p (\<lambda>_. VArr (vs @ [v])) (sa_value st)\<rparr>)
           | Some (VObj ms) \<Rightarrow>
               (case config_add (sa_config st) ms (sa_name st) v of (ms', i) \<Rightarrow>
                  Inr (p @ [i], st\<lparr>sa_value := update_at p (\<lambda>_. VObj ms') (sa_value st)\<rparr>))
           | _ \<Rightarrow> Inl (Undefined ''assertion current_p_->type() == obj_type'')))"

definition begin_compound :: "jvalue \<Rightarrow> sem_state \<Rightarrow> sem_state res" where
  "begin_compound v st =
     (case sa_current_p st of
        None \<Rightarrow> bindR (add_first v st) (\<lambda>(_, st). Inr st)
      | Some p \<Rightarrow>
          bindR (add_to_current v (st\<lparr>sa_stack := sa_stack st @ [p]\<rparr>)) (\<lambda>(q, st).
            Inr (st\<lparr>sa_current_p := Some q\<rparr>)))"

definition end_compound :: "sem_state \<Rightarrow> sem_state res" where
  "end_compound st =
     (if sa_current_p st \<noteq> Some [] then
        (if sa_stack st = [] then Inl (Undefined ''back of an empty stack_'')
         else Inr (st\<lparr>sa_current_p := Some (last (sa_stack st)), sa_stack := butlast (sa_stack st)\<rparr>))
      else Inr st)"

definition assert_res :: "bool \<Rightarrow> string \<Rightarrow> unit res" where
  "assert_res b msg = (if b then Inr () else Inl (Undefined msg))"

definition add_value :: "jvalue \<Rightarrow> sem_state \<Rightarrow> sem_state res" where
  "add_value v st = bindR (add_to_current v st) (\<lambda>(_, st). Inr st)"

definition begin_obj :: "char \<Rightarrow> sem_state \<Rightarrow> sem_state res" where
  "begin_obj c st = bindR (assert_res (c = CHR ''{'') ''assertion c == {'') (\<lambda>_.
     begin_compound (VObj []) st)"

definition end_obj :: "char \<Rightarrow> sem_state \<Rightarrow> sem_state res" where
  "end_obj c st = bindR (assert_res (c = CHR ''}'') ''assertion c == }'') (\<lambda>_. end_compound st)"

definition begin_array :: "char \<Rightarrow> sem_state \<Rightarrow> sem_state res" where
  "begin_array c st = bindR (assert_res (c = CHR ''['') ''assertion c == ['') (\<lambda>_.
     begin_compound (VArr []) st)"

definition end_array :: "char \<Rightarrow> sem_state \<Rightarrow> sem_state res" where
  "end_array c st = bindR (assert_res (c = CHR '']'') ''assertion c == ]'') (\<lambda>_. end_compound st)"

definition new_name :: "string \<Rightarrow> sem_state \<Rightarrow> sem_state res" where
  "new_name s st =
     (case sa_current_p st of
        None \<Rightarrow> Inl (Undefined ''null current_p_'')
      | Some p \<Rightarrow>
          bindR (assert_res (map_option type_of (get_at p (sa_value st)) = Some obj_type)
                   ''assertion current_p_->type() == obj_type'') (\<lambda>_.
          bindR (read_str s) (\<lambda>name. Inr (st\<lparr>sa_name := name\<rparr>))))"

definition new_str :: "string \<Rightarrow> sem_state \<Rightarrow> sem_state res" where
  "new_str s st = bindR (read_str s) (\<lambda>t. add_value (VStr t) st)"

definition new_true :: "string \<Rightarrow> sem_state \<Rightarrow> sem_state res" where
  "new_true s st = bindR (assert_res (is_eq s ''true'') ''assertion is_eq true'') (\<lambda>_.
     add_value (VBool True) st)"

definition new_false :: "string \<Rightarrow> sem_state \<Rightarrow> sem_state res" where
  "new_false s st = bindR (assert_res (is_eq s ''false'') ''assertion is_eq false'') (\<lambda>_.
     add_value (VBool False) st)"

definition new_null :: "string \<Rightarrow> sem_state \<Rightarrow> sem_state res" where
  "new_null s st = bindR (assert_res (is_eq s ''null'') ''assertion is_eq null'') (\<lambda>_.
     add_value VNull st)"

definition new_int :: "int64 \<Rightarrow> sem_state \<Rightarrow> sem_state res" where
  "new_int i st = add_value (value_of_int64 i) st"

definition new_uint64 :: "uint64 \<Rightarrow> sem_state \<Rightarrow> sem_state res" where
  "new_uint64 ui st = add_value (value_of_uint64 ui) st"

definition new_real :: "double \<Rightarrow> sem_state \<Rightarrow> sem_state res" where
  "new_real d st = add_value (VReal d) st"

subsection \<open>Events\<close>

datatype event =
    Begin_obj char | End_obj char | Begin_array char | End_array char
  | New_name string | New_str string | New_true string | New_false string | New_null string
  | New_int int64 | New_uint64 uint64 | New_real double

fun run_event :: "event \<Rightarrow> sem_state \<Rightarrow> sem_state res" where
  "run_event (Begin_obj c) = begin_obj c"
| "run_event (End_obj c) = end_obj c"
| "run_event (Begin_array c) = begin_array c"
| "run_event (End_array c) = end_array c"
| "run_event (New_name s) = new_name s"
| "run_event (New_str s) = new_str s"
| "run_event (New_true s) = new_true s"
| "run_event (New_false s) = new_false s"
| "run_event (New_null s) = new_null s"
| "run_event (New_int i) = new_int i"
| "run_event (New_uint64 u) = new_uint64 u"
| "run_event (New_real d) = new_real d"

text \<open>The events of a value, in the order a parser of its text reports them.\<close>

fun events :: "jvalue \<Rightarrow> event list"
  and element_events :: "jvalue list \<Rightarrow> event list"
  and member_events :: "jobject \<Rightarrow> event list" where
  "events (VObj ms) = Begin_obj (CHR ''{'') # member_events ms @ [End_obj (CHR ''}'')]"
| "events (VArr vs) = Begin_array (CHR ''['') # element_events vs @ [End_array (CHR '']'')]"
| "events (VStr s) = [New_str (quoted s)]"
| "events (VBool b) = [if b then New_true ''true'' else New_false ''false'']"
| "events (VInt i u) = [if u then New_uint64 i else New_int i]"
| "events (VReal d) = [New_real d]"
| "events VNull = [New_null ''null'']"
| "element_events [] = []"
| "element_events (v # vs) = events v @ element_events vs"
| "member_events [] = []"
| "member_events ((n, v) # ms) = New_name (quoted n) # events v @ member_events ms"

subsection \<open>The open compounds as a context\<close>

text \<open>
  While a value is read, the compounds on the way to the current one are a context: each has
  its finished children and an open last one. The path of a context points to its hole.
\<close>

datatype frame = FObj jobject string | FArr "jvalue list"

fun plug :: "frame list \<Rightarrow> jvalue \<Rightarrow> jvalue" where
  "plug [] v = v"
| "plug (FObj ms n # ctx) v = VObj (ms @ [(n, plug ctx v)])"
| "plug (FArr vs # ctx) v = VArr (vs @ [plug ctx v])"

fun frame_index :: "frame \<Rightarrow> nat" where
  "frame_index (FObj ms n) = length ms"
| "frame_index (FArr vs) = length vs"

abbreviation hole :: "frame list \<Rightarrow> nat list" where
  "hole ctx \<equiv> map frame_index ctx"

lemma get_at_hole [simp]: "get_at (hole ctx) (plug ctx v) = Some v"
  by (induction ctx v rule: plug.induct) auto

lemma update_at_hole [simp]: "update_at (hole ctx) f (plug ctx v) = plug ctx (f v)"
  by (induction ctx v rule: plug.induct) auto

lemma plug_append [simp]: "plug (c1 @ c2) v = plug c1 (plug c2 v)"
  by (induction c1 "plug c2 v" rule: plug.induct) auto

text \<open>
  The state whose current compound \<open>w\<close> sits in the hole of \<open>ctx\<close>, when objects are vectors and the
  iterator is plain, as in the program.
\<close>

definition filling :: "frame list \<Rightarrow> jvalue \<Rightarrow> nat list list \<Rightarrow> string \<Rightarrow> sem_state" where
  "filling ctx w stack name =
     \<lparr>sa_value = plug ctx w, sa_current_p = Some (hole ctx), sa_stack = stack, sa_name = name,
      sa_config = Config_vector, sa_iter = Plain_iter\<rparr>"

lemma add_value_arr:
  "add_value v (filling ctx (VArr vs) stk nm) = Inr (filling ctx (VArr (vs @ [v])) stk nm)"
  by (simp add: add_value_def add_to_current_def filling_def)

lemma add_value_obj:
  "add_value v (filling ctx (VObj ms) stk nm) = Inr (filling ctx (VObj (ms @ [(nm, v)])) stk nm)"
  by (simp add: add_value_def add_to_current_def filling_def obj_add_def)

lemma begin_compound_arr:
  "begin_compound e (filling ctx (VArr vs) stk nm) =
     Inr (filling (ctx @ [FArr vs]) e (stk @ [hole ctx]) nm)"
  by (simp add: begin_compound_def add_to_current_def filling_def)

lemma begin_compound_obj:
  "begin_compound e (filling ctx (VObj ms) stk nm) =
     Inr (filling (ctx @ [FObj ms nm]) e (stk @ [hole ctx]) nm)"
  by (simp add: begin_compound_def add_to_current_def filling_def obj_add_def)

lemma end_compound_arr:
  "end_compound (filling (ctx @ [FArr vs]) w (stk @ [hole ctx]) nm) =
     Inr (filling ctx (VArr (vs @ [w])) stk nm)"
  by (simp add: end_compound_def filling_def)

lemma end_compound_obj:
  "end_compound (filling (ctx @ [FObj ms n]) w (stk @ [hole ctx]) nm) =
     Inr (filling ctx (VObj (ms @ [(n, w)])) stk nm)"
  by (simp add: end_compound_def filling_def)

lemma new_name_obj:
  "new_name (quoted n) (filling ctx (VObj ms) stk nm) = Inr (filling ctx (VObj ms) stk n)"
  by (simp add: new_name_def filling_def assert_res_def read_str_quoted)

lemmas action_defs = begin_obj_def end_obj_def begin_array_def end_array_def new_str_def
  new_true_def new_false_def new_null_def new_int_def new_uint64_def new_real_def
  value_of_int64_def value_of_uint64_def

lemmas filling_steps = add_value_arr add_value_obj begin_compound_arr begin_compound_obj
  end_compound_arr end_compound_obj new_name_obj assert_res_def read_str_quoted

text \<open>
  \<open>fills es w w'\<close>: in every context the events turn the current compound \<open>w\<close> into \<open>w'\<close> and
  leave the stack as it was. \<open>adds es v\<close>: they add \<open>v\<close> to an array, and to an object under the
  name read before.
\<close>

definition fills :: "event list \<Rightarrow> jvalue \<Rightarrow> jvalue \<Rightarrow> bool" where
  "fills es w w' \<longleftrightarrow> (\<forall>ctx stk nm. \<exists>nm'.
     foldR run_event es (filling ctx w stk nm) = Inr (filling ctx w' stk nm'))"

definition adds :: "event list \<Rightarrow> jvalue \<Rightarrow> bool" where
  "adds es v \<longleftrightarrow> (\<forall>vs. fills es (VArr vs) (VArr (vs @ [v]))) \<and>
     (\<forall>ms n. fills (New_name (quoted n) # es) (VObj ms) (VObj (ms @ [(n, v)])))"

lemma fills_append: "fills es w w1 \<Longrightarrow> fills es' w1 w2 \<Longrightarrow> fills (es @ es') w w2"
  unfolding fills_def foldR_append by (metis bindR.simps(2))

lemma fills_Nil: "fills [] w w"
  by (auto simp: fills_def)

lemma adds_scalar: "(\<And>st. run_event e st = add_value v st) \<Longrightarrow> adds [e] v"
  by (auto simp: adds_def fills_def filling_steps)

lemma adds_compound:
  assumes "\<And>st. run_event b st = begin_compound w0 st" and "\<And>st. run_event e st = end_compound st"
    and "fills es w0 w"
  shows "adds (b # es @ [e]) w"
proof -
  have "\<exists>nm'. foldR run_event (b # es @ [e]) (filling ctx (VArr vs) stk nm) =
      Inr (filling ctx (VArr (vs @ [w])) stk nm')" for ctx vs stk nm
  proof -
    obtain nm' where "foldR run_event es (filling (ctx @ [FArr vs]) w0 (stk @ [hole ctx]) nm) =
      Inr (filling (ctx @ [FArr vs]) w (stk @ [hole ctx]) nm')"
      using assms(3) unfolding fills_def by blast
    then show ?thesis by (auto simp: foldR_append assms(1,2) filling_steps)
  qed
  moreover have "\<exists>nm'. foldR run_event (New_name (quoted n) # b # es @ [e])
      (filling ctx (VObj ms) stk nm) = Inr (filling ctx (VObj (ms @ [(n, w)])) stk nm')"
    for ctx ms stk n nm
  proof -
    obtain nm' where "foldR run_event es (filling (ctx @ [FObj ms n]) w0 (stk @ [hole ctx]) n) =
      Inr (filling (ctx @ [FObj ms n]) w (stk @ [hole ctx]) nm')"
      using assms(3) unfolding fills_def by blast
    then show ?thesis by (auto simp: foldR_append assms(1,2) filling_steps)
  qed
  ultimately show ?thesis unfolding adds_def fills_def by blast
qed

lemma run_events_add:
  "adds (events v) v"
  "\<forall>ws. fills (element_events vs) (VArr ws) (VArr (ws @ vs))"
  "\<forall>ws. fills (member_events ms) (VObj ws) (VObj (ws @ ms))"
proof (induction v and vs and ms rule: events_element_events_member_events.induct)
  case (1 ms)
  have "fills (member_events ms) (VObj []) (VObj ms)" using spec [OF 1, of "[]"] by simp
  then show ?case
    unfolding events.simps by (rule adds_compound [rotated 2]) (simp_all add: action_defs filling_steps)
next
  case (2 vs)
  have "fills (element_events vs) (VArr []) (VArr vs)" using spec [OF 2, of "[]"] by simp
  then show ?case
    unfolding events.simps by (rule adds_compound [rotated 2]) (simp_all add: action_defs filling_steps)
next
  case (9 v vs)
  then have "fills (events v @ element_events vs) (VArr ws) (VArr ((ws @ [v]) @ vs))" for ws
    unfolding adds_def by (blast intro: fills_append)
  then show ?case by simp
next
  case (11 n v ms)
  then have "fills ((New_name (quoted n) # events v) @ member_events ms)
      (VObj ws) (VObj ((ws @ [(n, v)]) @ ms))" for ws
    unfolding adds_def by (blast intro: fills_append)
  then show ?case by simp
qed (auto intro: adds_scalar simp: fills_Nil action_defs filling_steps)

subsection \<open>A whole value\<close>

lemma begin_root: "begin_compound e (Semantic_actions Config_vector Plain_iter v0) = Inr (filling [] e [] [])"
  by (simp add: begin_compound_def add_first_def Semantic_actions_def filling_def)

lemma end_root: "end_compound (filling [] w [] nm) = Inr (filling [] w [] nm)"
  by (simp add: end_compound_def filling_def)

lemma add_root: "add_value v (Semantic_actions Config_vector Plain_iter v0) = Inr (filling [] v [] [])"
  by (simp add: add_value_def add_to_current_def add_first_def Semantic_actions_def filling_def)

lemma run_events_root:
  "\<exists>nm. foldR run_event (events v) (Semantic_actions Config_vector Plain_iter v0) = Inr (filling [] v [] nm)"
proof (cases v)
  case (VObj ms)
  have "fills (member_events ms) (VObj []) (VObj ms)"
    using spec [OF run_events_add(3), where x = "[]"] by simp
  then obtain nm where
    "foldR run_event (member_events ms) (filling [] (VObj []) [] []) = Inr (filling [] (VObj ms) [] nm)"
    unfolding fills_def by blast
  then show ?thesis by (auto simp: VObj foldR_append action_defs assert_res_def begin_root end_root)
next
  case (VArr vs)
  have "fills (element_events vs) (VArr []) (VArr vs)"
    using spec [OF run_events_add(2), where x = "[]"] by simp
  then obtain nm where
    "foldR run_event (element_events vs) (filling [] (VArr []) [] []) = Inr (filling [] (VArr vs) [] nm)"
    unfolding fills_def by blast
  then show ?thesis by (auto simp: VArr foldR_append action_defs assert_res_def begin_root end_root)
qed (auto simp: action_defs assert_res_def read_str_quoted add_root)

subsection \<open>Properties\<close>

text \<open>
  C34: String escapes: what the writer prints for any string, the reader turns back into that
  string, quotes included; no assertion of the reader fails on it.
\<close>

theorem json_string_roundtrip:
  "bindR (add_esc_chars s) (\<lambda>t. read_str (CHR 0x22 # t @ [CHR 0x22])) = Inr s"
  using read_str_quoted [of s] by (simp add: add_esc_chars_escape quoted_def)

text \<open>
  C31: The semantic actions rebuild a value: the events of any value, run from a fresh
  \<open>Semantic_actions\<close>, satisfy every assertion, leave the value under construction equal to it
  and end with an empty stack and the pointer at the root.
\<close>

theorem actions_build_value:
  "\<exists>nm. foldR run_event (events v) (Semantic_actions Config_vector Plain_iter v0) =
     Inr \<lparr>sa_value = v, sa_current_p = Some [], sa_stack = [], sa_name = nm,
       sa_config = Config_vector, sa_iter = Plain_iter\<rparr>"
  using run_events_root [of v v0] by (simp add: filling_def)

end
