(* ===== verification/JsonGrammar.thy ===== *)
theory JsonGrammar
  imports JsonActions
begin

section \<open>The JSON grammar and read_string (json/json_spirit_reader_template.h)\<close>

text \<open>
  \<open>Json_grammer\<close> is a Boost.Spirit grammar. The grammar itself is the program's: it is the
  function \<open>grammar\<close> from rules to grammar expressions, with the semantic actions attached
  where the code attaches them. What Spirit does with an expression is outside the repository:
  the parsing function \<open>parse\<close> and the primitive parsers for numbers and quoted strings are
  parameters, and the locale \<open>spirit\<close> states the documented meaning of the combinators.
\<close>

subsection \<open>The grammar\<close>

datatype rule = R_json | R_object | R_members | R_pair | R_array | R_elements | R_value
  | R_string | R_number

datatype handler =
    H_begin_obj | H_end_obj | H_begin_array | H_end_array | H_new_name | H_new_str
  | H_new_true | H_new_false | H_new_null | H_new_real | H_new_int | H_new_uint64
  | H_throw string

text \<open>
  \<open>QuotedString\<close> is \<open>lexeme_d[confix_p('"', *lex_escape_ch_p, '"')]\<close>; \<open>Act g h\<close> is \<open>g[h]\<close>.
\<close>

datatype gram =
    Ch char | StrP string | Eps | QuotedString | StrictReal | Int64P | Uint64P
  | Seq gram gram | Alt gram gram | Star gram | Opt gram | Call rule | Act gram handler

fun grammar :: "rule \<Rightarrow> gram" where
  "grammar R_json = Alt (Call R_value) (Act Eps (H_throw ''not a value''))"
| "grammar R_value =
     Alt (Alt (Alt (Alt (Alt (Alt
       (Act (Call R_string) H_new_str)
       (Call R_number))
       (Call R_object))
       (Call R_array))
       (Act (StrP ''true'') H_new_true))
       (Act (StrP ''false'') H_new_false))
       (Act (StrP ''null'') H_new_null)"
| "grammar R_object =
     Seq (Seq (Act (Ch (CHR ''{'')) H_begin_obj)
              (Opt (Call R_members)))
         (Alt (Act (Ch (CHR ''}'')) H_end_obj) (Act Eps (H_throw ''not an object'')))"
| "grammar R_members = Seq (Call R_pair) (Star (Seq (Ch (CHR '','')) (Call R_pair)))"
| "grammar R_pair =
     Seq (Seq (Act (Call R_string) H_new_name)
              (Alt (Ch (CHR '':'')) (Act Eps (H_throw ''no colon in pair''))))
         (Alt (Call R_value) (Act Eps (H_throw ''not a value'')))"
| "grammar R_array =
     Seq (Seq (Act (Ch (CHR ''['')) H_begin_array)
              (Opt (Call R_elements)))
         (Alt (Act (Ch (CHR '']'')) H_end_array) (Act Eps (H_throw ''not an array'')))"
| "grammar R_elements = Seq (Call R_value) (Star (Seq (Ch (CHR '','')) (Call R_value)))"
| "grammar R_string = QuotedString"
| "grammar R_number =
     Alt (Alt (Act StrictReal H_new_real) (Act Int64P H_new_int)) (Act Uint64P H_new_uint64)"

text \<open>
  What an action gets from the parser it is attached to: the character, the number, or the
  range of text, by the iterator at its begin, which is the rest of the text there, and the
  characters up to its end.
\<close>

datatype attr = NoAttr | AChar char | AReal double | AInt int64 | AUint uint64

type_synonym action = "sem_state \<Rightarrow> sem_state res"

definition bad_attr :: action where
  "bad_attr st = Inl (Undefined ''action on a wrong attribute'')"

definition on_char :: "(char \<Rightarrow> action) \<Rightarrow> attr \<Rightarrow> action" where
  "on_char f a = (case a of AChar c \<Rightarrow> f c | _ \<Rightarrow> bad_attr)"

text \<open>\<open>throw_error\<close>, overloaded on the iterator.\<close>

fun throw_error :: "iter_type \<Rightarrow> string \<Rightarrow> string \<Rightarrow> exn" where
  "throw_error Plain_iter i reason = ParseError reason"
| "throw_error (Position_iter position) i reason =
     (case position i of (l, c) \<Rightarrow>
        PositionError \<lparr>ep_line = l, ep_column = c, ep_reason = reason\<rparr>)"

primrec do_action :: "handler \<Rightarrow> attr \<Rightarrow> string \<Rightarrow> string \<Rightarrow> action" where
  "do_action H_begin_obj a s t = on_char begin_obj a"
| "do_action H_end_obj a s t = on_char end_obj a"
| "do_action H_begin_array a s t = on_char begin_array a"
| "do_action H_end_array a s t = on_char end_array a"
| "do_action H_new_name a s t = new_name t"
| "do_action H_new_str a s t = new_str t"
| "do_action H_new_true a s t = new_true t"
| "do_action H_new_false a s t = new_false t"
| "do_action H_new_null a s t = new_null t"
| "do_action H_new_real a s t = (case a of AReal d \<Rightarrow> new_real d | _ \<Rightarrow> bad_attr)"
| "do_action H_new_int a s t = (case a of AInt i \<Rightarrow> new_int i | _ \<Rightarrow> bad_attr)"
| "do_action H_new_uint64 a s t = (case a of AUint u \<Rightarrow> new_uint64 u | _ \<Rightarrow> bad_attr)"
| "do_action (H_throw reason) a s t = (\<lambda>st. Inl (throw_error (sa_iter st) s reason))"

subsection \<open>The parser library\<close>

text \<open>
  A parser hits (with its attribute, the rest of the input and the state the actions have
  left), misses, or an action throws. \<open>None\<close> is a parse that does not return.
\<close>

datatype outcome = Hit attr string sem_state | Miss sem_state | Raise exn sem_state

type_synonym parser = "gram \<Rightarrow> string \<Rightarrow> sem_state \<Rightarrow> outcome option"

abbreviation skip :: "string \<Rightarrow> string" where
  "skip s \<equiv> dropWhile is_space s"

definition consumed :: "string \<Rightarrow> string \<Rightarrow> string" where
  "consumed s s' = take (length s - length s') s"

definition and_then :: "outcome option \<Rightarrow> (attr \<Rightarrow> string \<Rightarrow> sem_state \<Rightarrow> outcome option)
    \<Rightarrow> (sem_state \<Rightarrow> outcome option) \<Rightarrow> outcome option" where
  "and_then m hit miss = Option.bind m (\<lambda>out. case out of
     Hit a s st \<Rightarrow> hit a s st | Miss st \<Rightarrow> miss st | Raise e st \<Rightarrow> Some (Raise e st))"

definition prim_out :: "('a \<Rightarrow> attr) \<Rightarrow> ('a \<times> string) option \<Rightarrow> sem_state \<Rightarrow> outcome option" where
  "prim_out f r st = (case r of Some (x, s) \<Rightarrow> Some (Hit (f x) s st) | None \<Rightarrow> Some (Miss st))"

definition act_out :: "handler \<Rightarrow> string \<Rightarrow> attr \<Rightarrow> string \<Rightarrow> sem_state \<Rightarrow> outcome option" where
  "act_out h s a s' st = (case do_action h a s (consumed s s') st of
     Inl e \<Rightarrow> Some (Raise e st) | Inr st' \<Rightarrow> Some (Hit a s' st'))"

fun expect :: "char \<Rightarrow> string \<Rightarrow> (char \<times> string) option" where
  "expect c [] = None"
| "expect c (d # s) = (if c = d then Some (d, s) else None)"

fun expect_str :: "string \<Rightarrow> string \<Rightarrow> (unit \<times> string) option" where
  "expect_str [] s = Some ((), s)"
| "expect_str (c # t) [] = None"
| "expect_str (c # t) (d # s) = (if c = d then expect_str t s else None)"

locale spirit =
  fixes parse :: parser
    and real_p :: "string \<Rightarrow> (double \<times> string) option"
    and int_p :: "string \<Rightarrow> (int64 \<times> string) option"
    and uint_p :: "string \<Rightarrow> (uint64 \<times> string) option"
    and string_p :: "string \<Rightarrow> (unit \<times> string) option"
  assumes parse_Ch: "parse (Ch c) s st = prim_out AChar (expect c (skip s)) st"
    and parse_StrP: "parse (StrP t) s st = prim_out (\<lambda>_. NoAttr) (expect_str t (skip s)) st"
    and parse_Eps: "parse Eps s st = Some (Hit NoAttr s st)"
    and parse_QuotedString:
      "parse QuotedString s st = prim_out (\<lambda>_. NoAttr) (string_p (skip s)) st"
    and parse_StrictReal: "parse StrictReal s st = prim_out AReal (real_p (skip s)) st"
    and parse_Int64P: "parse Int64P s st = prim_out AInt (int_p (skip s)) st"
    and parse_Uint64P: "parse Uint64P s st = prim_out AUint (uint_p (skip s)) st"
    and parse_Seq: "parse (Seq g g') s st = and_then (parse g s st)
      (\<lambda>_ s1 st1. and_then (parse g' s1 st1) (\<lambda>_ s2 st2. Some (Hit NoAttr s2 st2))
         (\<lambda>st2. Some (Miss st2))) (\<lambda>st1. Some (Miss st1))"
    and parse_Alt: "parse (Alt g g') s st = and_then (parse g s st)
      (\<lambda>a s1 st1. Some (Hit a s1 st1)) (\<lambda>st1. parse g' s st1)"
    and parse_Star: "parse (Star g) s st = and_then (parse g s st)
      (\<lambda>_ s1 st1. parse (Star g) s1 st1) (\<lambda>st1. Some (Hit NoAttr s st1))"
    and parse_Opt: "parse (Opt g) s st = and_then (parse g s st)
      (\<lambda>a s1 st1. Some (Hit NoAttr s1 st1)) (\<lambda>st1. Some (Hit NoAttr s st1))"
    and parse_Call: "parse (Call r) s st = parse (grammar r) s st"
    and parse_Act: "parse (Act g h) s st = and_then (parse g (skip s) st)
      (\<lambda>a s1 st1. act_out h (skip s) a s1 st1) (\<lambda>st1. Some (Miss st1))"

subsection \<open>Reading a string\<close>

text \<open>
  \<open>read_range_or_throw\<close>: where the parser stopped, or the exception; and what the value is then,
  for it is built in place.
\<close>

definition read_range_or_throw ::
    "config \<Rightarrow> iter_type \<Rightarrow> parser \<Rightarrow> string \<Rightarrow> jvalue \<Rightarrow> (string res \<times> jvalue) option" where
  "read_range_or_throw cfg it parse s v =
     map_option (\<lambda>out. case out of
         Hit _ stop st \<Rightarrow> (Inr stop, sa_value st)
       | Miss st \<Rightarrow> (Inl (Undefined ''assertion false''), sa_value st)
       | Raise e st \<Rightarrow> (Inl e, sa_value st))
     (parse (Call R_json) s (Semantic_actions cfg it v))"

fun is_undefined :: "exn \<Rightarrow> bool" where
  "is_undefined (Undefined _) = True"
| "is_undefined _ = False"

text \<open>
  \<open>read_range\<close> catches what is thrown, and moves the begin of the range only if nothing is.
  \<open>read_string\<close> is the instance for the configuration the program uses.
\<close>

definition read_range ::
    "config \<Rightarrow> parser \<Rightarrow> string \<Rightarrow> jvalue \<Rightarrow> (bool \<times> string \<times> jvalue) res option" where
  "read_range cfg parse s v =
     map_option (\<lambda>(r, w). case r of
         Inr stop \<Rightarrow> Inr (True, stop, w)
       | Inl e \<Rightarrow> if is_undefined e then Inl e else Inr (False, s, w))
     (read_range_or_throw cfg Plain_iter parse s v)"

definition read_string_as :: "config \<Rightarrow> parser \<Rightarrow> string \<Rightarrow> jvalue \<Rightarrow> (bool \<times> jvalue) res option" where
  "read_string_as cfg parse s v =
     map_option (\<lambda>r. bindR r (\<lambda>(ok, _, w). Inr (ok, w))) (read_range cfg parse s v)"

definition read_string :: "parser \<Rightarrow> string \<Rightarrow> jvalue \<Rightarrow> (bool \<times> jvalue) res option" where
  "read_string = read_string_as Config_vector"

end
