(* ===== verification/JsonParse.thy ===== *)
theory JsonParse
  imports JsonGrammar
begin

section \<open>Reading what was written\<close>

text \<open>
  The grammar of \<open>json/json_spirit_reader_template.h\<close> accepts every text the generator of
  \<open>json/json_spirit_writer_template.h\<close> writes, compact or pretty, and its actions build the
  value again. The number and string parsers of the library are described by the laws of
  \<open>json_prims\<close>.
\<close>

named_theorems parse_rules "parsing of single tokens"

subsection \<open>What the primitive parsers promise\<close>

definition num_start :: "char \<Rightarrow> bool" where
  "num_start c \<longleftrightarrow> is_digit c \<or> c \<in> set ''+-.''"

definition delim :: "string \<Rightarrow> bool" where
  "delim rest \<longleftrightarrow> rest = [] \<or> hd rest \<in> set '',]} '' \<or> hd rest = CHR 0x0A"

text \<open>A string body: plain characters and backslash escapes, no bare quote.\<close>

fun str_body :: "string \<Rightarrow> bool" where
  "str_body [] = True"
| "str_body [c] = (c \<noteq> CHR 0x5C \<and> c \<noteq> CHR 0x22)"
| "str_body (c # d # s) =
     (if c = CHR 0x5C then d \<in> set ''/bfnrtu'' \<union> {CHR 0x22, CHR 0x5C} \<and> str_body s
      else c \<noteq> CHR 0x22 \<and> str_body (d # s))"

text \<open>The finite values of an IEEE \<open>double\<close>: 53 bits, and at most \<open>DBL_MAX\<close>.\<close>

fun finite_double :: "double \<Rightarrow> bool" where
  "finite_double (DFin s m e) =
     (0 \<le> m \<and> - 1074 \<le> e \<and> (m < 2 ^ 53 \<and> e \<le> 971 \<or> m = 2 ^ 53 \<and> e \<le> 970))"
| "finite_double _ = False"

text \<open>
  The documented behaviour: \<open>int64_p\<close> and \<open>uint64_p\<close> read a decimal number that fits their type
  and miss otherwise; \<open>strict_real_p\<close> needs a point or an exponent; \<open>rd\<close> is the double it reads
  for a printed one; a parser that hits has consumed something and
  leaves the rest of its input.
\<close>

locale json_prims = spirit +
  fixes rd :: "double \<Rightarrow> double"
  assumes real_printed:
      "finite_double d \<Longrightarrow> delim rest \<Longrightarrow> real_p (fixed8 d @ rest) = Some (rd d, rest)"
    and real_integer: "delim rest \<Longrightarrow> real_p (dec_int i @ rest) = None"
    and real_start: "s = [] \<or> \<not> num_start (hd s) \<Longrightarrow> real_p s = None"
    and int_printed: "- (2 ^ 63) \<le> i \<Longrightarrow> i < 2 ^ 63 \<Longrightarrow> delim rest \<Longrightarrow>
      int_p (dec_int i @ rest) = Some (word_of_int i, rest)"
    and int_overflow: "2 ^ 63 \<le> i \<Longrightarrow> delim rest \<Longrightarrow> int_p (dec_int i @ rest) = None"
    and int_start: "s = [] \<or> \<not> num_start (hd s) \<Longrightarrow> int_p s = None"
    and uint_printed: "0 \<le> i \<Longrightarrow> i < 2 ^ 64 \<Longrightarrow> delim rest \<Longrightarrow>
      uint_p (dec_int i @ rest) = Some (word_of_int i, rest)"
    and uint_start: "s = [] \<or> \<not> num_start (hd s) \<Longrightarrow> uint_p s = None"
    and string_quoted:
      "str_body b \<Longrightarrow> string_p (CHR 0x22 # b @ CHR 0x22 # rest) = Some ((), rest)"
    and string_start: "s = [] \<or> hd s \<noteq> CHR 0x22 \<Longrightarrow> string_p s = None"
    and real_consumes: "real_p s = Some (d, s') \<Longrightarrow> \<exists>t. t \<noteq> [] \<and> s = t @ s'"
    and int_consumes: "int_p s = Some (w, s') \<Longrightarrow> \<exists>t. t \<noteq> [] \<and> s = t @ s'"
    and uint_consumes: "uint_p s = Some (w, s') \<Longrightarrow> \<exists>t. t \<noteq> [] \<and> s = t @ s'"
    and string_consumes: "string_p s = Some (u, s') \<Longrightarrow> \<exists>t. 2 \<le> length t \<and> s = t @ s'"
begin

lemma shorter:
  "real_p s = Some (d, s') \<Longrightarrow> length s' < length s"
  "int_p s = Some (w, s') \<Longrightarrow> length s' < length s"
  "uint_p s = Some (w, s') \<Longrightarrow> length s' < length s"
  "string_p s = Some (u, s') \<Longrightarrow> length s' + 2 \<le> length s"
  by (auto dest!: real_consumes int_consumes uint_consumes string_consumes)

end

subsection \<open>The value that is read back\<close>

text \<open>
  The written text does not say which integer type a value had: a \<open>uint64_t\<close> below 2^63 is read
  as an \<open>int64_t\<close>. A double is written with eight decimals, and \<open>rd d\<close> is what \<open>strict_real_p\<close> reads in this
  text (\<open>real_printed\<close>); it differs from \<open>d\<close> where eight decimals lose something.
\<close>

fun reread :: "(double \<Rightarrow> double) \<Rightarrow> jvalue \<Rightarrow> jvalue" where
  "reread rd (VObj ms) = VObj (map (\<lambda>(n, v). (n, reread rd v)) ms)"
| "reread rd (VArr vs) = VArr (map (reread rd) vs)"
| "reread rd (VInt i u) = VInt i (u \<and> sint i < 0)"
| "reread rd (VReal d) = VReal (rd d)"
| "reread rd v = v"

fun writable :: "jvalue \<Rightarrow> bool" where
  "writable (VObj ms) = (\<forall>(n, v) \<in> set ms. writable v)"
| "writable (VArr vs) = (\<forall>v \<in> set vs. writable v)"
| "writable (VReal d) = finite_double d"
| "writable v = True"

text \<open>The doubles of a value, and the values whose unsigned integers need all 64 bits.\<close>

fun doubles :: "jvalue \<Rightarrow> double list" where
  "doubles (VObj ms) = concat (map (\<lambda>(n, v). doubles v) ms)"
| "doubles (VArr vs) = concat (map doubles vs)"
| "doubles (VReal d) = [d]"
| "doubles v = []"

fun typed_ints :: "jvalue \<Rightarrow> bool" where
  "typed_ints (VObj ms) = (\<forall>(n, v) \<in> set ms. typed_ints v)"
| "typed_ints (VArr vs) = (\<forall>v \<in> set vs. typed_ints v)"
| "typed_ints (VInt i u) = (u \<longrightarrow> sint i < 0)"
| "typed_ints v = True"

lemma reread_same: "\<forall>d \<in> set (doubles v). rd d = d \<Longrightarrow> typed_ints v \<Longrightarrow> reread rd v = v"
  by (induction rd v rule: reread.induct) (auto intro!: map_idI)

lemma writable_doubles: "writable v \<Longrightarrow> d \<in> set (doubles v) \<Longrightarrow> finite_double d"
  by (induction v rule: doubles.induct) auto

context json_prims
begin

text \<open>What the library reads for the doubles of a value.\<close>

lemma doubles_read: "writable v \<Longrightarrow> d \<in> set (doubles v) \<Longrightarrow> real_p (fixed8 d) = Some (rd d, [])"
  using real_printed [OF writable_doubles, of v d "[]"] by (simp add: delim_def)

lemma reread_exact:
  assumes "writable v" and "\<forall>d \<in> set (doubles v). real_p (fixed8 d) = Some (d, [])" and "typed_ints v"
  shows "reread rd v = v"
proof -
  have "rd d = d" if "d \<in> set (doubles v)" for d using assms(2) doubles_read [OF assms(1) that] that by simp
  then show ?thesis using assms(3) by (intro reread_same) simp_all
qed

end

fun is_number :: "jvalue \<Rightarrow> bool" where
  "is_number (VInt _ _) = True"
| "is_number (VReal _) = True"
| "is_number _ = False"

subsection \<open>Texts and positions\<close>

definition blank :: "string \<Rightarrow> bool" where
  "blank ws \<longleftrightarrow> (\<forall>c \<in> set ws. is_space c)"

lemma skip_blank: "blank ws \<Longrightarrow> \<not> is_space c \<Longrightarrow> skip (ws @ c # s) = c # s"
  by (induction ws) (auto simp: blank_def)

lemma blank_append [simp]: "blank (a @ b) \<longleftrightarrow> blank a \<and> blank b"
  by (auto simp: blank_def)

lemma blank_layout [simp]: "blank []" "blank (nl p)" "blank (sp p)" "blank (ind p n)"
proof -
  have "is_space (CHR 0x0A)" "is_space (CHR '' '')" by code_simp+
  then show "blank []" "blank (nl p)" "blank (sp p)" "blank (ind p n)"
    by (auto simp: blank_def nl_def sp_def ind_def)
qed

lemma consumed_append [simp]: "consumed (a @ b) b = a"
  by (simp add: consumed_def)

lemma str_body_esc: "str_body s \<Longrightarrow> str_body (esc c @ s)"
proof -
  assume s: "str_body s"
  have plain: "str_body (d # s')" if "d \<noteq> CHR 0x5C" "d \<noteq> CHR 0x22" "str_body s'" for d s'
    using that by (cases s') auto
  have "hex_digit d \<noteq> CHR 0x5C \<and> hex_digit d \<noteq> CHR 0x22" if "d < 16" for d
  proof -
    have "code_of (hex_digit d) = (if d < 10 then 48 + d else 55 + d)"
      using that by (simp add: hex_digit_def char_simps)
    moreover have "code_of (CHR 0x5C) = 92" "code_of (CHR 0x22) = 34" by (simp_all add: code_of_def)
    ultimately show ?thesis using that by (auto split: if_splits)
  qed
  moreover have "code_of c div 16 < 16" using code_of_less [of c] by linarith
  ultimately have h: "hex_digit (code_of c div 16) \<noteq> CHR 0x5C" "hex_digit (code_of c div 16) \<noteq> CHR 0x22"
    "hex_digit (code_of c mod 16) \<noteq> CHR 0x5C" "hex_digit (code_of c mod 16) \<noteq> CHR 0x22"
    by simp_all
  show "str_body (esc c @ s)" using s h by (auto simp: plain)
qed

lemma str_body_escape: "str_body (escape s)"
  by (induction s) (simp_all add: escape_def str_body_esc del: esc.simps)

lemma dec_int_start: "\<exists>c cs. dec_int i = c # cs \<and> num_start c \<and> \<not> is_space c \<and> c \<noteq> CHR 0x22"
proof -
  obtain c cs where c: "dec_int i = c # cs" by (cases "dec_int i") auto
  then have "is_digit c \<or> c = CHR ''-''" using dec_int_chars [of i] by simp
  then show ?thesis using c by (auto simp: num_start_def is_digit_def is_space_def code_of_def)
qed


lemma skip_skip [simp]: "skip (skip s) = skip s"
  by (induction s) auto

lemma skip_Cons_space: "skip s = c # s' \<Longrightarrow> \<not> is_space c"
  by (metis hd_dropWhile list.distinct(1) list.sel(1))

lemma expect_str_append: "expect_str t (t @ rest) = Some ((), rest)"
  by (induction t) auto

lemma is_eq_refl [simp]: "is_eq t t"
  by (induction t) auto

lemma and_then_simps [simp]:
  "and_then (Some (Hit a s st)) f m = f a s st"
  "and_then (Some (Miss st)) f m = m st"
  "and_then (Some (Raise e st)) f m = Some (Raise e st)"
  "and_then None f m = None"
  by (simp_all add: and_then_def)

lemma prim_out_simps [simp]:
  "prim_out f None st = Some (Miss st)"
  "prim_out f (Some (x, s)) st = Some (Hit (f x) s st)"
  by (simp_all add: prim_out_def)

lemma act_out_Inr: "do_action h a s (consumed s s') st = Inr st' \<Longrightarrow>
    act_out h s a s' st = Some (Hit a s' st')"
  by (simp add: act_out_def)

subsection \<open>Tokens\<close>

context json_prims
begin

lemma ch_hit [parse_rules]: "skip s = c # s' \<Longrightarrow> parse (Ch c) s st = Some (Hit (AChar c) s' st)"
  by (simp add: parse_Ch)

lemma ch_miss [parse_rules]: "skip s = d # s' \<Longrightarrow> c \<noteq> d \<Longrightarrow> parse (Ch c) s st = Some (Miss st)"
  by (simp add: parse_Ch)

lemma act_miss [parse_rules]: "parse g (skip s) st = Some (Miss st') \<Longrightarrow>
    parse (Act g h) s st = Some (Miss st')"
  by (simp add: parse_Act)

lemma act_hit: "parse g (skip s) st = Some (Hit a s' st1) \<Longrightarrow>
    do_action h a (skip s) (consumed (skip s) s') st1 = Inr st' \<Longrightarrow>
    parse (Act g h) s st = Some (Hit a s' st')"
  by (simp add: parse_Act act_out_Inr)

lemma miss_string [parse_rules]:
  "skip s = c # s' \<Longrightarrow> c \<noteq> CHR 0x22 \<Longrightarrow> parse (Call R_string) s st = Some (Miss st)"
  by (simp add: parse_Call parse_QuotedString string_start)

lemma hit_string:
  "skip s = quoted k @ rest \<Longrightarrow> parse (Call R_string) s st = Some (Hit NoAttr rest st)"
  using string_quoted [OF str_body_escape, of k rest]
  by (simp add: parse_Call parse_QuotedString quoted_def)

lemma miss_number [parse_rules]:
  "skip s = c # s' \<Longrightarrow> \<not> num_start c \<Longrightarrow> parse (Call R_number) s st = Some (Miss st)"
  using skip_Cons_space [of s c s'] by (simp add: parse_Call parse_Alt parse_Act parse_StrictReal
      parse_Int64P parse_Uint64P real_start int_start uint_start)

lemma miss_object [parse_rules]:
  "skip s = c # s' \<Longrightarrow> c \<noteq> CHR ''{'' \<Longrightarrow> parse (Call R_object) s st = Some (Miss st)"
  using skip_Cons_space [of s c s'] by (simp add: parse_Call parse_Seq parse_Act parse_rules)

lemma miss_array [parse_rules]:
  "skip s = c # s' \<Longrightarrow> c \<noteq> CHR ''['' \<Longrightarrow> parse (Call R_array) s st = Some (Miss st)"
  using skip_Cons_space [of s c s'] by (simp add: parse_Call parse_Seq parse_Act parse_rules)

lemma miss_literal [parse_rules]:
  "skip s = c # s' \<Longrightarrow> d \<noteq> c \<Longrightarrow> parse (Act (StrP (d # t)) h) s st = Some (Miss st)"
  using skip_Cons_space [of s c s'] by (simp add: parse_Act parse_StrP)

lemma hit_literal:
  assumes "skip s = t @ rest" and "do_action h NoAttr (skip s) t st = Inr st'"
  shows "parse (Act (StrP t) h) s st = Some (Hit NoAttr rest st')"
proof (rule act_hit)
  have "skip (t @ rest) = t @ rest" using assms(1) skip_skip by metis
  then show "parse (StrP t) (skip s) st = Some (Hit NoAttr rest st)"
    by (simp add: assms(1) parse_StrP expect_str_append)
  show "do_action h NoAttr (skip s) (consumed (skip s) rest) st = Inr st'" using assms by simp
qed

subsection \<open>The alternatives of a value\<close>

lemma value_alt: "parse (Call R_value) s st =
   and_then (parse (Act (Call R_string) H_new_str) s st) (\<lambda>a s st. Some (Hit a s st)) (\<lambda>st.
   and_then (parse (Call R_number) s st) (\<lambda>a s st. Some (Hit a s st)) (\<lambda>st.
   and_then (parse (Call R_object) s st) (\<lambda>a s st. Some (Hit a s st)) (\<lambda>st.
   and_then (parse (Call R_array) s st) (\<lambda>a s st. Some (Hit a s st)) (\<lambda>st.
   and_then (parse (Act (StrP ''true'') H_new_true) s st) (\<lambda>a s st. Some (Hit a s st)) (\<lambda>st.
   and_then (parse (Act (StrP ''false'') H_new_false) s st) (\<lambda>a s st. Some (Hit a s st)) (\<lambda>st.
   parse (Act (StrP ''null'') H_new_null) s st))))))"
  by (simp add: parse_Call [of R_value] parse_Alt and_then_def split: option.split outcome.split
      bind_split)

end



subsection \<open>Values\<close>

lemma fixed8_start:
  "finite_double d \<Longrightarrow> \<exists>c t. fixed8 d = c # t \<and> num_start c \<and> \<not> is_space c \<and> c \<noteq> CHR 0x22"
proof (cases d)
  case (DFin s m e)
  assume "finite_double d"
  moreover have "0 \<le> round_half_even a b" if "0 \<le> a" "0 < b" for a b
    using that by (simp add: round_half_even_def Let_def pos_imp_zdiv_nonneg_iff)
  moreover define k where "k = (if e \<ge> 0 then m * 2 ^ nat e * 10 ^ 8 else round_half_even (m * 10 ^ 8) (2 ^ nat (- e)))"
  ultimately have "0 \<le> k" by (simp add: DFin)
  then have n: "0 \<le> k div 10 ^ 8" by (simp add: pos_imp_zdiv_nonneg_iff)
  have f: "fixed8 d = (if s then ''-'' else '''') @ dec_digits (k div 10 ^ 8) @ ''.'' @ pad_digits 8 (k mod 10 ^ 8)"
    unfolding DFin fixed8.simps k_def Let_def ..
  obtain c cs where "dec_digits (k div 10 ^ 8) = c # cs" "is_digit c" using dec_digits_Cons [OF n] by blast
  with f show ?thesis by (auto simp: num_start_def is_digit_def is_space_def code_of_def)
qed simp_all

lemma json_text_start:
  assumes "writable v"
  shows "\<exists>c t. json_text p n v = c # t \<and> \<not> is_space c"
proof (cases v)
  case (VInt i u)
  then show ?thesis using dec_int_start [of "if u then uint i else sint i"] by auto
next
  case (VReal d)
  then show ?thesis using fixed8_start [of d] assms by auto
qed (auto simp: quoted_def is_space_def code_of_def)

lemma skip_text: "writable v \<Longrightarrow> blank ws \<Longrightarrow>
    skip (ws @ json_text p n v @ rest) = json_text p n v @ rest"
  using json_text_start [of v p n] by (auto simp: skip_blank)

lemma skip_quoted: "blank ws \<Longrightarrow> skip (ws @ quoted k @ rest) = quoted k @ rest"
  by (simp add: quoted_def skip_blank is_space_def code_of_def)

context json_prims
begin

lemma act_ch_hit:
  assumes "skip s = c # s'" and "do_action h (AChar c) (skip s) (consumed (skip s) s') st = Inr st'"
  shows "parse (Act (Ch c) h) s st = Some (Hit (AChar c) s' st')"
proof (rule act_hit [OF _ assms(2)])
  show "parse (Ch c) (skip s) st = Some (Hit (AChar c) s' st)"
    by (rule ch_hit, subst skip_skip, rule assms(1))
qed

lemma act_string_hit:
  assumes "skip s = quoted k @ rest" and "do_action h NoAttr (skip s) (quoted k) st = Inr st'"
  shows "parse (Act (Call R_string) h) s st = Some (Hit NoAttr rest st')"
proof (rule act_hit)
  show "parse (Call R_string) (skip s) st = Some (Hit NoAttr rest st)"
    by (rule hit_string, subst skip_skip, rule assms(1))
  show "do_action h NoAttr (skip s) (consumed (skip s) rest) st = Inr st'" using assms by simp
qed

lemma value_string:
  assumes "skip s = quoted k @ rest" and "new_str (quoted k) st = Inr st'"
  shows "parse (Call R_value) s st = Some (Hit NoAttr rest st')"
proof -
  have "parse (Act (Call R_string) H_new_str) s st = Some (Hit NoAttr rest st')"
    using assms by (intro act_string_hit) simp_all
  then show ?thesis by (simp add: value_alt)
qed

lemma value_number:
  assumes "skip s = c # t" and "c \<noteq> CHR 0x22" and "parse (Call R_number) s st = Some (Hit a rest st')"
  shows "parse (Call R_value) s st = Some (Hit a rest st')"
  using assms skip_Cons_space [OF assms(1)] by (simp add: value_alt parse_rules)

lemma number_real:
  assumes "skip s = t @ rest" and "real_p (t @ rest) = Some (d, rest)" and "new_real d st = Inr st'"
  shows "parse (Call R_number) s st = Some (Hit (AReal d) rest st')"
  using assms by (simp add: parse_Call parse_Alt parse_Act parse_StrictReal act_out_def
      flip: assms(1))

lemma number_int:
  assumes "skip s = t" and "real_p t = None" and "int_p t = Some (i, rest)" and "new_int i st = Inr st'"
  shows "parse (Call R_number) s st = Some (Hit (AInt i) rest st')"
  using assms by (simp add: parse_Call parse_Alt parse_Act parse_StrictReal parse_Int64P act_out_def
      flip: assms(1))

lemma number_uint:
  assumes "skip s = t" and "real_p t = None" and "int_p t = None" and "uint_p t = Some (i, rest)"
    and "new_uint64 i st = Inr st'"
  shows "parse (Call R_number) s st = Some (Hit (AUint i) rest st')"
  using assms by (simp add: parse_Call parse_Alt parse_Act parse_StrictReal parse_Int64P
      parse_Uint64P act_out_def flip: assms(1))

lemma object_hit:
  assumes "skip s = CHR ''{'' # s1" and "begin_obj (CHR ''{'') st = Inr st1"
    and "parse (Opt (Call R_members)) s1 st1 = Some (Hit a s2 st2)"
    and "skip s2 = CHR ''}'' # rest" and "end_obj (CHR ''}'') st2 = Inr st3"
  shows "parse (Call R_object) s st = Some (Hit NoAttr rest st3)"
proof -
  have "parse (Act (Ch (CHR ''{'')) H_begin_obj) s st = Some (Hit (AChar (CHR ''{'')) s1 st1)"
    using assms(1,2) by (intro act_ch_hit) (simp_all add: on_char_def)
  moreover have "parse (Act (Ch (CHR ''}'')) H_end_obj) s2 st2 = Some (Hit (AChar (CHR ''}'')) rest st3)"
    using assms(4,5) by (intro act_ch_hit) (simp_all add: on_char_def)
  ultimately show ?thesis using assms(3) by (simp add: parse_Call parse_Seq parse_Alt)
qed

lemma array_hit:
  assumes "skip s = CHR ''['' # s1" and "begin_array (CHR ''['') st = Inr st1"
    and "parse (Opt (Call R_elements)) s1 st1 = Some (Hit a s2 st2)"
    and "skip s2 = CHR '']'' # rest" and "end_array (CHR '']'') st2 = Inr st3"
  shows "parse (Call R_array) s st = Some (Hit NoAttr rest st3)"
proof -
  have "parse (Act (Ch (CHR ''['')) H_begin_array) s st = Some (Hit (AChar (CHR ''['')) s1 st1)"
    using assms(1,2) by (intro act_ch_hit) (simp_all add: on_char_def)
  moreover have "parse (Act (Ch (CHR '']'')) H_end_array) s2 st2 = Some (Hit (AChar (CHR '']'')) rest st3)"
    using assms(4,5) by (intro act_ch_hit) (simp_all add: on_char_def)
  ultimately show ?thesis using assms(3) by (simp add: parse_Call parse_Seq parse_Alt)
qed

lemma value_object:
  assumes "skip s = CHR ''{'' # t" and "parse (Call R_object) s st = Some (Hit a rest st')"
  shows "parse (Call R_value) s st = Some (Hit a rest st')"
proof -
  have "\<not> num_start (CHR ''{'')" by code_simp
  then show ?thesis
    using assms skip_Cons_space [OF assms(1)] by (simp add: value_alt parse_rules)
qed

lemma value_array:
  assumes "skip s = CHR ''['' # t" and "parse (Call R_array) s st = Some (Hit a rest st')"
  shows "parse (Call R_value) s st = Some (Hit a rest st')"
proof -
  have "\<not> num_start (CHR ''['')" by code_simp
  then show ?thesis
    using assms skip_Cons_space [OF assms(1)] by (simp add: value_alt parse_rules)
qed

lemma pair_hit:
  assumes "skip s = quoted k @ s1" and "new_name (quoted k) st = Inr st1"
    and "skip s1 = CHR '':'' # s2" and "parse (Call R_value) s2 st1 = Some (Hit a rest st2)"
  shows "parse (Call R_pair) s st = Some (Hit NoAttr rest st2)"
proof -
  have "parse (Act (Call R_string) H_new_name) s st = Some (Hit NoAttr s1 st1)"
    using assms(1,2) by (intro act_string_hit) simp_all
  then show ?thesis using assms(3,4) by (simp add: parse_Call [of R_pair] parse_Seq parse_Alt ch_hit)
qed

lemma comma_hit:
  assumes "parse g s st = Some (Hit a s1 st1)"
  shows "parse (Star (Seq (Ch (CHR '','')) g)) (CHR '','' # s) st =
    parse (Star (Seq (Ch (CHR '','')) g)) s1 st1"
proof -
  have "skip (CHR '','' # s) = CHR '','' # s" by (simp add: is_space_def code_of_def)
  then show ?thesis using assms by (subst parse_Star) (simp add: parse_Seq ch_hit)
qed

lemma comma_miss:
  assumes "skip s = c # t" and "c \<noteq> CHR '',''"
  shows "parse (Star (Seq (Ch (CHR '','')) g)) s st = Some (Hit NoAttr s st)"
  using assms by (subst parse_Star) (simp add: parse_Seq ch_miss)

lemma value_literal:
  assumes "skip s = lit @ rest" and "lit \<in> {''true'', ''false'', ''null''}"
    and "run_event (if lit = ''true'' then New_true lit else if lit = ''false'' then New_false lit
      else New_null lit) st = Inr st'"
  shows "parse (Call R_value) s st = Some (Hit NoAttr rest st')"
proof -
  have n: "\<not> num_start (CHR ''t'')" "\<not> num_start (CHR ''f'')" "\<not> num_start (CHR ''n'')"
    by code_simp+
  consider "lit = ''true''" | "lit = ''false''" | "lit = ''null''" using assms(2) by blast
  then show ?thesis
  proof cases
    case 1
    then show ?thesis using assms n hit_literal [of s "''true''" rest H_new_true]
      skip_Cons_space [of s "CHR ''t''"] by (simp add: value_alt parse_rules)
  next
    case 2
    then show ?thesis using assms n hit_literal [of s "''false''" rest H_new_false]
      skip_Cons_space [of s "CHR ''f''"] by (simp add: value_alt parse_rules)
  next
    case 3
    then show ?thesis using assms n hit_literal [of s "''null''" rest H_new_null]
      skip_Cons_space [of s "CHR ''n''"] by (simp add: value_alt parse_rules)
  qed
qed

end


subsection \<open>The grammar reads the written text\<close>

lemma delim_tail:
  "c \<in> set '',]}'' \<Longrightarrow> delim (comma xs @ nl p @ (if xs = [] then [] else t) @ ind p k @ c # rest)"
  by (cases xs; cases p) (auto simp: delim_def comma_def nl_def ind_def)

lemma members_text_Nil_if: "members_text p n ms = (if ms = [] then [] else members_text p n ms)"
  "elements_text p n vs = (if vs = [] then [] else elements_text p n vs)"
  by simp_all

lemma delim_members:
  "c \<in> set '',]}'' \<Longrightarrow> delim (comma ms @ nl p @ members_text p n ms @ ind p k @ c # rest)"
  "c \<in> set '',]}'' \<Longrightarrow> delim (comma vs @ nl p @ elements_text p n vs @ ind p k @ c # rest)"
  by (subst members_text_Nil_if, rule delim_tail, assumption)+

lemma skip_close:
  "blank ws \<Longrightarrow> c \<in> set '',]}'' \<Longrightarrow> skip (ws @ c # rest) = c # rest"
  by (rule skip_blank) (auto simp: is_space_def code_of_def)

lemma skip_colon: "skip (sp p @ CHR '':'' # rest) = CHR '':'' # rest"
  by (rule skip_blank) (auto simp: is_space_def code_of_def)

context json_prims
begin

lemma value_int_text:
  assumes "skip s = dec_int (if u then uint i else sint i) @ rest" and "delim rest"
    and "foldR run_event (events (reread rd (VInt i u))) st = Inr st'"
  shows "\<exists>a. parse (Call R_value) s st = Some (Hit a rest st')"
proof -
  let ?n = "if u then uint i else sint i"
  have r: "real_p (dec_int ?n @ rest) = None" using assms(2) by (rule real_integer)
  obtain c t where c: "dec_int ?n = c # t" "c \<noteq> CHR 0x22" using dec_int_start [of ?n] by blast
  have "\<exists>a. parse (Call R_number) s st = Some (Hit a rest st')"
  proof (cases "u \<and> sint i < 0")
    case True
    then have "uint i = sint i + 2 ^ 64" by (simp add: uint_sint64)
    then have "2 ^ 63 \<le> uint i" using sint64_bounds [of i] by simp
    then have "int_p (dec_int ?n @ rest) = None" using True assms(2) int_overflow by simp
    moreover have "uint_p (dec_int ?n @ rest) = Some (i, rest)"
      using uint_printed [of "uint i" rest] assms(2) True uint_bounded [of i] by simp
    ultimately show ?thesis using number_uint [OF assms(1) r] assms(3) True by auto
  next
    case False
    then have n: "?n = sint i" by (auto simp: uint_sint64)
    have "int_p (dec_int ?n @ rest) = Some (i, rest)"
      unfolding n using int_printed [of "sint i" rest] assms(2) sint64_bounds [of i] by simp
    then show ?thesis using number_int [OF assms(1) r] assms(3) False by auto
  qed
  then show ?thesis using value_number c assms(1) by fastforce
qed

lemma value_real_text:
  assumes "skip s = fixed8 d @ rest" and "finite_double d" and "delim rest"
    and "new_real (rd d) st = Inr st'"
  shows "\<exists>a. parse (Call R_value) s st = Some (Hit a rest st')"
proof -
  obtain c t where c: "fixed8 d = c # t" "c \<noteq> CHR 0x22" using fixed8_start [OF assms(2)] by blast
  have "parse (Call R_number) s st = Some (Hit (AReal (rd d)) rest st')"
    by (rule number_real [OF assms(1) real_printed [OF assms(2,3)] assms(4)])
  then show ?thesis using value_number c assms(1) by fastforce
qed

lemma pair_text:
  assumes val: "\<And>ws st st'. blank ws \<Longrightarrow> foldR run_event (events (reread rd v)) st = Inr st' \<Longrightarrow>
      \<exists>a. parse (Call R_value) (ws @ json_text p n v @ rest) st = Some (Hit a rest st')"
    and "blank ws" and "foldR run_event (New_name (quoted k) # events (reread rd v)) st = Inr st'"
  shows "parse (Call R_pair) (ws @ quoted k @ sp p @ '':'' @ sp p @ json_text p n v @ rest) st
    = Some (Hit NoAttr rest st')"
proof -
  obtain st1 where 1: "new_name (quoted k) st = Inr st1"
    "foldR run_event (events (reread rd v)) st1 = Inr st'"
    using assms(3) by (auto simp: res_simps)
  obtain a where "parse (Call R_value) (sp p @ json_text p n v @ rest) st1 = Some (Hit a rest st')"
    using val [OF _ 1(2), of "sp p"] by auto
  moreover have "skip (sp p @ '':'' @ sp p @ json_text p n v @ rest)
      = CHR '':'' # sp p @ json_text p n v @ rest"
    using skip_colon by simp
  ultimately show ?thesis using skip_quoted [OF assms(2)] 1(1) by (blast intro: pair_hit)
qed

lemma opt_elements_miss:
  assumes "skip s = CHR '']'' # t"
  shows "parse (Opt (Call R_elements)) s st = Some (Hit NoAttr s st)"
proof -
  have "\<not> num_start (CHR '']'')" by code_simp
  then have "parse (Call R_value) s st = Some (Miss st)"
    using assms skip_Cons_space [OF assms] by (simp add: value_alt parse_rules)
  then show ?thesis by (simp add: parse_Opt parse_Call [of R_elements] parse_Seq)
qed

lemma opt_members_miss:
  assumes "skip s = CHR ''}'' # t"
  shows "parse (Opt (Call R_members)) s st = Some (Hit NoAttr s st)"
  using assms skip_Cons_space [OF assms]
  by (simp add: parse_Opt parse_Call [of R_members] parse_Call [of R_pair] parse_Seq parse_rules)

lemma opt_elements_hit:
  assumes "parse (Call R_value) s st = Some (Hit a s1 st1)"
    and "parse (Star (Seq (Ch (CHR '','')) (Call R_value))) s1 st1 = Some (Hit b s2 st2)"
  shows "parse (Opt (Call R_elements)) s st = Some (Hit NoAttr s2 st2)"
  using assms by (simp add: parse_Opt parse_Call [of R_elements] parse_Seq)

lemma opt_members_hit:
  assumes "parse (Call R_pair) s st = Some (Hit a s1 st1)"
    and "parse (Star (Seq (Ch (CHR '','')) (Call R_pair))) s1 st1 = Some (Hit b s2 st2)"
  shows "parse (Opt (Call R_members)) s st = Some (Hit NoAttr s2 st2)"
  using assms by (simp add: parse_Opt parse_Call [of R_members] parse_Seq)

lemma read_text:
  shows "writable v \<Longrightarrow> (\<forall>ws rest st st'. blank ws \<longrightarrow> (is_number v \<longrightarrow> delim rest) \<longrightarrow>
      foldR run_event (events (reread rd v)) st = Inr st' \<longrightarrow>
      (\<exists>a. parse (Call R_value) (ws @ json_text p n v @ rest) st = Some (Hit a rest st')))"
    and "\<forall>v \<in> set vs. writable v \<Longrightarrow> (\<forall>k rest st st'.
      foldR run_event (element_events (map (reread rd) vs)) st = Inr st' \<longrightarrow>
      (\<exists>ws. blank ws \<and> parse (Star (Seq (Ch (CHR '','')) (Call R_value)))
          (comma vs @ nl p @ elements_text p n vs @ ind p k @ CHR '']'' # rest) st
        = Some (Hit NoAttr (ws @ CHR '']'' # rest) st')) \<and>
      (\<exists>ws. blank ws \<and> parse (Opt (Call R_elements))
          (nl p @ elements_text p n vs @ ind p k @ CHR '']'' # rest) st
        = Some (Hit NoAttr (ws @ CHR '']'' # rest) st')))"
    and "\<forall>(k, v) \<in> set ms. writable v \<Longrightarrow> (\<forall>k rest st st'.
      foldR run_event (member_events (map (\<lambda>(k, v). (k, reread rd v)) ms)) st = Inr st' \<longrightarrow>
      (\<exists>ws. blank ws \<and> parse (Star (Seq (Ch (CHR '','')) (Call R_pair)))
          (comma ms @ nl p @ members_text p n ms @ ind p k @ CHR ''}'' # rest) st
        = Some (Hit NoAttr (ws @ CHR ''}'' # rest) st')) \<and>
      (\<exists>ws. blank ws \<and> parse (Opt (Call R_members))
          (nl p @ members_text p n ms @ ind p k @ CHR ''}'' # rest) st
        = Some (Hit NoAttr (ws @ CHR ''}'' # rest) st')))"
proof (induction p n v and p n vs and p n ms rule: json_text_elements_text_members_text.induct)
  case (1 p n ms)
  show ?case
  proof (intro allI impI)
    fix ws rest st st'
    assume ws: "blank ws" and
      ev: "foldR run_event (events (reread rd (VObj ms))) st = Inr st'"
    let ?ms = "map (\<lambda>(k, v). (k, reread rd v)) ms"
    let ?t = "nl p @ members_text p (Suc n) ms @ ind p n @ CHR ''}'' # rest"
    obtain st1 st2 where e: "begin_obj (CHR ''{'') st = Inr st1"
      "foldR run_event (member_events ?ms) st1 = Inr st2" "end_obj (CHR ''}'') st2 = Inr st'"
      using ev by (auto simp: foldR_append res_simps)
    obtain ws2 where w: "blank ws2"
      "parse (Opt (Call R_members)) ?t st1 = Some (Hit NoAttr (ws2 @ CHR ''}'' # rest) st2)"
      using 1 e(2) by fastforce
    have s: "skip (ws @ json_text p n (VObj ms) @ rest) = CHR ''{'' # ?t"
      using ws by (simp add: skip_blank is_space_def code_of_def)
    have "parse (Call R_object) (ws @ json_text p n (VObj ms) @ rest) st = Some (Hit NoAttr rest st')"
      by (rule object_hit [OF s e(1) w(2) skip_close [OF w(1)] e(3)]) simp
    then show "\<exists>a. parse (Call R_value) (ws @ json_text p n (VObj ms) @ rest) st = Some (Hit a rest st')"
      using value_object [OF s] by blast
  qed
next
  case (2 p n vs)
  show ?case
  proof (intro allI impI)
    fix ws rest st st'
    assume ws: "blank ws" and
      ev: "foldR run_event (events (reread rd (VArr vs))) st = Inr st'"
    let ?t = "nl p @ elements_text p (Suc n) vs @ ind p n @ CHR '']'' # rest"
    obtain st1 st2 where e: "begin_array (CHR ''['') st = Inr st1"
      "foldR run_event (element_events (map (reread rd) vs)) st1 = Inr st2"
      "end_array (CHR '']'') st2 = Inr st'"
      using ev by (auto simp: foldR_append res_simps)
    obtain ws2 where w: "blank ws2"
      "parse (Opt (Call R_elements)) ?t st1 = Some (Hit NoAttr (ws2 @ CHR '']'' # rest) st2)"
      using 2 e(2) by fastforce
    have s: "skip (ws @ json_text p n (VArr vs) @ rest) = CHR ''['' # ?t"
      using ws by (simp add: skip_blank is_space_def code_of_def)
    have "parse (Call R_array) (ws @ json_text p n (VArr vs) @ rest) st = Some (Hit NoAttr rest st')"
      by (rule array_hit [OF s e(1) w(2) skip_close [OF w(1)] e(3)]) simp
    then show "\<exists>a. parse (Call R_value) (ws @ json_text p n (VArr vs) @ rest) st = Some (Hit a rest st')"
      using value_array [OF s] by blast
  qed
next
  case (3 p n s)
  show ?case
  proof (intro allI impI)
    fix ws rest st st'
    assume "blank ws" and "foldR run_event (events (reread rd (VStr s))) st = Inr st'"
    then show "\<exists>a. parse (Call R_value) (ws @ json_text p n (VStr s) @ rest) st = Some (Hit a rest st')"
      using value_string [OF skip_quoted] by auto
  qed
next
  case (4 p n b)
  show ?case
  proof (intro allI impI)
    fix ws rest st st'
    assume "blank ws" and "foldR run_event (events (reread rd (VBool b))) st = Inr st'"
    then show "\<exists>a. parse (Call R_value) (ws @ json_text p n (VBool b) @ rest) st = Some (Hit a rest st')"
      using skip_text [of "VBool b" ws p n rest]
        value_literal [of "ws @ json_text p n (VBool b) @ rest" "if b then ''true'' else ''false''"]
      by (cases b) auto
  qed
next
  case (5 p n i u)
  show ?case
  proof (intro allI impI)
    fix ws rest st st'
    assume "blank ws" and "is_number (VInt i u) \<longrightarrow> delim rest"
      and "foldR run_event (events (reread rd (VInt i u))) st = Inr st'"
    moreover from \<open>blank ws\<close> have "skip (ws @ json_text p n (VInt i u) @ rest)
        = dec_int (if u then uint i else sint i) @ rest"
      using skip_text [of "VInt i u" ws p n rest] by simp
    ultimately show "\<exists>a. parse (Call R_value) (ws @ json_text p n (VInt i u) @ rest) st
        = Some (Hit a rest st')"
      by (intro value_int_text) simp_all
  qed
next
  case (6 p n d)
  then show ?case using skip_text [of "VReal d"] by (auto simp: intro!: value_real_text)
next
  case (7 p n)
  show ?case
  proof (intro allI impI)
    fix ws rest st st'
    assume "blank ws" and "foldR run_event (events (reread rd VNull)) st = Inr st'"
    then show "\<exists>a. parse (Call R_value) (ws @ json_text p n VNull @ rest) st = Some (Hit a rest st')"
      using skip_text [of VNull ws p n rest]
        value_literal [of "ws @ json_text p n VNull @ rest" "''null''"]
      by auto
  qed
next
  case (8 p n)
  show ?case
  proof (intro allI impI conjI)
    fix k rest st st'
    assume "foldR run_event (element_events (map (reread rd) [])) st = Inr st'"
    then have st: "st' = st" by simp
    have s: "skip (nl p @ ind p k @ CHR '']'' # rest) = CHR '']'' # rest"
      using skip_close [of "nl p @ ind p k" "CHR '']''" rest] by simp
    have w: "blank (nl p @ ind p k)" by simp
    show "\<exists>ws. blank ws \<and> parse (Star (Seq (Ch (CHR '','')) (Call R_value)))
          (comma ([] :: jvalue list) @ nl p @ elements_text p n [] @ ind p k @ CHR '']'' # rest) st
        = Some (Hit NoAttr (ws @ CHR '']'' # rest) st')"
      using comma_miss [OF s] w st
      by (intro exI [of _ "nl p @ ind p k"]) (simp add: comma_def)
    show "\<exists>ws. blank ws \<and> parse (Opt (Call R_elements))
          (nl p @ elements_text p n [] @ ind p k @ CHR '']'' # rest) st
        = Some (Hit NoAttr (ws @ CHR '']'' # rest) st')"
      using opt_elements_miss [OF s] w st by (intro exI [of _ "nl p @ ind p k"]) simp
  qed
next
  case (9 p n v vs)
  show ?case
  proof (intro allI impI conjI)
    fix k rest st st'
    assume "foldR run_event (element_events (map (reread rd) (v # vs))) st = Inr st'"
    then obtain st1 where e: "foldR run_event (events (reread rd v)) st = Inr st1"
      "foldR run_event (element_events (map (reread rd) vs)) st1 = Inr st'"
      by (auto simp: foldR_append res_simps)
    let ?t = "comma vs @ nl p @ elements_text p n vs @ ind p k @ CHR '']'' # rest"
    have d: "delim ?t" by (rule delim_members) simp
    obtain ws where w: "blank ws" "parse (Star (Seq (Ch (CHR '','')) (Call R_value))) ?t st1
        = Some (Hit NoAttr (ws @ CHR '']'' # rest) st')"
      using 9(2) 9(3) e(2) by fastforce
    have v: "\<exists>a. parse (Call R_value) (ws0 @ json_text p n v @ ?t) st = Some (Hit a ?t st1)"
      if "blank ws0" for ws0
      using 9(1) 9(3) that d e(1) by simp
    show "\<exists>ws. blank ws \<and> parse (Star (Seq (Ch (CHR '','')) (Call R_value)))
          (comma (v # vs) @ nl p @ elements_text p n (v # vs) @ ind p k @ CHR '']'' # rest) st
        = Some (Hit NoAttr (ws @ CHR '']'' # rest) st')"
      using v [of "nl p @ ind p n"] w comma_hit by (fastforce simp: comma_def)
    show "\<exists>ws. blank ws \<and> parse (Opt (Call R_elements))
          (nl p @ elements_text p n (v # vs) @ ind p k @ CHR '']'' # rest) st
        = Some (Hit NoAttr (ws @ CHR '']'' # rest) st')"
      using v [of "nl p @ ind p n"] w opt_elements_hit by fastforce
  qed
next
  case (10 p n)
  show ?case
  proof (intro allI impI conjI)
    fix k rest st st'
    assume "foldR run_event (member_events (map (\<lambda>(k, v). (k, reread rd v)) [])) st = Inr st'"
    then have st: "st' = st" by simp
    have s: "skip (nl p @ ind p k @ CHR ''}'' # rest) = CHR ''}'' # rest"
      using skip_close [of "nl p @ ind p k" "CHR ''}''" rest] by simp
    have w: "blank (nl p @ ind p k)" by simp
    show "\<exists>ws. blank ws \<and> parse (Star (Seq (Ch (CHR '','')) (Call R_pair)))
          (comma ([] :: jobject) @ nl p @ members_text p n [] @ ind p k @ CHR ''}'' # rest) st
        = Some (Hit NoAttr (ws @ CHR ''}'' # rest) st')"
      using comma_miss [OF s] w st
      by (intro exI [of _ "nl p @ ind p k"]) (simp add: comma_def)
    show "\<exists>ws. blank ws \<and> parse (Opt (Call R_members))
          (nl p @ members_text p n [] @ ind p k @ CHR ''}'' # rest) st
        = Some (Hit NoAttr (ws @ CHR ''}'' # rest) st')"
      using opt_members_miss [OF s] w st by (intro exI [of _ "nl p @ ind p k"]) simp
  qed
next
  case (11 p n key v ms)
  show ?case
  proof (intro allI impI conjI)
    fix k rest st st'
    assume "foldR run_event (member_events (map (\<lambda>(k, v). (k, reread rd v)) ((key, v) # ms))) st
      = Inr st'"
    then obtain st1 where e: "foldR run_event (New_name (quoted key) # events (reread rd v)) st = Inr st1"
      "foldR run_event (member_events (map (\<lambda>(k, v). (k, reread rd v)) ms)) st1 = Inr st'"
      by (auto simp: foldR_append res_simps)
    let ?t = "comma ms @ nl p @ members_text p n ms @ ind p k @ CHR ''}'' # rest"
    have d: "delim ?t" by (rule delim_members) simp
    obtain ws where w: "blank ws" "parse (Star (Seq (Ch (CHR '','')) (Call R_pair))) ?t st1
        = Some (Hit NoAttr (ws @ CHR ''}'' # rest) st')"
      using 11(2) 11(3) e(2) by fastforce
    have v: "parse (Call R_pair) (ws0 @ quoted key @ sp p @ '':'' @ sp p @ json_text p n v @ ?t) st
        = Some (Hit NoAttr ?t st1)" if "blank ws0" for ws0
      using 11(1) 11(3) d by (intro pair_text that e(1)) auto
    show "\<exists>ws. blank ws \<and> parse (Star (Seq (Ch (CHR '','')) (Call R_pair)))
          (comma ((key, v) # ms) @ nl p @ members_text p n ((key, v) # ms) @ ind p k @ CHR ''}'' # rest) st
        = Some (Hit NoAttr (ws @ CHR ''}'' # rest) st')"
      using v [of "nl p @ ind p n"] w comma_hit by (fastforce simp: comma_def)
    show "\<exists>ws. blank ws \<and> parse (Opt (Call R_members))
          (nl p @ members_text p n ((key, v) # ms) @ ind p k @ CHR ''}'' # rest) st
        = Some (Hit NoAttr (ws @ CHR ''}'' # rest) st')"
      using v [of "nl p @ ind p n"] w opt_members_hit by fastforce
  qed
qed

end

end
