(* ===== verification/JsonTotal.thy ===== *)
theory JsonTotal
  imports JsonParse
begin

section \<open>Reading any input: read_string returns and no assertion fails\<close>

text \<open>
  A small program logic for the grammar of \<open>json/json_spirit_reader_template.h\<close>.
  \<open>triple n b m P g Q\<close> says: on an input shorter than \<open>n\<close> and in a state that satisfies \<open>P\<close>,
  the parser for \<open>g\<close> returns; a hit has consumed input if \<open>b\<close> and leaves a state in \<open>Q\<close>; a miss
  leaves the state as it was and happens only if \<open>m\<close>; and what an action throws is an error of
  the grammar, never a failed assertion.
\<close>

definition ends :: "parser \<Rightarrow> gram \<Rightarrow> string \<Rightarrow> sem_state \<Rightarrow> bool \<Rightarrow> bool \<Rightarrow> (sem_state \<Rightarrow> bool) \<Rightarrow> bool"
  where
  "ends parse g s st b m Q \<longleftrightarrow>
     (case parse g s st of
        None \<Rightarrow> False
      | Some (Hit a s' st') \<Rightarrow> length s' \<le> length s \<and> (b \<longrightarrow> length s' < length s) \<and> Q st'
      | Some (Miss st') \<Rightarrow> m \<and> st' = st
      | Some (Raise e st') \<Rightarrow> \<not> is_undefined e)"

definition triple :: "parser \<Rightarrow> nat \<Rightarrow> bool \<Rightarrow> bool \<Rightarrow> (sem_state \<Rightarrow> bool) \<Rightarrow> gram \<Rightarrow>
    (sem_state \<Rightarrow> bool) \<Rightarrow> bool" where
  "triple parse n b m P g Q \<longleftrightarrow>
     (\<forall>s st. length s < n \<longrightarrow> P st \<longrightarrow> ends parse g s st b m Q)"

lemma tripleI:
  "(\<And>s st. length s < n \<Longrightarrow> P st \<Longrightarrow> ends parse g s st b m Q) \<Longrightarrow> triple parse n b m P g Q"
  by (simp add: triple_def)

lemma tripleE:
  assumes "triple parse n b m P g Q" and "length s < n" and "P st"
  obtains (Hit) a s' st' where "parse g s st = Some (Hit a s' st')" "length s' \<le> length s"
      "b \<Longrightarrow> length s' < length s" "Q st'"
    | (Miss) "parse g s st = Some (Miss st)" "m"
    | (Raise) e st' where "parse g s st = Some (Raise e st')" "\<not> is_undefined e"
proof -
  have e: "ends parse g s st b m Q" using assms by (simp add: triple_def)
  then obtain out where o: "parse g s st = Some out" by (auto simp: ends_def split: option.splits)
  show thesis
  proof (cases out)
    case 1: (Hit a s' st')
    then show thesis using that(1) e o by (simp add: ends_def)
  next
    case 2: (Miss st')
    then show thesis using that(2) e o by (simp add: ends_def)
  next
    case 3: (Raise e' st')
    then show thesis using that(3) e o by (simp add: ends_def)
  qed
qed

lemma triple_weaken:
  assumes "triple parse n b m P g Q" and "n' \<le> n" and "b' \<longrightarrow> b" and "m \<longrightarrow> m'"
    and "\<And>st. P' st \<Longrightarrow> P st" and "\<And>st. Q st \<Longrightarrow> Q' st"
  shows "triple parse n' b' m' P' g Q'"
proof (rule tripleI)
  fix s :: string and st
  assume "length s < n'" "P' st"
  then have "length s < n" "P st" using assms by auto
  with assms(1) show "ends parse g s st b' m' Q'"
    by (cases rule: tripleE) (use assms(3,4,6) in \<open>simp_all add: ends_def\<close>)
qed

lemma triple_states:
  assumes "\<And>st. P st \<Longrightarrow> triple parse n b m ((=) st) g Q"
  shows "triple parse n b m P g Q"
  using assms unfolding triple_def by blast

lemma length_skip: "length (skip s) \<le> length s"
  by (rule length_dropWhile_le)

lemma throw_error_defined: "\<not> is_undefined (throw_error it i r)"
  by (cases it) (simp_all split: prod.split)

subsection \<open>Rules for the combinators\<close>

context json_prims
begin

lemma triple_Seq:
  assumes g: "triple parse n b1 m P g Q"
    and g': "triple parse (if b1 then n - 1 else n) b2 False Q g' R"
  shows "triple parse n (b1 \<or> b2) m P (Seq g g') R"
proof (rule tripleI)
  fix s :: string and st
  assume s: "length s < n" "P st"
  from g s show "ends parse (Seq g g') s st (b1 \<or> b2) m R"
  proof (cases rule: tripleE)
    case (Hit a s1 st1)
    then have "length s1 < (if b1 then n - 1 else n)" using s by auto
    from g' this \<open>Q st1\<close> show ?thesis
    proof (cases rule: tripleE)
      case h: (Hit a2 s2 st2)
      then show ?thesis using Hit by (auto simp: parse_Seq ends_def)
    qed (use Hit in \<open>auto simp: parse_Seq ends_def\<close>)
  qed (auto simp: parse_Seq ends_def)
qed

lemma triple_Seq_Ch:
  assumes "triple parse (n - 1) b m P g Q"
  shows "triple parse n True True P (Seq (Ch c) g) Q"
proof (rule tripleI)
  fix s :: string and st
  assume s: "length s < n" "P st"
  show "ends parse (Seq (Ch c) g) s st True True Q"
  proof (cases "expect c (skip s)")
    case None
    then show ?thesis by (simp add: parse_Seq parse_Ch ends_def)
  next
    case (Some x)
    then obtain s1 where s1: "skip s = c # s1" "x = (c, s1)"
      by (cases "skip s") (auto split: if_splits)
    then have l: "length s1 < length s" using length_skip [of s] by simp
    then have "length s1 < n - 1" using s by simp
    from assms this s(2) show ?thesis
    proof (cases rule: tripleE)
      case (Hit a s2 st2)
      then show ?thesis using l s1 by (auto simp: parse_Seq parse_Ch ends_def)
    qed (use s1 in \<open>auto simp: parse_Seq parse_Ch ends_def\<close>)
  qed
qed

lemma triple_Alt:
  assumes "triple parse n b True P g Q" and "triple parse n b m P g' Q"
  shows "triple parse n b m P (Alt g g') Q"
proof (rule tripleI)
  fix s :: string and st
  assume s: "length s < n" "P st"
  from assms(1) s show "ends parse (Alt g g') s st b m Q"
  proof (cases rule: tripleE)
    case Miss
    from assms(2) s show ?thesis by (cases rule: tripleE) (use Miss in \<open>auto simp: parse_Alt ends_def\<close>)
  qed (auto simp: parse_Alt ends_def)
qed

lemma triple_Star:
  assumes "triple parse n True True P g P"
  shows "triple parse n False False P (Star g) P"
proof (rule tripleI)
  fix s :: string and st
  assume "length s < n" "P st"
  then have "ends parse (Star g) s st False False P"
  proof (induction "length s" arbitrary: s st rule: less_induct)
    case less
    from assms less.prems show ?case
    proof (cases rule: tripleE)
      case (Hit a s1 st1)
      with less.prems have "length s1 < n" by simp
      from less.hyps [OF _ this Hit(4)] Hit(3)
      have "ends parse (Star g) s1 st1 False False P" by simp
      moreover have "parse (Star g) s st = parse (Star g) s1 st1"
        by (subst parse_Star) (simp add: Hit)
      ultimately show ?thesis
        using Hit(2) by (auto simp: ends_def split: option.splits outcome.splits)
    next
      case Miss
      then have "parse (Star g) s st = Some (Hit NoAttr s st)" by (subst parse_Star) simp
      then show ?thesis using less.prems by (simp add: ends_def)
    next
      case (Raise e st')
      then have "parse (Star g) s st = Some (Raise e st')" by (subst parse_Star) simp
      then show ?thesis using Raise by (simp add: ends_def)
    qed
  qed
  then show "ends parse (Star g) s st False False P" by blast
qed

lemma triple_Opt:
  assumes "triple parse n b True P g Q" and "\<And>st. P st \<Longrightarrow> Q st"
  shows "triple parse n False False P (Opt g) Q"
proof (rule tripleI)
  fix s :: string and st
  assume s: "length s < n" "P st"
  from assms(1) s show "ends parse (Opt g) s st False False Q"
    by (cases rule: tripleE) (use s assms(2) in \<open>auto simp: parse_Opt ends_def\<close>)
qed

lemma triple_Call: "triple parse n b m P (grammar r) Q \<Longrightarrow> triple parse n b m P (Call r) Q"
  by (simp add: triple_def ends_def parse_Call)

lemma triple_throw: "triple parse n b m P (Act Eps (H_throw r)) Q"
  by (rule tripleI) (simp add: ends_def parse_Act parse_Eps act_out_def throw_error_defined)

text \<open>An action on a primitive parser.\<close>

lemma triple_Act:
  assumes g: "\<And>s st. skip s = s \<Longrightarrow> (\<exists>a s'. parse g s st = Some (Hit a s' st) \<and> length s' < length s \<and> A a \<and> T (consumed s s'))
      \<or> parse g s st = Some (Miss st)"
    and h: "\<And>a i t st. A a \<Longrightarrow> T t \<Longrightarrow> P st \<Longrightarrow> \<exists>st'. do_action h a i t st = Inr st' \<and> Q st'"
  shows "triple parse n True True P (Act g h) Q"
proof (rule tripleI)
  fix s :: string and st
  assume s: "length s < n" "P st"
  from g [OF skip_skip, of s st] show "ends parse (Act g h) s st True True Q"
  proof (elim disjE exE conjE)
    fix a s'
    assume hit: "parse g (skip s) st = Some (Hit a s' st)" "length s' < length (skip s)"
      "A a" "T (consumed (skip s) s')"
    with h s obtain st' where "do_action h a (skip s) (consumed (skip s) s') st = Inr st'" "Q st'" by blast
    then show ?thesis using hit length_skip [of s] by (simp add: ends_def parse_Act act_out_def)
  qed (simp add: ends_def parse_Act)
qed

end


subsection \<open>Where a value can go\<close>

definition In_obj :: "frame list \<Rightarrow> nat list list \<Rightarrow> sem_state \<Rightarrow> bool" where
  "In_obj ctx stk st \<longleftrightarrow> (\<exists>ms nm. st = filling ctx (VObj ms) stk nm)"

definition In_arr :: "frame list \<Rightarrow> nat list list \<Rightarrow> sem_state \<Rightarrow> bool" where
  "In_arr ctx stk st \<longleftrightarrow> (\<exists>vs nm. st = filling ctx (VArr vs) stk nm)"

definition Fresh :: "sem_state \<Rightarrow> bool" where
  "Fresh st \<longleftrightarrow> (\<exists>v0. st = Semantic_actions Config_vector Plain_iter v0)"

definition Done :: "sem_state \<Rightarrow> bool" where
  "Done st \<longleftrightarrow> (\<exists>v nm. st = filling [] v [] nm)"

text \<open>
  \<open>slot P P'\<close>: from a state in \<open>P\<close> a value can be added, at once or as a compound that is opened,
  filled and closed, and then the state is in \<open>P'\<close>.
\<close>

definition slot :: "(sem_state \<Rightarrow> bool) \<Rightarrow> (sem_state \<Rightarrow> bool) \<Rightarrow> bool" where
  "slot P P' \<longleftrightarrow> (\<forall>st. P st \<longrightarrow>
     (\<forall>v. \<exists>st'. add_value v st = Inr st' \<and> P' st') \<and>
     (\<exists>ctx stk. (\<forall>w0. \<exists>nm. begin_compound w0 st = Inr (filling ctx w0 stk nm)) \<and>
        (\<forall>w nm. \<exists>st'. end_compound (filling ctx w stk nm) = Inr st' \<and> P' st')))"

lemma In_obj_iff: "(\<lambda>st. \<exists>w. (\<exists>nm. st = filling ctx w stk nm) \<and> (\<exists>ms. w = VObj ms)) = In_obj ctx stk"
  by (auto simp: In_obj_def fun_eq_iff)

lemma In_arr_iff: "(\<lambda>st. \<exists>w. (\<exists>nm. st = filling ctx w stk nm) \<and> (\<exists>vs. w = VArr vs)) = In_arr ctx stk"
  by (auto simp: In_arr_def fun_eq_iff)

lemma slot_obj: "slot (In_obj ctx stk) (In_obj ctx stk)"
  unfolding slot_def
proof (intro allI impI)
  fix st
  assume "In_obj ctx stk st"
  then obtain ms nm where st: "st = filling ctx (VObj ms) stk nm" by (auto simp: In_obj_def)
  have "\<forall>w nm'. \<exists>st'. end_compound (filling (ctx @ [FObj ms nm]) w (stk @ [hole ctx]) nm') = Inr st'
      \<and> In_obj ctx stk st'"
    by (simp add: end_compound_obj In_obj_def) blast
  then show "(\<forall>v. \<exists>st'. add_value v st = Inr st' \<and> In_obj ctx stk st') \<and>
     (\<exists>ctx' stk'. (\<forall>w0. \<exists>nm. begin_compound w0 st = Inr (filling ctx' w0 stk' nm)) \<and>
        (\<forall>w nm. \<exists>st'. end_compound (filling ctx' w stk' nm) = Inr st' \<and> In_obj ctx stk st'))"
    unfolding st by (auto simp: add_value_obj begin_compound_obj In_obj_def)
qed

lemma slot_arr: "slot (In_arr ctx stk) (In_arr ctx stk)"
  unfolding slot_def
proof (intro allI impI)
  fix st
  assume "In_arr ctx stk st"
  then obtain vs nm where st: "st = filling ctx (VArr vs) stk nm" by (auto simp: In_arr_def)
  have "\<forall>w nm'. \<exists>st'. end_compound (filling (ctx @ [FArr vs]) w (stk @ [hole ctx]) nm') = Inr st'
      \<and> In_arr ctx stk st'"
    by (simp add: end_compound_arr In_arr_def) blast
  then show "(\<forall>v. \<exists>st'. add_value v st = Inr st' \<and> In_arr ctx stk st') \<and>
     (\<exists>ctx' stk'. (\<forall>w0. \<exists>nm. begin_compound w0 st = Inr (filling ctx' w0 stk' nm)) \<and>
        (\<forall>w nm. \<exists>st'. end_compound (filling ctx' w stk' nm) = Inr st' \<and> In_arr ctx stk st'))"
    unfolding st by (auto simp: add_value_arr begin_compound_arr In_arr_def)
qed

lemma slot_root: "slot Fresh Done"
proof -
  have "Done (filling [] w [] nm)" for w nm by (auto simp: Done_def)
  then show ?thesis
    unfolding slot_def Fresh_def
    by (auto simp: add_root begin_root end_root intro!: exI [of _ "[]"])
qed

lemma slot_add: "slot P P' \<Longrightarrow> P st \<Longrightarrow> \<exists>st'. add_value v st = Inr st' \<and> P' st'"
  by (simp add: slot_def)

lemma expect_str_Some: "expect_str t s = Some (u, s') \<longleftrightarrow> s = t @ s'"
  by (induction t s rule: expect_str.induct) auto

lemma expect_Some: "expect c s = Some (d, s') \<longleftrightarrow> d = c \<and> s = c # s'"
  by (cases s) auto

lemma length_consumed: "length s' \<le> length s \<Longrightarrow> length (consumed s s') = length s - length s'"
  by (simp add: consumed_def)

lemma read_str_ok: "2 \<le> length t \<Longrightarrow> \<exists>r. read_str t = Inr r"
  by (simp add: read_str_def)

subsection \<open>The grammar's rules\<close>

context json_prims
begin

lemma triple_string:
  assumes "\<And>a i t st. 2 \<le> length t \<Longrightarrow> P st \<Longrightarrow> \<exists>st'. do_action h a i t st = Inr st' \<and> Q st'"
  shows "triple parse n True True P (Act (Call R_string) h) Q"
proof (rule triple_Act [where A = "\<lambda>_. True" and T = "\<lambda>t. 2 \<le> length t"])
  fix s :: string and st
  show "(\<exists>a s'. parse (Call R_string) s st = Some (Hit a s' st) \<and> length s' < length s \<and> True \<and>
      2 \<le> length (consumed s s')) \<or> parse (Call R_string) s st = Some (Miss st)"
  proof (cases "string_p (skip s)")
    case None
    then show ?thesis by (simp add: parse_Call parse_QuotedString)
  next
    case (Some x)
    then obtain s' where x: "x = ((), s')" by (cases x) auto
    then have "length s' + 2 \<le> length s"
      using shorter(4) [of "skip s"] Some length_skip [of s] by fastforce
    then show ?thesis using Some x by (simp add: parse_Call parse_QuotedString length_consumed)
  qed
qed (use assms in blast)

lemma triple_literal:
  assumes "slot P P'" and "\<And>a i st. do_action h a i t st = add_value v st" and "t \<noteq> []"
  shows "triple parse n True True P (Act (StrP t) h) P'"
proof (rule triple_Act [where A = "\<lambda>_. True" and T = "\<lambda>t'. t' = t"])
  fix s :: string and st
  assume "skip s = s"
  then show "(\<exists>a s'. parse (StrP t) s st = Some (Hit a s' st) \<and> length s' < length s \<and> True \<and>
      consumed s s' = t) \<or> parse (StrP t) s st = Some (Miss st)"
    using assms(3) by (cases "expect_str t s") (auto simp: parse_StrP expect_str_Some)
qed (use assms(1,2) slot_add in metis)

lemma triple_Ch: "triple parse n True True P (Ch c) P"
proof (rule tripleI)
  fix s :: string and st
  assume "P st"
  moreover have "length s' < length s" if "skip s = d # s'" for d s'
    using length_skip [of s] that by simp
  ultimately show "ends parse (Ch c) s st True True P"
    by (cases "expect c (skip s)") (auto simp: ends_def parse_Ch expect_Some)
qed

lemma triple_Ch_act:
  assumes "\<And>st. P st \<Longrightarrow> \<exists>st'. on_char f (AChar c) st = Inr st' \<and> Q st'"
    and "\<And>a i t. do_action h a i t = on_char f a"
  shows "triple parse n True True P (Act (Ch c) h) Q"
proof (rule triple_Act [where A = "\<lambda>a. a = AChar c" and T = "\<lambda>_. True"])
  fix s :: string and st
  assume "skip s = s"
  then show "(\<exists>a s'. parse (Ch c) s st = Some (Hit a s' st) \<and> length s' < length s \<and> a = AChar c \<and>
      True) \<or> parse (Ch c) s st = Some (Miss st)"
    by (cases s) (auto simp: parse_Ch)
qed (use assms in simp)

lemma triple_number:
  assumes "slot P P'"
  shows "triple parse n True True P (Call R_number) P'"
proof -
  have "triple parse n True True P (Act StrictReal H_new_real) P'"
  proof (rule triple_Act [where A = "\<lambda>a. \<exists>d. a = AReal d" and T = "\<lambda>_. True"])
    fix s :: string and st
    assume "skip s = s"
    then show "(\<exists>a s'. parse StrictReal s st = Some (Hit a s' st) \<and> length s' < length s \<and>
        (\<exists>d. a = AReal d) \<and> True) \<or> parse StrictReal s st = Some (Miss st)"
      by (cases "real_p s") (auto simp: parse_StrictReal dest: shorter)
  qed (use slot_add [OF assms] in \<open>auto simp: new_real_def\<close>)
  moreover have "triple parse n True True P (Act Int64P H_new_int) P'"
  proof (rule triple_Act [where A = "\<lambda>a. \<exists>d. a = AInt d" and T = "\<lambda>_. True"])
    fix s :: string and st
    assume "skip s = s"
    then show "(\<exists>a s'. parse Int64P s st = Some (Hit a s' st) \<and> length s' < length s \<and>
        (\<exists>d. a = AInt d) \<and> True) \<or> parse Int64P s st = Some (Miss st)"
      by (cases "int_p s") (auto simp: parse_Int64P dest: shorter)
  qed (use slot_add [OF assms] in \<open>auto simp: new_int_def\<close>)
  moreover have "triple parse n True True P (Act Uint64P H_new_uint64) P'"
  proof (rule triple_Act [where A = "\<lambda>a. \<exists>d. a = AUint d" and T = "\<lambda>_. True"])
    fix s :: string and st
    assume "skip s = s"
    then show "(\<exists>a s'. parse Uint64P s st = Some (Hit a s' st) \<and> length s' < length s \<and>
        (\<exists>d. a = AUint d) \<and> True) \<or> parse Uint64P s st = Some (Miss st)"
      by (cases "uint_p s") (auto simp: parse_Uint64P dest: shorter)
  qed (use slot_add [OF assms] in \<open>auto simp: new_uint64_def\<close>)
  ultimately show ?thesis
    by (intro triple_Call) (simp only: grammar.simps, intro triple_Alt)
qed

text \<open>Values are read on every input shorter than \<open>n\<close>, in every slot.\<close>

definition values_read :: "nat \<Rightarrow> bool" where
  "values_read n \<longleftrightarrow> (\<forall>P P'. slot P P' \<longrightarrow> triple parse n True True P (Call R_value) P')"

lemma triple_comma_list:
  assumes "triple parse n True True P g P"
  shows "triple parse n True True P (Seq g (Star (Seq (Ch (CHR '','')) g))) P"
proof -
  have "triple parse (n - 1) False False P (Star (Seq (Ch (CHR '','')) g)) P"
    by (rule triple_Star, rule triple_Seq_Ch) (rule triple_weaken [OF assms]; simp)
  then show ?thesis using triple_Seq [OF assms, of False _ P] by simp
qed

lemma triple_elements:
  assumes "values_read n"
  shows "triple parse n True True (In_arr ctx stk) (Call R_elements) (In_arr ctx stk)"
proof -
  have "triple parse n True True (In_arr ctx stk) (Call R_value) (In_arr ctx stk)"
    using assms slot_arr unfolding values_read_def by blast
  then show ?thesis
    by (intro triple_Call) (simp only: grammar.simps, rule triple_comma_list)
qed

lemma triple_pair:
  assumes "values_read n"
  shows "triple parse n True True (In_obj ctx stk) (Call R_pair) (In_obj ctx stk)"
proof -
  let ?P = "In_obj ctx stk"
  have name: "triple parse n True True ?P (Act (Call R_string) H_new_name) ?P"
  proof (rule triple_string)
    fix a and i t :: string and st
    assume "2 \<le> length t" "?P st"
    then show "\<exists>st'. do_action H_new_name a i t st = Inr st' \<and> ?P st'"
      using read_str_ok [of t] by (auto simp: In_obj_def new_name_def filling_def assert_res_def)
  qed
  have colon: "triple parse (n - 1) False False ?P
      (Alt (Ch (CHR '':'')) (Act Eps (H_throw ''no colon in pair''))) ?P"
    by (rule triple_Alt [OF _ triple_throw], rule triple_weaken [OF triple_Ch order.refl]) simp_all
  have val: "triple parse n True False ?P (Alt (Call R_value) (Act Eps (H_throw ''not a value''))) ?P"
    using assms slot_obj by (intro triple_Alt [OF _ triple_throw]) (simp add: values_read_def)
  have "triple parse n (True \<or> False) True ?P (Seq (Act (Call R_string) H_new_name)
      (Alt (Ch (CHR '':'')) (Act Eps (H_throw ''no colon in pair'')))) ?P"
    using name colon by (intro triple_Seq) simp_all
  then have "triple parse n (True \<or> True) True ?P (grammar R_pair) ?P"
    unfolding grammar.simps using triple_weaken [OF val, of "n - 1"] by (intro triple_Seq) simp_all
  then show ?thesis by (intro triple_Call) simp
qed

lemma triple_members:
  assumes "values_read n"
  shows "triple parse n True True (In_obj ctx stk) (Call R_members) (In_obj ctx stk)"
  by (intro triple_Call) (simp only: grammar.simps, intro triple_comma_list triple_pair assms)

lemma triple_compound:
  assumes "slot P P'"
    and b: "\<And>a i t. do_action hb a i t = on_char fb a" "\<And>st. fb c st = begin_compound emp st"
    and e: "\<And>a i t. do_action he a i t = on_char fe a" "\<And>st. fe d st = end_compound st"
    and items: "\<And>ctx stk. triple parse (n - 1) True True (\<lambda>st. \<exists>w. (\<exists>nm. st = filling ctx w stk nm) \<and> I w) g
        (\<lambda>st. \<exists>w. (\<exists>nm. st = filling ctx w stk nm) \<and> I w)" and "I emp"
  shows "triple parse n True True P
    (Seq (Seq (Act (Ch c) hb) (Opt g)) (Alt (Act (Ch d) he) (Act Eps (H_throw r)))) P'"
proof (rule triple_states)
  fix st0
  assume "P st0"
  then obtain ctx stk where
    b0: "\<exists>nm. begin_compound emp st0 = Inr (filling ctx emp stk nm)" and
    e0: "\<And>w nm. \<exists>st'. end_compound (filling ctx w stk nm) = Inr st' \<and> P' st'"
    using assms(1) unfolding slot_def by meson
  let ?M = "\<lambda>st. \<exists>w. (\<exists>nm. st = filling ctx w stk nm) \<and> I w"
  have opn: "triple parse n True True ((=) st0) (Act (Ch c) hb) ?M"
    using b0 \<open>I emp\<close> by (intro triple_Ch_act [where f = fb]) (auto simp: b on_char_def)
  have cls: "triple parse (n - 1) True False ?M (Alt (Act (Ch d) he) (Act Eps (H_throw r))) P'"
    using e0 by (intro triple_Alt [OF _ triple_throw] triple_Ch_act [where f = fe])
      (auto simp: e on_char_def)
  have "triple parse n (True \<or> False) True ((=) st0) (Seq (Act (Ch c) hb) (Opt g)) ?M"
    by (rule triple_Seq [OF opn], simp only: if_True, rule triple_Opt [OF items])
  then show "triple parse n True True ((=) st0)
    (Seq (Seq (Act (Ch c) hb) (Opt g)) (Alt (Act (Ch d) he) (Act Eps (H_throw r)))) P'"
    using triple_Seq [of n "True \<or> False" True "(=) st0" _ ?M True _ P'] cls by simp
qed

lemma triple_value_step:
  assumes "values_read (n - 1)" and "slot P P'"
  shows "triple parse n True True P (Call R_value) P'"
proof -
  have str: "triple parse n True True P (Act (Call R_string) H_new_str) P'"
  proof (rule triple_string)
    fix a and i t :: string and st
    assume "2 \<le> length t" "P st"
    then show "\<exists>st'. do_action H_new_str a i t st = Inr st' \<and> P' st'"
      using read_str_ok [of t] slot_add [OF assms(2)] by (auto simp: new_str_def)
  qed
  have obj: "triple parse n True True P (Call R_object) P'"
    unfolding grammar.simps
    by (intro triple_Call, simp only: grammar.simps,
        rule triple_compound [OF assms(2), where fb = begin_obj and fe = end_obj and emp = "VObj []"
          and I = "\<lambda>w. \<exists>ms. w = VObj ms"])
      (use triple_members [OF assms(1)] in
        \<open>simp_all add: begin_obj_def end_obj_def assert_res_def In_obj_iff\<close>)
  have arr: "triple parse n True True P (Call R_array) P'"
    by (intro triple_Call, simp only: grammar.simps,
        rule triple_compound [OF assms(2), where fb = begin_array and fe = end_array and emp = "VArr []"
          and I = "\<lambda>w. \<exists>vs. w = VArr vs"])
      (use triple_elements [OF assms(1)] in
        \<open>simp_all add: begin_array_def end_array_def assert_res_def In_arr_iff\<close>)
  have lits: "triple parse n True True P (Act (StrP ''true'') H_new_true) P'"
    "triple parse n True True P (Act (StrP ''false'') H_new_false) P'"
    "triple parse n True True P (Act (StrP ''null'') H_new_null) P'"
    by (rule triple_literal [OF assms(2)];
      simp add: new_true_def new_false_def new_null_def assert_res_def)+
  show ?thesis
    by (intro triple_Call) (simp only: grammar.simps, intro triple_Alt str obj arr lits
        triple_number assms(2))
qed

lemma all_values_read: "values_read n"
proof (induction n)
  case 0
  then show ?case by (simp add: values_read_def triple_def)
next
  case (Suc n)
  then show ?case using triple_value_step [of "Suc n"] by (simp add: values_read_def)
qed

end

end
