(* ===== verification/JsonLibrary.thy ===== *)
theory JsonLibrary
  imports JsonTotal
begin

section \<open>A reference parser library, and the properties of read_string\<close>

text \<open>
  The laws of the locale \<open>json_prims\<close> are met by a concrete library: \<open>ref_parse\<close> runs grammar
  expressions with backtracking, and the primitive parsers are the obvious scanners. It is the
  instance on which the properties of \<open>read_string\<close> are shown to be applicable; the properties
  themselves hold for every library that keeps the laws.
\<close>

subsection \<open>Primitive parsers\<close>

fun scan_string :: "string \<Rightarrow> (unit \<times> string) option" where
  "scan_string [] = None"
| "scan_string (c # s) =
     (if c = CHR 0x22 then Some ((), s)
      else if c = CHR 0x5C then (case s of [] \<Rightarrow> None | d # s' \<Rightarrow> scan_string s')
      else scan_string s)"

definition ref_string :: "string \<Rightarrow> (unit \<times> string) option" where
  "ref_string s = (case s of [] \<Rightarrow> None | c # t \<Rightarrow> if c = CHR 0x22 then scan_string t else None)"

definition sign_of :: "string \<Rightarrow> bool \<times> string" where
  "sign_of s = (case s of [] \<Rightarrow> (False, [])
     | c # t \<Rightarrow> if c = CHR ''-'' then (True, t) else if c = CHR ''+'' then (False, t) else (False, s))"

definition ref_int :: "string \<Rightarrow> (int64 \<times> string) option" where
  "ref_int s =
     (let (neg, t) = sign_of s; ds = takeWhile is_digit t; n = digits_val 0 ds;
          v = (if neg then - n else n)
      in if ds = [] \<or> v < - (2 ^ 63) \<or> 2 ^ 63 \<le> v then None
         else Some (word_of_int v, dropWhile is_digit t))"

definition ref_uint :: "string \<Rightarrow> (uint64 \<times> string) option" where
  "ref_uint s =
     (let ds = takeWhile is_digit s; n = digits_val 0 ds
      in if ds = [] \<or> 2 ^ 64 \<le> n then None else Some (word_of_int n, dropWhile is_digit s))"

text \<open>The double nearest to \<open>n / 10 ^ k\<close>: 53 bits, above \<open>DBL_MAX\<close> infinite.\<close>

definition decimal_double :: "bool \<Rightarrow> int \<Rightarrow> nat \<Rightarrow> double" where
  "decimal_double neg n k =
     (let e = int (bit_len n) - int (bit_len (10 ^ k)) - 53;
          e = (if n * 2 ^ nat (- e) \<ge> 2 ^ 53 * 10 ^ k * 2 ^ nat e then e + 1 else e);
          e = (if n = 0 then 0 else max e (- 1074));
          m = round_half_even (n * 2 ^ nat (- e)) (10 ^ k * 2 ^ nat e)
      in if m * 2 ^ nat e \<ge> 2 ^ 1024 then DInf neg else DFin neg m e)"

definition ref_real :: "string \<Rightarrow> (double \<times> string) option" where
  "ref_real s =
     (let (neg, t) = sign_of s; ds = takeWhile is_digit t
      in case dropWhile is_digit t of
           [] \<Rightarrow> None
         | c # u \<Rightarrow>
             if ds = [] \<or> c \<noteq> CHR ''.'' then None
             else let es = takeWhile is_digit u in
                  Some (decimal_double neg (digits_val 0 (ds @ es)) (length es), dropWhile is_digit u))"

definition ref_rd :: "double \<Rightarrow> double" where
  "ref_rd d = (case ref_real (fixed8 d) of Some (x, _) \<Rightarrow> x | None \<Rightarrow> d)"

lemma scan_string_body: "str_body b \<Longrightarrow> scan_string (b @ CHR 0x22 # rest) = Some ((), rest)"
  by (induction b rule: str_body.induct) (auto split: if_splits)

lemma scan_string_rest: "scan_string s = Some (u, s') \<Longrightarrow> \<exists>t. t \<noteq> [] \<and> s = t @ s'"
proof (induction s rule: scan_string.induct)
  case (2 c s)
  consider "c = CHR 0x22" | d t where "c = CHR 0x5C" "s = d # t" "scan_string t = Some (u, s')"
    | "c \<noteq> CHR 0x22" "c \<noteq> CHR 0x5C" "scan_string s = Some (u, s')"
    using 2(3) by (auto split: if_splits list.splits)
  then show ?case
  proof cases
    case 1
    then show ?thesis using 2(3) by (intro exI [of _ "[c]"]) simp
  next
    case (2 d t)
    with "2.IH"(1) obtain x where "t = x @ s'" by auto
    then show ?thesis using 2 by (intro exI [of _ "c # d # x"]) simp
  next
    case 3
    with "2.IH"(2) obtain x where "s = x @ s'" by auto
    then show ?thesis by (intro exI [of _ "c # x"]) simp
  qed
qed simp

lemma delim_stops: "delim rest \<Longrightarrow> stops_digits rest"
  by (cases rest) (auto simp: delim_def is_digit_def code_of_def)

lemma takeWhile_digits:
  "\<forall>c \<in> set ds. is_digit c \<Longrightarrow> stops_digits rest \<Longrightarrow>
     takeWhile is_digit (ds @ rest) = ds \<and> dropWhile is_digit (ds @ rest) = rest"
  by (induction ds) (cases rest; auto)+

lemma sign_of_digit: "is_digit c \<Longrightarrow> sign_of (c # s) = (False, c # s)"
  by (auto simp: sign_of_def is_digit_def code_of_def)

lemma sign_of_dec:
  assumes "\<exists>c s. ds = c # s \<and> is_digit c"
  shows "sign_of ((if b then ''-'' else '''') @ ds @ rest) = (b, ds @ rest)"
proof (cases b)
  case True
  then show ?thesis by (simp add: sign_of_def)
next
  case False
  then show ?thesis using assms by (auto simp: sign_of_digit)
qed

lemma sign_of_dec_int: "sign_of (dec_int i @ rest) = (i < 0, dec_digits \<bar>i\<bar> @ rest)"
  using sign_of_dec [OF dec_digits_Cons, of "\<bar>i\<bar>" "i < 0" rest] by (simp add: dec_int_def split: if_splits)

lemma scan_dec:
  assumes "stops_digits rest"
  shows "takeWhile is_digit (dec_digits \<bar>i\<bar> @ rest) = dec_digits \<bar>i\<bar>"
    and "dropWhile is_digit (dec_digits \<bar>i\<bar> @ rest) = rest"
  using takeWhile_digits [OF dec_digits_digits assms, of "\<bar>i\<bar>"] by simp_all

lemma ref_int_dec:
  assumes "delim rest"
  shows "ref_int (dec_int i @ rest) =
    (if i < - (2 ^ 63) \<or> 2 ^ 63 \<le> i then None else Some (word_of_int i, rest))"
proof -
  have v: "digits_val 0 (dec_digits \<bar>i\<bar>) = \<bar>i\<bar>" by (simp add: digits_val_dec_digits0)
  have n: "(if i < 0 then - \<bar>i\<bar> else \<bar>i\<bar>) = i" by simp
  show ?thesis
    unfolding ref_int_def sign_of_dec_int Let_def prod.case scan_dec [OF delim_stops [OF assms]] v n
    by simp
qed

lemma ref_uint_dec:
  assumes "delim rest" and "0 \<le> i" and "i < 2 ^ 64"
  shows "ref_uint (dec_int i @ rest) = Some (word_of_int i, rest)"
  using scan_dec [OF delim_stops [OF assms(1)], of i] assms(2,3) digits_val_dec_digits0 [of i]
  by (simp add: ref_uint_def dec_int_def)

lemma ref_real_dec: "delim rest \<Longrightarrow> ref_real (dec_int i @ rest) = None"
  using scan_dec [OF delim_stops, of rest i]
  by (auto simp: ref_real_def sign_of_dec_int delim_def Let_def split: list.split)

lemma pad_digits_digits: "0 \<le> n \<Longrightarrow> \<forall>c \<in> set (pad_digits w n). is_digit c"
  using dec_digits_digits [of n] by (auto simp: pad_digits_def is_digit_def code_of_def Let_def)

lemma fixed8_shape:
  assumes "finite_double d"
  shows "\<exists>b k f. 0 \<le> k \<and> (\<forall>c \<in> set f. is_digit c) \<and>
    fixed8 d = (if b then ''-'' else '''') @ dec_digits k @ ''.'' @ f"
proof (cases d)
  case (DFin s m e)
  define k where "k = (if e \<ge> 0 then m * 2 ^ nat e * 10 ^ 8 else round_half_even (m * 10 ^ 8) (2 ^ nat (- e)))"
  have "0 \<le> round_half_even a b" if "0 \<le> a" "0 < b" for a b
    using that by (simp add: round_half_even_def Let_def pos_imp_zdiv_nonneg_iff)
  then have "0 \<le> k" using assms by (simp add: DFin k_def)
  then have "0 \<le> k div 10 ^ 8" "0 \<le> k mod 10 ^ 8" by (simp_all add: pos_imp_zdiv_nonneg_iff)
  moreover have "fixed8 d = (if s then ''-'' else '''') @ dec_digits (k div 10 ^ 8) @ ''.''
      @ pad_digits 8 (k mod 10 ^ 8)"
    unfolding DFin fixed8.simps k_def Let_def ..
  ultimately show ?thesis using pad_digits_digits by blast
qed (use assms in simp_all)

lemma ref_real_fixed8:
  assumes "finite_double d" and "delim rest"
  shows "ref_real (fixed8 d @ rest) = Some (ref_rd d, rest)"
proof -
  obtain b k f where k: "0 \<le> k" and f: "\<forall>c \<in> set f. is_digit c"
    and d: "fixed8 d = (if b then ''-'' else '''') @ dec_digits k @ ''.'' @ f"
    using fixed8_shape [OF assms(1)] by blast
  have r: "ref_real (fixed8 d @ rest) =
      Some (decimal_double b (digits_val 0 (dec_digits k @ f)) (length f), rest)"
    if "stops_digits rest" for rest
  proof -
    let ?u = "''.'' @ f @ rest"
    have "stops_digits ?u" by (simp add: is_digit_def code_of_def)
    note t = takeWhile_digits [OF dec_digits_digits [OF k] this]
    have "sign_of (fixed8 d @ rest) = (b, dec_digits k @ ?u)"
      using sign_of_dec [OF dec_digits_Cons [OF k], of b ?u] by (simp add: d)
    then show ?thesis using t takeWhile_digits [OF f that] by (simp add: ref_real_def)
  qed
  have "ref_rd d = decimal_double b (digits_val 0 (dec_digits k @ f)) (length f)"
    using r [of "[]"] by (simp add: ref_rd_def)
  then show ?thesis using r [OF delim_stops [OF assms(2)]] by simp
qed

lemma digit_num_start: "is_digit c \<Longrightarrow> num_start c"
  by (simp add: num_start_def)

lemma sign_start: "s = [] \<or> \<not> num_start (hd s) \<Longrightarrow> sign_of s = (False, s) \<and> takeWhile is_digit s = []"
  by (cases s) (auto simp: sign_of_def num_start_def)

lemma sign_rest: "sign_of s = (b, t) \<Longrightarrow> \<exists>u. s = u @ t"
  by (cases s) (auto simp: sign_of_def split: if_splits intro: exI [of _ "[c]" for c])

subsection \<open>Combinators\<close>

lemma and_then_mono [partial_function_mono]:
  assumes "mono_option F" and "\<And>a s st. mono_option (\<lambda>f. H f a s st)" and "\<And>st. mono_option (\<lambda>f. M f st)"
  shows "mono_option (\<lambda>f. and_then (F f) (\<lambda>a s st. H f a s st) (\<lambda>st. M f st))"
  unfolding and_then_def
proof (rule bind_mono [OF assms(1)])
  fix out :: outcome
  show "mono_option (\<lambda>f. case out of Hit a s st \<Rightarrow> H f a s st | Miss st \<Rightarrow> M f st
      | Raise e st \<Rightarrow> Some (Raise e st))"
    by (cases out) (simp_all add: assms option.const_mono)
qed

text \<open>Backtracking over the grammar, for any primitive parsers.\<close>

record primitives =
  lib_real :: "string \<Rightarrow> (double \<times> string) option"
  lib_int :: "string \<Rightarrow> (int64 \<times> string) option"
  lib_uint :: "string \<Rightarrow> (uint64 \<times> string) option"
  lib_string :: "string \<Rightarrow> (unit \<times> string) option"

partial_function (option) lib_parse :: "primitives \<Rightarrow> gram \<Rightarrow> string \<Rightarrow> sem_state \<Rightarrow> outcome option" where
  "lib_parse L g s st =
     (case g of
        Ch c \<Rightarrow> prim_out AChar (expect c (skip s)) st
      | StrP t \<Rightarrow> prim_out (\<lambda>_. NoAttr) (expect_str t (skip s)) st
      | Eps \<Rightarrow> Some (Hit NoAttr s st)
      | QuotedString \<Rightarrow> prim_out (\<lambda>_. NoAttr) (lib_string L (skip s)) st
      | StrictReal \<Rightarrow> prim_out AReal (lib_real L (skip s)) st
      | Int64P \<Rightarrow> prim_out AInt (lib_int L (skip s)) st
      | Uint64P \<Rightarrow> prim_out AUint (lib_uint L (skip s)) st
      | Seq g1 g2 \<Rightarrow> and_then (lib_parse L g1 s st)
          (\<lambda>_ s1 st1. and_then (lib_parse L g2 s1 st1) (\<lambda>_ s2 st2. Some (Hit NoAttr s2 st2))
             (\<lambda>st2. Some (Miss st2))) (\<lambda>st1. Some (Miss st1))
      | Alt g1 g2 \<Rightarrow> and_then (lib_parse L g1 s st)
          (\<lambda>a s1 st1. Some (Hit a s1 st1)) (\<lambda>st1. lib_parse L g2 s st1)
      | Star g1 \<Rightarrow> and_then (lib_parse L g1 s st)
          (\<lambda>_ s1 st1. lib_parse L (Star g1) s1 st1) (\<lambda>st1. Some (Hit NoAttr s st1))
      | Opt g1 \<Rightarrow> and_then (lib_parse L g1 s st)
          (\<lambda>a s1 st1. Some (Hit NoAttr s1 st1)) (\<lambda>st1. Some (Hit NoAttr s st1))
      | Call r \<Rightarrow> lib_parse L (grammar r) s st
      | Act g1 h \<Rightarrow> and_then (lib_parse L g1 (skip s) st)
          (\<lambda>a s1 st1. act_out h (skip s) a s1 st1) (\<lambda>st1. Some (Miss st1)))"

definition ref_parse :: parser where
  "ref_parse = lib_parse
     \<lparr>lib_real = ref_real, lib_int = ref_int, lib_uint = ref_uint, lib_string = ref_string\<rparr>"

interpretation ref: json_prims ref_parse ref_real ref_int ref_uint ref_string ref_rd
proof unfold_locales
  fix s s' :: string and d w
  assume "ref_real s = Some (d, s')"
  then obtain b t c u where t: "sign_of s = (b, t)" "dropWhile is_digit t = c # u"
    and s': "s' = dropWhile is_digit u"
    by (auto simp: ref_real_def Let_def split: prod.splits list.splits if_splits)
  obtain t1 where "s = t1 @ t" using sign_rest [OF t(1)] by blast
  then have "s = (t1 @ takeWhile is_digit t @ c # takeWhile is_digit u) @ s'"
    using t(2) s' takeWhile_dropWhile_id [of is_digit t] by simp
  then show "\<exists>t. t \<noteq> [] \<and> s = t @ s'" by blast
next
  fix s s' :: string and w
  assume "ref_int s = Some (w, s')"
  then obtain b t where t: "sign_of s = (b, t)" "takeWhile is_digit t \<noteq> []" and s': "s' = dropWhile is_digit t"
    by (auto simp: ref_int_def Let_def split: prod.splits if_splits)
  obtain t1 where "s = t1 @ t" using sign_rest [OF t(1)] by blast
  then have "s = (t1 @ takeWhile is_digit t) @ s'" using s' by simp
  then show "\<exists>t. t \<noteq> [] \<and> s = t @ s'" using t(2) by blast
next
  fix s s' :: string and i
  assume "ref_uint s = Some (i, s')"
  then have "s = takeWhile is_digit s @ s' \<and> takeWhile is_digit s \<noteq> []"
    by (auto simp: ref_uint_def Let_def split: if_splits)
  then show "\<exists>t. t \<noteq> [] \<and> s = t @ s'" by blast
next
  fix s s' :: string and u
  assume "ref_string s = Some (u, s')"
  then obtain c t where "s = c # t" "scan_string t = Some (u, s')"
    by (auto simp: ref_string_def split: list.splits if_splits)
  moreover from this(2) obtain x where "x \<noteq> []" "t = x @ s'" using scan_string_rest by blast
  ultimately show "\<exists>t. 2 \<le> length t \<and> s = t @ s'"
    by (intro exI [of _ "c # x"]) (cases x; simp)
next
  fix s :: string
  assume "s = [] \<or> \<not> num_start (hd s)"
  note s = sign_start [OF this]
  show "ref_real s = None" using s by (auto simp: ref_real_def split: list.split)
  show "ref_int s = None" using s by (simp add: ref_int_def)
  show "ref_uint s = None" using s by (simp add: ref_uint_def)
next
  fix s :: string
  assume "s = [] \<or> hd s \<noteq> CHR 0x22"
  then show "ref_string s = None" by (auto simp: ref_string_def split: list.split)
qed ((simp only: ref_parse_def, subst lib_parse.simps, simp) | simp add: ref_real_fixed8 ref_real_dec ref_int_dec ref_uint_dec
    ref_string_def scan_string_body)+


subsection \<open>read_string for every library that keeps the laws\<close>

context json_prims
begin

lemma json_rule_value:
  assumes "parse (Call R_value) s st = Some (Hit a s' st')"
  shows "parse (Call R_json) s st = Some (Hit a s' st')"
  using assms by (simp add: parse_Call [of R_json] parse_Alt)

lemma read_string_written:
  assumes "writable v" and "delim rest"
  shows "read_string parse (json_text p n v @ rest) v0 = Some (Inr (True, reread rd v))"
proof -
  obtain nm where "foldR run_event (events (reread rd v)) (Semantic_actions Config_vector Plain_iter v0)
      = Inr (filling [] (reread rd v) [] nm)"
    using run_events_root by blast
  then obtain a where "parse (Call R_value) ([] @ json_text p n v @ rest) (Semantic_actions Config_vector Plain_iter v0)
      = Some (Hit a rest (filling [] (reread rd v) [] nm))"
    using read_text(1) [OF assms(1)] assms(2) blank_layout(1) by blast
  then have "parse (Call R_json) (json_text p n v @ rest) (Semantic_actions Config_vector Plain_iter v0)
      = Some (Hit a rest (filling [] (reread rd v) [] nm))"
    by (intro json_rule_value) simp
  then show ?thesis
    by (simp add: read_string_def read_string_as_def read_range_def read_range_or_throw_def filling_def)
qed

lemma triple_json: "triple parse n False False Fresh (Call R_json) Done"
proof -
  have "triple parse n True True Fresh (Call R_value) Done"
    using all_values_read slot_root unfolding values_read_def by blast
  then have "triple parse n True False Fresh (grammar R_json) Done"
    unfolding grammar.simps by (rule triple_Alt [OF _ triple_throw])
  then have "triple parse n True False Fresh (Call R_json) Done" by (rule triple_Call)
  then show ?thesis by (rule triple_weaken) simp_all
qed

lemma read_string_returns: "\<exists>ok w. read_string parse s v0 = Some (Inr (ok, w))"
proof -
  have "length s < Suc (length s)" "Fresh (Semantic_actions Config_vector Plain_iter v0)" by (auto simp: Fresh_def)
  with triple_json [of "Suc (length s)"] show ?thesis
    by (cases rule: tripleE)
      (auto simp: read_string_def read_string_as_def read_range_def read_range_or_throw_def)
qed

end

subsection \<open>Properties\<close>

text \<open>
  C3: Round trip of JSON: \<open>read_string\<close> accepts what \<open>write_string\<close> prints, compact or pretty,
  alone or followed by a delimiter, and gives back a value with the same objects, arrays, names,
  strings, Booleans and integers, except that an unsigned integer below 2^63 comes back as a signed one
  and a double as what the library's real parser reads in its text of eight decimals, which is in
  general another double (1e-9 comes back as 0). Where the parser reads in these texts the doubles
  themselves and every unsigned integer needs 64 bits, exactly the value comes back.
\<close>

theorem json_roundtrip:
  assumes "json_prims parse real_p int_p uint_p string_p rd"
    and "writable v" and "delim rest" and "write_string v pretty = Inr t"
  shows "read_string parse (t @ rest) v0 = Some (Inr (True, reread rd v)) \<and>
    (\<forall>d \<in> set (doubles v). real_p (fixed8 d) = Some (rd d, [])) \<and>
    ((\<forall>d \<in> set (doubles v). real_p (fixed8 d) = Some (d, [])) \<and> typed_ints v \<longrightarrow>
      read_string parse (t @ rest) v0 = Some (Inr (True, v)))"
  using json_prims.read_string_written [OF assms(1-3), of pretty 0 v0] assms(4)
    write_string_json_text [of v pretty] json_prims.doubles_read [OF assms(1,2)]
    json_prims.reread_exact [OF assms(1,2)] by simp

text \<open>A value with an unsigned integer and with the double \<open>2 ^ -30\<close>, of which eight decimals keep nothing.\<close>

theorem json_roundtrip_witness:
  "read_string ref_parse
     (json_text True 0 (VObj [(''id'', VInt 1 True), (''a'', VArr [VReal (DFin False 1 (- 30)), VNull, VStr ''x''])]) @ [])
     VNull =
   Some (Inr (True, VObj [(''id'', VInt 1 False), (''a'', VArr [VReal (DFin False 0 0), VNull, VStr ''x''])]))"
proof -
  let ?d = "DFin False 1 (- 30)"
  let ?v = "VObj [(''id'', VInt 1 True), (''a'', VArr [VReal ?d, VNull, VStr ''x''])]"
  have w: "writable ?v" by simp
  have e: "delim []" by (simp add: delim_def)
  note r = json_roundtrip [OF ref.json_prims_axioms w e write_string_json_text, of True VNull]
  have "ref_real (fixed8 ?d) = Some (ref_rd ?d, [])" using conjunct1 [OF conjunct2 [OF r]] by simp
  moreover have "ref_real (fixed8 ?d) = Some (DFin False 0 0, [])" by code_simp
  ultimately have "ref_rd ?d = DFin False 0 0" by simp
  then show ?thesis using conjunct1 [OF r] by simp
qed

text \<open>
  C13: On any input at all \<open>read_string\<close> returns, true or false: the grammar does not loop, the
  semantic actions never fail an assertion or take the back of an empty stack, and the
  parse never misses without an exception.
\<close>

theorem read_string_total:
  assumes "json_prims parse real_p int_p uint_p string_p rd"
  shows "\<exists>ok w. read_string parse s v0 = Some (Inr (ok, w))"
  using assms by (rule json_prims.read_string_returns)

theorem read_string_total_witness:
  "\<exists>ok w. read_string ref_parse ''{} ] [[ {'' VNull = Some (Inr (ok, w))"
  by (rule read_string_total [OF ref.json_prims_axioms])

end
