(* ===== verification/JsonSimulation.thy ===== *)
theory JsonSimulation
  imports JsonLibrary "HOL-Library.Sublist"
begin

section \<open>Runs of the parser on related states\<close>

text \<open>
  The classes of \<open>json/json_spirit_reader_template.h\<close> are templates: one grammar runs with objects as
  vectors or as maps, over plain or position iterators. That the instances read alike is shown by a
  simulation: if the semantic actions take related states to related states, so does the parser,
  for every library that keeps the laws of \<open>json_prims\<close>. The rests of the text that come up are
  suffixes of the \<open>whole\<close> text. One run is related to a family of runs, so that
  what holds of all members of the family is found once.
\<close>

subsection \<open>Related outcomes\<close>

definition sim_out :: "string \<Rightarrow> (sem_state \<Rightarrow> ('i \<Rightarrow> sem_state) \<Rightarrow> bool) \<Rightarrow> (exn \<Rightarrow> ('i \<Rightarrow> exn) \<Rightarrow> bool) \<Rightarrow>
    outcome option \<Rightarrow> ('i \<Rightarrow> outcome option) \<Rightarrow> bool" where
  "sim_out whole R X m M \<longleftrightarrow>
     (case m of
        None \<Rightarrow> True
      | Some (Hit a s st) \<Rightarrow> suffix s whole \<and> (\<exists>F. R st F \<and> M = (\<lambda>i. Some (Hit a s (F i))))
      | Some (Miss st) \<Rightarrow> \<exists>F. R st F \<and> M = (\<lambda>i. Some (Miss (F i)))
      | Some (Raise e st) \<Rightarrow> \<exists>E F. X e E \<and> R st F \<and> M = (\<lambda>i. Some (Raise (E i) (F i))))"

lemma sim_out_simps [simp]:
  "sim_out whole R X None M"
  "R st F \<Longrightarrow> suffix s whole \<Longrightarrow> sim_out whole R X (Some (Hit a s st)) (\<lambda>i. Some (Hit a s (F i)))"
  "R st F \<Longrightarrow> sim_out whole R X (Some (Miss st)) (\<lambda>i. Some (Miss (F i)))"
  by (auto simp: sim_out_def)

lemma sim_out_Raise:
  "X e E \<Longrightarrow> R st F \<Longrightarrow> sim_out whole R X (Some (Raise e st)) (\<lambda>i. Some (Raise (E i) (F i)))"
  by (auto simp: sim_out_def)

lemma sim_outE:
  assumes "sim_out whole R X (Some out) M"
  obtains (Hit) a s st F where "out = Hit a s st" "suffix s whole" "R st F" "M = (\<lambda>i. Some (Hit a s (F i)))"
    | (Miss) st F where "out = Miss st" "R st F" "M = (\<lambda>i. Some (Miss (F i)))"
    | (Raise) e st E F where "out = Raise e st" "X e E" "R st F" "M = (\<lambda>i. Some (Raise (E i) (F i)))"
  using assms by (cases out) (auto simp: sim_out_def)

lemma sim_prim_out:
  assumes "R st F" and "\<And>x s. r = Some (x, s) \<Longrightarrow> suffix s whole"
  shows "sim_out whole R X (prim_out f r st) (\<lambda>i. prim_out f r (F i))"
  using assms by (cases r) (auto simp: prim_out_def)

lemma suffix_skip: "suffix (skip s) s"
  by (rule suffix_dropWhile)

lemma sim_and_then:
  assumes "sim_out whole R X m M"
    and "\<And>a s st F. R st F \<Longrightarrow> suffix s whole \<Longrightarrow> sim_out whole R X (hit a s st) (\<lambda>i. hit' a s (F i))"
    and "\<And>st F. R st F \<Longrightarrow> sim_out whole R X (miss st) (\<lambda>i. miss' (F i))"
  shows "sim_out whole R X (and_then m hit miss) (\<lambda>i. and_then (M i) hit' miss')"
proof (cases m)
  case (Some out)
  with assms(1) have "sim_out whole R X (Some out) M" by simp
  then show ?thesis
    by (cases rule: sim_outE) (simp_all add: Some assms(2,3) sim_out_Raise)
qed simp

subsection \<open>The simulation\<close>

locale related_actions =
  fixes whole :: string
    and R :: "sem_state \<Rightarrow> ('i \<Rightarrow> sem_state) \<Rightarrow> bool" and X :: "exn \<Rightarrow> ('i \<Rightarrow> exn) \<Rightarrow> bool"
  assumes act: "R st F \<Longrightarrow> suffix s whole \<Longrightarrow> skip s = s \<Longrightarrow> suffix s' whole \<Longrightarrow>
    sim_out whole R X (act_out h s a s' st) (\<lambda>i. act_out h s a s' (F i))"

definition primitives_of where
  "primitives_of real_p int_p uint_p string_p =
     \<lparr>lib_real = real_p, lib_int = int_p, lib_uint = uint_p, lib_string = string_p\<rparr>"

lemma primitives_of_simps [simp]:
  "lib_real (primitives_of r i u s) = r" "lib_int (primitives_of r i u s) = i"
  "lib_uint (primitives_of r i u s) = u" "lib_string (primitives_of r i u s) = s"
  by (simp_all add: primitives_of_def)

context json_prims
begin

abbreviation lib :: primitives where
  "lib \<equiv> primitives_of real_p int_p uint_p string_p"

lemma rest_suffix:
  assumes "suffix s whole" and "skip s = t @ s'"
  shows "suffix s' whole"
proof -
  have "suffix s' (skip s)" using assms(2) by (simp add: suffix_def)
  then show ?thesis using suffix_skip assms(1) suffix_order.trans by blast
qed

lemma prim_suffix:
  assumes "suffix s whole"
  shows "expect c (skip s) = Some (x, s') \<Longrightarrow> suffix s' whole"
    and "expect_str t (skip s) = Some (u, s') \<Longrightarrow> suffix s' whole"
    and "real_p (skip s) = Some (d, s') \<Longrightarrow> suffix s' whole"
    and "int_p (skip s) = Some (i, s') \<Longrightarrow> suffix s' whole"
    and "uint_p (skip s) = Some (n, s') \<Longrightarrow> suffix s' whole"
    and "string_p (skip s) = Some (u, s') \<Longrightarrow> suffix s' whole"
  by (auto simp: expect_Some expect_str_Some dest!: real_consumes int_consumes uint_consumes string_consumes
      intro: rest_suffix [OF assms] rest_suffix [OF assms, of "[x]" for x, simplified])

lemmas skip_suffix = rest_suffix [where t = "[]", simplified]

lemma lib_simulates:
  assumes "related_actions whole R X" and "R st F" and "suffix s whole"
  shows "sim_out whole R X (lib_parse lib g s st) (\<lambda>i. parse g s (F i))"
proof (cases "lib_parse lib g s st")
  case (Some out)
  have "\<forall>F. L = lib \<longrightarrow> R st F \<longrightarrow> suffix s whole \<longrightarrow> sim_out whole R X (Some out) (\<lambda>i. parse g s (F i))"
    if "lib_parse L g s st = Some out" for L g s st out
  proof (rule lib_parse.raw_induct [OF _ that], goal_cases)
    case (1 f L g s st out)
    have f: "sim_out whole R X (f lib g s st) (\<lambda>i. parse g s (F i))" if "L = lib" "R st F" "suffix s whole" for g s st F
      using 1(1) that by (cases "f lib g s st") auto
    show ?case
    proof (intro allI impI)
      fix F
      assume L: "L = lib" and R: "R st F" and s: "suffix s whole"
      note f = f [OF L]
      have "sim_out whole R X (case g of
        Ch c \<Rightarrow> prim_out AChar (expect c (skip s)) st
      | StrP t \<Rightarrow> prim_out (\<lambda>_. NoAttr) (expect_str t (skip s)) st
      | Eps \<Rightarrow> Some (Hit NoAttr s st)
      | QuotedString \<Rightarrow> prim_out (\<lambda>_. NoAttr) (string_p (skip s)) st
      | StrictReal \<Rightarrow> prim_out AReal (real_p (skip s)) st
      | Int64P \<Rightarrow> prim_out AInt (int_p (skip s)) st
      | Uint64P \<Rightarrow> prim_out AUint (uint_p (skip s)) st
      | Seq g1 g2 \<Rightarrow> and_then (f lib g1 s st)
          (\<lambda>_ s1 st1. and_then (f lib g2 s1 st1) (\<lambda>_ s2 st2. Some (Hit NoAttr s2 st2))
             (\<lambda>st2. Some (Miss st2))) (\<lambda>st1. Some (Miss st1))
      | Alt g1 g2 \<Rightarrow> and_then (f lib g1 s st)
          (\<lambda>a s1 st1. Some (Hit a s1 st1)) (\<lambda>st1. f lib g2 s st1)
      | Star g1 \<Rightarrow> and_then (f lib g1 s st)
          (\<lambda>_ s1 st1. f lib (Star g1) s1 st1) (\<lambda>st1. Some (Hit NoAttr s st1))
      | Opt g1 \<Rightarrow> and_then (f lib g1 s st)
          (\<lambda>a s1 st1. Some (Hit NoAttr s1 st1)) (\<lambda>st1. Some (Hit NoAttr s st1))
      | Call r \<Rightarrow> f lib (grammar r) s st
      | Act g1 h \<Rightarrow> and_then (f lib g1 (skip s) st)
          (\<lambda>a s1 st1. act_out h (skip s) a s1 st1) (\<lambda>st1. Some (Miss st1)))
        (\<lambda>i. parse g s (F i))"
      proof (cases g)
        case (Star g1)
        have "sim_out whole R X (and_then (f lib g1 s st) (\<lambda>_ s1 st1. f lib (Star g1) s1 st1)
            (\<lambda>st1. Some (Hit NoAttr s st1)))
          (\<lambda>i. and_then (parse g1 s (F i)) (\<lambda>_ s1 st1. parse (Star g1) s1 st1)
            (\<lambda>st1. Some (Hit NoAttr s st1)))"
          by (intro sim_and_then f R s) (simp_all add: s)
        then show ?thesis using Star by (simp flip: parse_Star)
      next
        case (StrP t)
        have "suffix s' whole" if "expect_str t (skip s) = Some (u, s')" for u s'
          using prim_suffix(2) [OF s that] .
        then show ?thesis unfolding StrP parse_StrP gram.case by (intro sim_prim_out R)
      next
        case (Act g1 h)
        then show ?thesis
          using related_actions.act [OF assms(1)] skip_suffix [OF s]
          by (simp add: parse_Act f R sim_and_then)
      qed (simp_all add: parse_Ch parse_StrP parse_Eps parse_QuotedString parse_StrictReal
          parse_Int64P parse_Uint64P parse_Seq parse_Alt parse_Opt parse_Call
          sim_prim_out R s f sim_and_then prim_suffix [OF s])
      then show "sim_out whole R X (Some out) (\<lambda>i. parse g s (F i))"
        unfolding 1(2) [unfolded L primitives_of_simps] .
    qed
  qed
  then show ?thesis using Some assms(2,3) by metis
qed simp

end

subsection \<open>Every instance reads like the plain one\<close>

lemma related_same: "related_actions whole (\<lambda>st F. F = (\<lambda>_ :: unit. st)) (\<lambda>e E. E = (\<lambda>_. e))"
  by unfold_locales (auto simp: act_out_def sim_out_def split: sum.split)

context json_prims
begin

lemma lib_json_prims: "json_prims (lib_parse lib) real_p int_p uint_p string_p rd"
  by unfold_locales
    ((subst lib_parse.simps, simp) | erule real_consumes int_consumes uint_consumes string_consumes |
      simp add: real_printed real_integer real_start int_printed int_overflow int_start uint_printed
        uint_start string_quoted string_start)+

text \<open>The outcome of the plain reader, and the outcomes of the readers that start from related states.\<close>

lemma json_related:
  fixes F :: "'i \<Rightarrow> sem_state"
  assumes "related_actions whole R X" and "R (Semantic_actions Config_vector Plain_iter v0) F"
    and "suffix s whole"
  obtains out where "parse (Call R_json) s (Semantic_actions Config_vector Plain_iter v0) = Some out"
    and "sim_out whole R X (Some out) (\<lambda>i. parse (Call R_json) s (F i))"
    and "\<And>st. out \<noteq> Miss st" and "\<And>e st. out = Raise e st \<Longrightarrow> \<not> is_undefined e"
proof -
  let ?st = "Semantic_actions Config_vector Plain_iter v0"
  have "length s < Suc (length s)" "Fresh ?st" by (auto simp: Fresh_def)
  note t = json_prims.triple_json [OF lib_json_prims] this
  obtain out where out: "lib_parse lib (Call R_json) s ?st = Some out"
    "\<And>st. out \<noteq> Miss st" "\<And>e st. out = Raise e st \<Longrightarrow> \<not> is_undefined e"
    using t by (cases rule: tripleE) simp_all
  have "sim_out s (\<lambda>st F. F = (\<lambda>_ :: unit. st)) (\<lambda>e E. E = (\<lambda>_. e)) (Some out)
      (\<lambda>_. parse (Call R_json) s ?st)"
    using lib_simulates [OF related_same refl suffix_order.refl, of s "Call R_json" ?st] out(1) by simp
  then have "parse (Call R_json) s ?st = Some out"
    by (cases rule: sim_outE) (auto dest: fun_cong)
  moreover have "sim_out whole R X (Some out) (\<lambda>i. parse (Call R_json) s (F i))"
    using lib_simulates [OF assms, where g = "Call R_json"] out(1) by simp
  ultimately show thesis using out(2,3) that by blast
qed

end

end
