(* ===== verification/JsonMap.thy ===== *)
theory JsonMap
  imports JsonSimulation
begin

section \<open>Objects as maps (Config_map)\<close>

text \<open>
  \<open>json/json_spirit_value.h\<close> offers a second configuration, whose objects are maps from names to
  values, and \<open>json/json_spirit_reader.cpp\<close> reads it with the same grammar and the same actions
  (\<open>mValue\<close>). A value of that configuration is a value whose objects are in the order of their names,
  without duplicates. Reading it is related to reading the vectors the program uses.
\<close>

fun as_map :: "jvalue \<Rightarrow> jvalue" where
  "as_map (VObj ms) = VObj (obj_to_map (map (\<lambda>(n, v). (n, as_map v)) ms))"
| "as_map (VArr vs) = VArr (map as_map vs)"
| "as_map v = v"

abbreviation members_as_map :: "jobject \<Rightarrow> jobject" where
  "members_as_map ms \<equiv> obj_to_map (map (\<lambda>(n, v). (n, as_map v)) ms)"

fun map_formed :: "jvalue \<Rightarrow> bool" where
  "map_formed (VObj ms) = (ordered ms \<and> (\<forall>(n, v) \<in> set ms. map_formed v))"
| "map_formed (VArr vs) = (\<forall>v \<in> set vs. map_formed v)"
| "map_formed v = True"

lemma set_map_put: "set (map_put k v m) \<subseteq> insert (k, v) (set m)"
  by (induction k v m rule: map_put.induct) auto

lemma set_obj_to_map: "set (obj_to_map ms) \<subseteq> set ms"
proof -
  have "set (fold (\<lambda>(k, v). map_put k v) ms m) \<subseteq> set ms \<union> set m" for m
    by (induction ms arbitrary: m) (use set_map_put in fastforce)+
  then show ?thesis unfolding obj_to_map_def using subset_trans by fastforce
qed

lemma map_formed_as_map: "map_formed (as_map v)"
proof (induction v rule: as_map.induct)
  case (1 ms)
  have "map_formed w" if "(n, w) \<in> set (members_as_map ms)" for n w
    using 1 subsetD [OF set_obj_to_map that] by auto
  then show ?case by (auto simp: obj_to_map_ordered)
qed auto

subsection \<open>The member that was put into a map\<close>

abbreviation put_index :: "string \<Rightarrow> jobject \<Rightarrow> nat" where
  "put_index n m \<equiv> length (takeWhile (\<lambda>(k, _). k < n) m)"

lemma put_index:
  "put_index n m < length (map_put n v m)" "map_put n v m ! put_index n m = (n, v)"
  "(map_put n v m)[put_index n m := (n, w)] = map_put n w m"
  by (induction m) (auto simp: not_less_iff_gr_or_eq)

lemma obj_to_map_simps [simp]:
  "obj_to_map [] = []" "obj_to_map (ms @ [(n, v)]) = map_put n v (obj_to_map ms)"
  by (simp_all add: obj_to_map_def)

fun map_index_of :: "frame \<Rightarrow> nat" where
  "map_index_of (FObj ms n) = put_index n (members_as_map ms)"
| "map_index_of (FArr vs) = length vs"

abbreviation map_hole :: "frame list \<Rightarrow> nat list" where
  "map_hole ctx \<equiv> map map_index_of ctx"

lemma get_at_map_hole: "get_at (map_hole ctx) (as_map (plug ctx v)) = Some (as_map v)"
  by (induction ctx v rule: plug.induct) (simp_all add: put_index nth_append)

lemma update_at_map_hole:
  "as_map w' = f (as_map w) \<Longrightarrow> update_at (map_hole ctx) f (as_map (plug ctx w)) = as_map (plug ctx w')"
  by (induction ctx w rule: plug.induct)
    (simp_all add: put_index nth_append list_update_append)

subsection \<open>Related states\<close>

text \<open>The pointers to the open compounds above the current one.\<close>

definition open_stack :: "(frame \<Rightarrow> nat) \<Rightarrow> frame list \<Rightarrow> nat list list" where
  "open_stack ix ctx = map (\<lambda>k. map ix (take k ctx)) [0..<length ctx]"

lemma open_stack_simps [simp]:
  "open_stack ix [] = []" "open_stack ix (ctx @ [f]) = open_stack ix ctx @ [map ix ctx]"
  by (simp_all add: open_stack_def)

lemma open_stack_Nil_iff [simp]: "open_stack ix ctx = [] \<longleftrightarrow> ctx = []"
  by (simp add: open_stack_def)

text \<open>The compound \<open>w\<close> is current, and open in the context \<open>ctx\<close>, in either configuration.\<close>

definition vector_state :: "frame list \<Rightarrow> jvalue \<Rightarrow> string \<Rightarrow> iter_type \<Rightarrow> sem_state" where
  "vector_state ctx w nm it =
     \<lparr>sa_value = plug ctx w, sa_current_p = Some (hole ctx), sa_stack = open_stack frame_index ctx,
      sa_name = nm, sa_config = Config_vector, sa_iter = it\<rparr>"

definition map_state :: "frame list \<Rightarrow> jvalue \<Rightarrow> string \<Rightarrow> iter_type \<Rightarrow> sem_state" where
  "map_state ctx w nm it =
     \<lparr>sa_value = as_map (plug ctx w), sa_current_p = Some (map_hole ctx),
      sa_stack = open_stack map_index_of ctx, sa_name = nm, sa_config = Config_map, sa_iter = it\<rparr>"

inductive map_related :: "sem_state \<Rightarrow> sem_state \<Rightarrow> bool" where
  fresh: "map_related (Semantic_actions Config_vector it v) (Semantic_actions Config_map it (as_map v))"
| opened: "map_related (vector_state ctx w nm it) (map_state ctx w nm it)"

abbreviation same_result :: "sem_state res \<Rightarrow> sem_state res \<Rightarrow> bool" where
  "same_result \<equiv> rel_sum (=) map_related"

lemma same_result_bind:
  "(\<And>x. m = Inr x \<Longrightarrow> same_result (f x) (g x)) \<Longrightarrow> same_result (bindR m f) (bindR m g)"
  by (cases m) auto

lemmas state_defs = vector_state_def map_state_def Semantic_actions_def

lemma add_value_related:
  assumes "map_related st st'" and "as_map v = v"
  shows "same_result (add_value v st) (add_value v st')"
  using assms(1)
proof cases
  case (fresh it v0)
  have "add_value v st = Inr (vector_state [] v [] it)" "add_value v st' = Inr (map_state [] v [] it)"
    using assms(2) by (simp_all add: fresh add_value_def add_to_current_def add_first_def state_defs)
  then show ?thesis by (simp add: map_related.opened)
next
  case (opened ctx w nm it)
  note d = opened add_value_def add_to_current_def state_defs get_at_map_hole assms(2) obj_add_def
  show ?thesis
  proof (cases w)
    case (VObj ms)
    have "add_value v st = Inr (vector_state ctx (VObj (ms @ [(nm, v)])) nm it)"
      "add_value v st' = Inr (map_state ctx (VObj (ms @ [(nm, v)])) nm it)"
      using update_at_map_hole [of "VObj (ms @ [(nm, v)])" "\<lambda>_. VObj (map_put nm v (members_as_map ms))" w ctx]
      by (simp_all add: d VObj)
    then show ?thesis by (simp add: map_related.opened)
  next
    case (VArr vs)
    have "add_value v st = Inr (vector_state ctx (VArr (vs @ [v])) nm it)"
      "add_value v st' = Inr (map_state ctx (VArr (vs @ [v])) nm it)"
      using update_at_map_hole [of "VArr (vs @ [v])" "\<lambda>_. VArr (map as_map vs @ [v])" w ctx]
      by (simp_all add: d VArr)
    then show ?thesis by (simp add: map_related.opened)
  qed (simp_all add: d)
qed

lemma begin_compound_related:
  assumes "map_related st st'" and "as_map e = e"
  shows "same_result (begin_compound e st) (begin_compound e st')"
  using assms(1)
proof cases
  case (fresh it v0)
  have "begin_compound e st = Inr (vector_state [] e [] it)" "begin_compound e st' = Inr (map_state [] e [] it)"
    using assms(2) by (simp_all add: fresh begin_compound_def add_first_def state_defs)
  then show ?thesis by (simp add: map_related.opened)
next
  case (opened ctx w nm it)
  note d = opened begin_compound_def add_to_current_def state_defs get_at_map_hole assms(2) obj_add_def
  show ?thesis
  proof (cases w)
    case (VObj ms)
    have "begin_compound e st = Inr (vector_state (ctx @ [FObj ms nm]) e nm it)"
      "begin_compound e st' = Inr (map_state (ctx @ [FObj ms nm]) e nm it)"
      using update_at_map_hole [of "VObj (ms @ [(nm, e)])" "\<lambda>_. VObj (map_put nm e (members_as_map ms))" w ctx]
      by (simp_all add: d VObj)
    then show ?thesis by (simp add: map_related.opened)
  next
    case (VArr vs)
    have "begin_compound e st = Inr (vector_state (ctx @ [FArr vs]) e nm it)"
      "begin_compound e st' = Inr (map_state (ctx @ [FArr vs]) e nm it)"
      using update_at_map_hole [of "VArr (vs @ [e])" "\<lambda>_. VArr (map as_map vs @ [e])" w ctx]
      by (simp_all add: d VArr)
    then show ?thesis by (simp add: map_related.opened)
  qed (simp_all add: d)
qed

lemma end_compound_related:
  assumes "map_related st st'"
  shows "same_result (end_compound st) (end_compound st')"
  using assms
proof cases
  case (opened ctx w nm it)
  show ?thesis
  proof (cases ctx rule: rev_cases)
    case Nil
    then show ?thesis using assms by (simp add: opened end_compound_def state_defs)
  next
    case (snoc c f)
    have "end_compound st = Inr (vector_state c (plug [f] w) nm it)"
      "end_compound st' = Inr (map_state c (plug [f] w) nm it)"
      by (simp_all add: opened snoc end_compound_def state_defs)
    then show ?thesis by (simp add: map_related.opened)
  qed
qed (simp add: end_compound_def Semantic_actions_def)

lemma new_name_related:
  assumes "map_related st st'"
  shows "same_result (new_name s st) (new_name s st')"
  using assms
proof cases
  case (opened ctx w nm it)
  have t: "type_of (as_map w) = type_of w" by (cases w) simp_all
  have "new_name s st = bindR (assert_res (type_of w = obj_type) ''assertion current_p_->type() == obj_type'')
      (\<lambda>_. bindR (read_str s) (\<lambda>name. Inr (vector_state ctx w name it)))"
    "new_name s st' = bindR (assert_res (type_of w = obj_type) ''assertion current_p_->type() == obj_type'')
      (\<lambda>_. bindR (read_str s) (\<lambda>name. Inr (map_state ctx w name it)))"
    by (simp_all add: opened new_name_def state_defs get_at_map_hole t)
  then show ?thesis by (auto intro!: same_result_bind simp: map_related.opened)
qed (simp add: new_name_def Semantic_actions_def)

lemma iter_related: "map_related st st' \<Longrightarrow> sa_iter st' = sa_iter st"
  by (induction rule: map_related.induct) (simp_all add: state_defs)

lemma do_action_related:
  assumes "map_related st st'"
  shows "same_result (do_action h a i t st) (do_action h a i t st')"
  by (cases h)
    (auto simp: on_char_def bad_attr_def action_defs iter_related [OF assms] split: attr.split
      intro!: same_result_bind add_value_related begin_compound_related end_compound_related
        new_name_related assms)

lemma related_map: "related_actions whole (\<lambda>st F. map_related st (F ())) (\<lambda>e E. E = (\<lambda>_ :: unit. e))"
proof
  fix h s a s' st and F :: "unit \<Rightarrow> sem_state"
  assume r: "map_related st (F ())" and s': "suffix s' whole"
  have F: "(\<lambda>i. act_out h s a s' (F i)) = (\<lambda>_. act_out h s a s' (F ()))" by auto
  from do_action_related [OF r, of h a s "consumed s s'"]
  show "sim_out whole (\<lambda>st F. map_related st (F ())) (\<lambda>e E. E = (\<lambda>_. e))
      (act_out h s a s' st) (\<lambda>i. act_out h s a s' (F i))"
    unfolding F using r s' by (cases rule: rel_sum.cases) (auto simp: act_out_def sim_out_def)
qed

lemma value_related: "map_related st st' \<Longrightarrow> sa_value st' = as_map (sa_value st)"
  by (induction rule: map_related.induct) (simp_all add: state_defs)

lemma read_string_outcome:
  "read_string_as cfg parse s v = map_option (\<lambda>out. case out of
       Hit _ _ st \<Rightarrow> Inr (True, sa_value st)
     | Miss st \<Rightarrow> Inl (Undefined ''assertion false'')
     | Raise e st \<Rightarrow> if is_undefined e then Inl e else Inr (False, sa_value st))
     (parse (Call R_json) s (Semantic_actions cfg Plain_iter v))"
  unfolding read_string_as_def read_range_def read_range_or_throw_def
  by (cases "parse (Call R_json) s (Semantic_actions cfg Plain_iter v)") (auto split: outcome.split)

subsection \<open>Properties\<close>

text \<open>
  C25: Objects as maps: on every text the reader of \<open>mValue\<close> returns what the reader of \<open>Value\<close> returns,
  and the value it leaves is the map form of the vector one: under each name the value that came last in
  the text, in the order of the names, at every depth. Like that one it never fails an assertion, and no
  pointer it keeps to an open object or array is stale.
\<close>

theorem map_config_read:
  assumes "json_prims parse real_p int_p uint_p string_p rd"
  shows "\<exists>ok w. read_string parse s v0 = Some (Inr (ok, w)) \<and>
    read_string_as Config_map parse s (as_map v0) = Some (Inr (ok, as_map w)) \<and> map_formed (as_map w)"
proof -
  let ?F = "\<lambda>_ :: unit. Semantic_actions Config_map Plain_iter (as_map v0)"
  from json_prims.json_related [OF assms related_map _ suffix_order.refl, of v0 ?F s]
  obtain out where out: "parse (Call R_json) s (Semantic_actions Config_vector Plain_iter v0) = Some out"
    "sim_out s (\<lambda>st F. map_related st (F ())) (\<lambda>e E. E = (\<lambda>_. e)) (Some out) (\<lambda>i. parse (Call R_json) s (?F i))"
    "\<And>st. out \<noteq> Miss st" "\<And>e st. out = Raise e st \<Longrightarrow> \<not> is_undefined e"
    by (auto intro: map_related.fresh)
  from out(2) show ?thesis
    by (cases rule: sim_outE)
      (auto simp: read_string_def read_string_outcome out(1,3,4) value_related map_formed_as_map dest!: fun_cong)
qed

theorem map_config_read_witness:
  "read_string_as Config_map ref_parse
     (json_text False 0 (VObj [(''b'', VNull), (''a'', VNull), (''b'', VBool True)])) VNull = Some (Inr (True, VObj [(''a'', VNull), (''b'', VBool True)]))"
proof -
  let ?v = "VObj [(''b'', VNull), (''a'', VNull), (''b'', VBool True)]"
  let ?t = "json_text False 0 ?v"
  have "read_string ref_parse (?t @ []) VNull = Some (Inr (True, reread ref_rd ?v))"
    by (rule ref.read_string_written) (simp_all add: delim_def)
  moreover have "as_map (reread ref_rd ?v) = VObj [(''a'', VNull), (''b'', VBool True)]"
    by (simp add: obj_to_map_def)
  ultimately show ?thesis using map_config_read [OF ref.json_prims_axioms, of ?t VNull] by auto
qed

end
