(* ===== verification/JsonStreams.thy ===== *)
theory JsonStreams
  imports JsonMap
begin

section \<open>Streams and error positions\<close>

text \<open>
  The other readers: those that throw, with the position of the error, and those that read from a
  stream (\<open>json/json_spirit_reader_template.h\<close>, \<open>json/json_spirit_stream_reader.h\<close>,
  \<open>json/json_spirit_error_position.h\<close>, \<open>json/json_spirit_reader.cpp\<close>), and the writers to streams
  (\<open>json/json_spirit_writer.cpp\<close>). The position iterator and the multi-pass iterator are Boost.Spirit's:
  \<open>posn\<close> is the line and the column after a text, and a multi-pass iterator gives the characters a
  stream iterator reads. How far a stream is read ahead is left out, so what is left of it is not modelled,
  except in the stream readers, which keep their iterators. The readers of wide strings are the same templates
  over another character type.
\<close>

subsection \<open>Error positions\<close>

definition Error_position_default :: Error_position where
  "Error_position_default = \<lparr>ep_line = 0, ep_column = 0, ep_reason = []\<rparr>"

definition Error_position_at :: "32 word \<Rightarrow> 32 word \<Rightarrow> string \<Rightarrow> Error_position" where
  "Error_position_at l c reason = \<lparr>ep_line = l, ep_column = c, ep_reason = reason\<rparr>"

text \<open>\<open>operator==\<close>; \<open>same\<close> is \<open>this == &lhs\<close>.\<close>

definition error_position_eq :: "bool \<Rightarrow> Error_position \<Rightarrow> Error_position \<Rightarrow> bool" where
  "error_position_eq same e lhs =
     (if same then True
      else ep_reason e = ep_reason lhs \<and> ep_line e = ep_line lhs \<and> ep_column e = ep_column lhs)"

lemma error_position_eq_iff: "error_position_eq same e e' \<longleftrightarrow> same \<or> e = e'"
  by (auto simp: error_position_eq_def)

type_synonym posn = "string \<Rightarrow> 32 word \<times> 32 word"

definition position_iterator :: "posn \<Rightarrow> string \<Rightarrow> iter_type" where
  "position_iterator posn s = Position_iter (\<lambda>i. posn (consumed s i))"

definition add_posn_iter_and_read_range_or_throw ::
    "config \<Rightarrow> posn \<Rightarrow> parser \<Rightarrow> string \<Rightarrow> jvalue \<Rightarrow> (unit res \<times> jvalue) option" where
  "add_posn_iter_and_read_range_or_throw cfg posn parse s v =
     map_option (\<lambda>(r, w). (bindR r (\<lambda>_. Inr ()), w))
       (read_range_or_throw cfg (position_iterator posn s) parse s v)"

definition read_string_or_throw ::
    "config \<Rightarrow> posn \<Rightarrow> parser \<Rightarrow> string \<Rightarrow> jvalue \<Rightarrow> (unit res \<times> jvalue) option" where
  "read_string_or_throw = add_posn_iter_and_read_range_or_throw"

subsection \<open>Streams\<close>

text \<open>
  An input stream: the characters it holds, and its flag \<open>skipws\<close>. A stream iterator reads characters
  with \<open>operator>>\<close>, which leaves out white space if the flag is set; \<open>Multi_pass_iters\<close> clears it.
\<close>

record istream =
  is_chars :: string
  is_skipws :: bool

definition stream_iterator :: "istream \<Rightarrow> string" where
  "stream_iterator ist = (if is_skipws ist then filter (\<lambda>c. \<not> is_space c) (is_chars ist) else is_chars ist)"

definition Multi_pass_iters :: "istream \<Rightarrow> string" where
  "Multi_pass_iters ist = stream_iterator (ist\<lparr>is_skipws := False\<rparr>)"

definition read_stream :: "config \<Rightarrow> parser \<Rightarrow> istream \<Rightarrow> jvalue \<Rightarrow> (bool \<times> jvalue) res option" where
  "read_stream cfg parse ist v =
     map_option (\<lambda>r. bindR r (\<lambda>(ok, _, w). Inr (ok, w))) (read_range cfg parse (Multi_pass_iters ist) v)"

definition read_stream_or_throw ::
    "config \<Rightarrow> posn \<Rightarrow> parser \<Rightarrow> istream \<Rightarrow> jvalue \<Rightarrow> (unit res \<times> jvalue) option" where
  "read_stream_or_throw cfg posn parse ist v =
     add_posn_iter_and_read_range_or_throw cfg posn parse (Multi_pass_iters ist) v"

subsection \<open>Several values in one stream\<close>

text \<open>\<open>Stream_reader\<close> keeps the iterator from one value to the next.\<close>

definition Stream_reader :: "istream \<Rightarrow> string" where
  "Stream_reader ist = Multi_pass_iters ist"

definition read_next :: "config \<Rightarrow> parser \<Rightarrow> jvalue \<Rightarrow> string \<Rightarrow> (bool \<times> string \<times> jvalue) res option" where
  "read_next cfg parse v iters = read_range cfg parse iters v"

text \<open>
  \<open>Stream_reader_thrower\<close>: \<open>iters_\<close> and \<open>posn_begin_\<close>, a position iterator that was made at the
  begin of \<open>iters_\<close>.
\<close>

record Stream_reader_thrower =
  srt_iters :: string
  srt_posn_begin :: string

definition new_thrower :: "istream \<Rightarrow> Stream_reader_thrower" where
  "new_thrower ist =
     (let iters = Multi_pass_iters ist in \<lparr>srt_iters = iters, srt_posn_begin = iters\<rparr>)"

definition read_next_or_throw :: "config \<Rightarrow> posn \<Rightarrow> parser \<Rightarrow> jvalue \<Rightarrow> Stream_reader_thrower \<Rightarrow>
    (unit res \<times> jvalue \<times> Stream_reader_thrower) option" where
  "read_next_or_throw cfg posn parse v r =
     map_option (\<lambda>(res, w). case res of
         Inr stop \<Rightarrow> (Inr (), w, r\<lparr>srt_posn_begin := stop\<rparr>)
       | Inl e \<Rightarrow> (Inl e, w, r))
     (read_range_or_throw cfg (position_iterator posn (srt_iters r)) parse (srt_posn_begin r) v)"

subsection \<open>The library's functions\<close>

text \<open>\<open>read\<close> and \<open>read_or_throw\<close> of a string, of a stream and of a range, for \<open>Value\<close> and for \<open>mValue\<close>.\<close>

definition json_read :: "parser \<Rightarrow> string \<Rightarrow> jvalue \<Rightarrow> (bool \<times> jvalue) res option" where
  "json_read parse s v = read_string_as Config_vector parse s v"

definition json_read_or_throw :: "posn \<Rightarrow> parser \<Rightarrow> string \<Rightarrow> jvalue \<Rightarrow> (unit res \<times> jvalue) option" where
  "json_read_or_throw posn parse s v = read_string_or_throw Config_vector posn parse s v"

definition json_read_is :: "parser \<Rightarrow> istream \<Rightarrow> jvalue \<Rightarrow> (bool \<times> jvalue) res option" where
  "json_read_is parse ist v = read_stream Config_vector parse ist v"

definition json_read_is_or_throw :: "posn \<Rightarrow> parser \<Rightarrow> istream \<Rightarrow> jvalue \<Rightarrow> (unit res \<times> jvalue) option" where
  "json_read_is_or_throw posn parse ist v = read_stream_or_throw Config_vector posn parse ist v"

definition json_read_range :: "parser \<Rightarrow> string \<Rightarrow> jvalue \<Rightarrow> (bool \<times> string \<times> jvalue) res option" where
  "json_read_range parse s v = read_range Config_vector parse s v"

definition json_read_range_or_throw :: "parser \<Rightarrow> string \<Rightarrow> jvalue \<Rightarrow> (unit res \<times> string \<times> jvalue) option" where
  "json_read_range_or_throw parse s v =
     map_option (\<lambda>(r, w). case r of Inr stop \<Rightarrow> (Inr (), stop, w) | Inl e \<Rightarrow> (Inl e, s, w))
       (read_range_or_throw Config_vector Plain_iter parse s v)"

definition mjson_read :: "parser \<Rightarrow> string \<Rightarrow> jvalue \<Rightarrow> (bool \<times> jvalue) res option" where
  "mjson_read parse s v = read_string_as Config_map parse s v"

definition mjson_read_or_throw :: "posn \<Rightarrow> parser \<Rightarrow> string \<Rightarrow> jvalue \<Rightarrow> (unit res \<times> jvalue) option" where
  "mjson_read_or_throw posn parse s v = read_string_or_throw Config_map posn parse s v"

definition mjson_read_is :: "parser \<Rightarrow> istream \<Rightarrow> jvalue \<Rightarrow> (bool \<times> jvalue) res option" where
  "mjson_read_is parse ist v = read_stream Config_map parse ist v"

definition mjson_read_is_or_throw :: "posn \<Rightarrow> parser \<Rightarrow> istream \<Rightarrow> jvalue \<Rightarrow> (unit res \<times> jvalue) option" where
  "mjson_read_is_or_throw posn parse ist v = read_stream_or_throw Config_map posn parse ist v"

definition mjson_read_range :: "parser \<Rightarrow> string \<Rightarrow> jvalue \<Rightarrow> (bool \<times> string \<times> jvalue) res option" where
  "mjson_read_range parse s v = read_range Config_map parse s v"

definition mjson_read_range_or_throw :: "parser \<Rightarrow> string \<Rightarrow> jvalue \<Rightarrow> (unit res \<times> string \<times> jvalue) option" where
  "mjson_read_range_or_throw parse s v =
     map_option (\<lambda>(r, w). case r of Inr stop \<Rightarrow> (Inr (), stop, w) | Inl e \<Rightarrow> (Inl e, s, w))
       (read_range_or_throw Config_map Plain_iter parse s v)"

text \<open>\<open>write\<close> and \<open>write_formatted\<close> to a stream, and those of \<open>mValue\<close>.\<close>

definition json_write_os :: "jvalue \<Rightarrow> string \<Rightarrow> string res" where
  "json_write_os v os = write_stream v os False"

definition json_write_formatted_os :: "jvalue \<Rightarrow> string \<Rightarrow> string res" where
  "json_write_formatted_os v os = write_stream v os True"

definition mjson_write_os :: "jvalue \<Rightarrow> string \<Rightarrow> string res" where
  "mjson_write_os v os = write_stream v os False"

definition mjson_write_formatted_os :: "jvalue \<Rightarrow> string \<Rightarrow> string res" where
  "mjson_write_formatted_os v os = write_stream v os True"

definition mjson_write :: "jvalue \<Rightarrow> string res" where
  "mjson_write v = write_string v False"

definition mjson_write_formatted :: "jvalue \<Rightarrow> string res" where
  "mjson_write_formatted v = write_string v True"

subsection \<open>The iterator only changes what is thrown\<close>

abbreviation with_iter :: "iter_type \<Rightarrow> sem_state \<Rightarrow> sem_state" where
  "with_iter it st \<equiv> st\<lparr>sa_iter := it\<rparr>"

abbreviation lift_iter :: "iter_type \<Rightarrow> sem_state res \<Rightarrow> sem_state res" where
  "lift_iter it \<equiv> map_sum (\<lambda>e. e) (with_iter it)"

lemma bindR_lift: "bindR m (\<lambda>x. lift_iter it (f x)) = lift_iter it (bindR m f)"
  by (cases m) simp_all

lemma add_to_current_iter: "add_to_current v (with_iter it st) =
    map_sum (\<lambda>e. e) (\<lambda>(p, st). (p, with_iter it st)) (add_to_current v st)"
  by (auto simp: add_to_current_def add_first_def split: option.split jvalue.split prod.split)

lemma action_iter:
  "add_value v (with_iter it st) = lift_iter it (add_value v st)"
  "begin_compound v (with_iter it st) = lift_iter it (begin_compound v st)"
  "end_compound (with_iter it st) = lift_iter it (end_compound st)"
  "new_name s (with_iter it st) = lift_iter it (new_name s st)"
proof -
  have s: "with_iter it st\<lparr>sa_stack := x\<rparr> = with_iter it (st\<lparr>sa_stack := x\<rparr>)" for x by simp
  show "add_value v (with_iter it st) = lift_iter it (add_value v st)"
    by (cases "add_to_current v st") (auto simp: add_value_def add_to_current_iter)
  show "begin_compound v (with_iter it st) = lift_iter it (begin_compound v st)"
    unfolding begin_compound_def
    by (cases "sa_current_p st"; cases "add_to_current v (st\<lparr>sa_stack := sa_stack st @ [the (sa_current_p st)]\<rparr>)")
      (auto simp: add_to_current_iter s add_first_def simp del: sem_state.update_convs)
  show "end_compound (with_iter it st) = lift_iter it (end_compound st)"
    by (simp add: end_compound_def)
  show "new_name s (with_iter it st) = lift_iter it (new_name s st)"
    by (cases st) (auto simp: new_name_def bindR_lift [symmetric] split: option.split)
qed

lemma do_action_iter:
  "(\<nexists>r. h = H_throw r) \<Longrightarrow> do_action h a i t (with_iter it st) = lift_iter it (do_action h a i t st)"
  by (cases h) (auto simp: on_char_def bad_attr_def action_defs action_iter bindR_lift split: attr.split)

subsection \<open>Runs over position iterators\<close>

text \<open>What the actions throw apart from the errors of the grammar is undefined behaviour.\<close>

lemma action_errors:
  assumes "do_action h a i t st = Inl e" and "\<nexists>r. h = H_throw r"
  shows "is_undefined e"
  using assms
  by (cases h)
    (auto simp: on_char_def bad_attr_def action_defs add_value_def add_to_current_def add_first_def
      begin_compound_def end_compound_def new_name_def assert_res_def read_str_def
      split: attr.splits option.splits jvalue.splits prod.splits if_splits)

definition positioned :: "string \<Rightarrow> sem_state \<Rightarrow> (posn \<Rightarrow> sem_state) \<Rightarrow> bool" where
  "positioned whole st F \<longleftrightarrow> sa_iter st = Plain_iter \<and>
     F = (\<lambda>posn. with_iter (position_iterator posn whole) st)"

text \<open>
  The error is thrown at a point of the text that is not white space, or at its end, and carries the
  position of that point.
\<close>

definition error_at :: "string \<Rightarrow> string \<Rightarrow> string \<Rightarrow> exn \<Rightarrow> (posn \<Rightarrow> exn) \<Rightarrow> bool" where
  "error_at pre rest reason e E \<longleftrightarrow> (rest = [] \<or> \<not> is_space (hd rest)) \<and> e = ParseError reason \<and>
     E = (\<lambda>posn. PositionError (Error_position_at (fst (posn pre)) (snd (posn pre)) reason))"

definition position_of :: "string \<Rightarrow> exn \<Rightarrow> (posn \<Rightarrow> exn) \<Rightarrow> bool" where
  "position_of whole e E \<longleftrightarrow> is_undefined e \<and> E = (\<lambda>_. e) \<or>
     (\<exists>pre rest reason. whole = pre @ rest \<and> error_at pre rest reason e E)"

lemma skip_fixed: "skip s = s \<Longrightarrow> s = [] \<or> \<not> is_space (hd s)"
  by (metis hd_dropWhile)

lemma related_positions: "related_actions whole (positioned whole) (position_of whole)"
proof
  fix h s a s' st and F :: "posn \<Rightarrow> sem_state"
  assume r: "positioned whole st F" and s: "suffix s whole" "skip s = s" "suffix s' whole"
  then have it: "sa_iter st = Plain_iter" and F: "F = (\<lambda>posn. with_iter (position_iterator posn whole) st)"
    by (simp_all add: positioned_def)
  show "sim_out whole (positioned whole) (position_of whole)
      (act_out h s a s' st) (\<lambda>i. act_out h s a s' (F i))"
  proof (cases "\<exists>r. h = H_throw r")
    case True
    then obtain reason where h: "h = H_throw reason" by blast
    obtain pre where pre: "whole = pre @ s" using s(1) by (auto simp: suffix_def)
    have "error_at pre s reason (ParseError reason)
        (\<lambda>posn. throw_error (position_iterator posn whole) s reason)"
      using skip_fixed [OF s(2)]
      by (auto simp: error_at_def position_iterator_def pre Error_position_at_def split: prod.split)
    then have p: "position_of whole (ParseError reason)
        (\<lambda>posn. throw_error (position_iterator posn whole) s reason)"
      using pre unfolding position_of_def by blast
    show ?thesis
      using sim_out_Raise [where R = "positioned whole" and X = "position_of whole", OF p r] by (simp add: act_out_def h it F)
  next
    case False
    note do_iter = do_action_iter [OF False]
    show ?thesis
    proof (cases "do_action h a s (consumed s s') st")
      case (Inl e)
      then have p: "position_of whole e (\<lambda>_ :: posn. e)"
        using action_errors [OF _ False] by (simp add: position_of_def)
      show ?thesis
        using sim_out_Raise [where R = "positioned whole" and X = "position_of whole", OF p r] by (simp add: act_out_def F do_iter Inl)
    next
      case (Inr st')
      have "with_iter Plain_iter st = st" using it by (cases st) simp
      with do_iter [of a s "consumed s s'" Plain_iter st] Inr have "with_iter Plain_iter st' = st'" by simp
      moreover have "sa_iter (with_iter Plain_iter st') = Plain_iter" by simp
      ultimately have "sa_iter st' = Plain_iter" by (rule subst)
      then have "positioned whole st' (\<lambda>posn. with_iter (position_iterator posn whole) st')"
        by (simp add: positioned_def)
      then show ?thesis using s(3) by (simp add: act_out_def F do_iter Inr)
    qed
  qed
qed

subsection \<open>What the readers of a range return\<close>

context json_prims
begin

lemma range_cases:
  assumes "whole = dn @ s"
  obtains (Ok) stop w where "read_range Config_vector parse s v = Some (Inr (True, stop, w))"
      "suffix stop s"
      "\<forall>posn. read_range_or_throw Config_vector (position_iterator posn whole) parse s v = Some (Inr stop, w)"
    | (Error) pre rest reason E w where "read_range Config_vector parse s v = Some (Inr (False, s, w))"
      "whole = pre @ rest" "error_at pre rest reason (ParseError reason) E"
      "read_range_or_throw Config_vector Plain_iter parse s v = Some (Inl (ParseError reason), w)"
      "\<forall>posn. read_range_or_throw Config_vector (position_iterator posn whole) parse s v = Some (Inl (E posn), w)"
proof -
  let ?F = "\<lambda>posn. Semantic_actions Config_vector (position_iterator posn whole) v"
  have p: "positioned whole (Semantic_actions Config_vector Plain_iter v) ?F"
    by (simp add: positioned_def Semantic_actions_def)
  have "suffix s whole" using assms by (simp add: suffix_def)
  then obtain out where
    out: "parse (Call R_json) s (Semantic_actions Config_vector Plain_iter v) = Some out"
      "sim_out whole (positioned whole) (position_of whole) (Some out) (\<lambda>i. parse (Call R_json) s (?F i))"
      "\<And>st. out \<noteq> Miss st" "\<And>e st. out = Raise e st \<Longrightarrow> \<not> is_undefined e"
    by (rule json_related [where R = "positioned whole" and F = ?F, OF related_positions p]) blast
  have len: "ends parse (Call R_json) s (Semantic_actions Config_vector Plain_iter v) False False Done"
    using triple_json [of "Suc (length s)"] by (auto simp: triple_def Fresh_def)
  from out(2) show thesis
  proof (cases rule: sim_outE)
    case (Hit a stop st F)
    have "length stop \<le> length s" using len out(1) Hit(1) by (simp add: ends_def)
    then have "suffix stop s"
      using Hit(2) assms by (metis suffixI suffix_length_suffix)
    moreover have "parse (Call R_json) s (?F posn) = Some (Hit a stop (F posn))" for posn
      using Hit(4) by (rule fun_cong)
    moreover have "sa_value (F posn) = sa_value st" for posn using Hit(3) by (simp add: positioned_def)
    ultimately show thesis
      using out(1) unfolding Hit(1)
      by (intro Ok [of stop "sa_value st"]) (simp_all add: read_range_def read_range_or_throw_def)
  next
    case (Raise e st E F)
    then have "\<not> is_undefined e" using out(4) by simp
    with Raise(2) obtain pre rest reason where e: "whole = pre @ rest" "error_at pre rest reason e E"
      by (auto simp: position_of_def)
    then have "e = ParseError reason" by (simp add: error_at_def)
    moreover have "parse (Call R_json) s (?F posn) = Some (Raise (E posn) (F posn))" for posn
      using Raise(4) by (rule fun_cong)
    moreover have "sa_value (F posn) = sa_value st" for posn using Raise(3) by (simp add: positioned_def)
    ultimately show thesis
      using out(1) e unfolding Raise(1)
      by (intro Error [of "sa_value st" pre rest reason E]) (simp_all add: read_range_def read_range_or_throw_def)
  qed (use out(3) in simp)
qed

end

subsection \<open>A stream of values\<close>

text \<open>
  Values one after the other, each after some white space, compact or pretty, and white space at the
  end. A number needs a delimiter after it; all other values may touch the next one.
\<close>

fun stream_text :: "bool \<Rightarrow> (string \<times> jvalue) list \<Rightarrow> string \<Rightarrow> string" where
  "stream_text p [] tail = tail"
| "stream_text p ((ws, v) # items) tail = ws @ json_text p 0 v @ stream_text p items tail"

fun separated :: "bool \<Rightarrow> (string \<times> jvalue) list \<Rightarrow> string \<Rightarrow> bool" where
  "separated p [] tail = blank tail"
| "separated p ((ws, v) # items) tail =
     (blank ws \<and> writable v \<and> (is_number v \<longrightarrow> delim (stream_text p items tail)) \<and> separated p items tail)"

text \<open>Reading \<open>n\<close> values in turn, until one is refused.\<close>

primrec read_values :: "nat \<Rightarrow> parser \<Rightarrow> string \<Rightarrow> (jvalue list \<times> string) option" where
  "read_values 0 parse r = Some ([], r)"
| "read_values (Suc n) parse r =
     (case read_next Config_vector parse VNull r of
        Some (Inr (True, r, w)) \<Rightarrow> map_option (\<lambda>(ws, r). (w # ws, r)) (read_values n parse r)
      | _ \<Rightarrow> None)"

primrec read_values_or_throw :: "nat \<Rightarrow> posn \<Rightarrow> parser \<Rightarrow> Stream_reader_thrower \<Rightarrow>
    (jvalue list \<times> Stream_reader_thrower) option" where
  "read_values_or_throw 0 posn parse r = Some ([], r)"
| "read_values_or_throw (Suc n) posn parse r =
     (case read_next_or_throw Config_vector posn parse VNull r of
        Some (Inr _, w, r) \<Rightarrow> map_option (\<lambda>(ws, r). (w # ws, r)) (read_values_or_throw n posn parse r)
      | _ \<Rightarrow> None)"

context json_prims
begin

lemma read_range_text:
  assumes "writable v" and "blank ws" and "is_number v \<longrightarrow> delim rest"
  shows "read_range Config_vector parse (ws @ json_text p n v @ rest) v0 =
    Some (Inr (True, rest, reread rd v))"
proof -
  obtain nm where "foldR run_event (events (reread rd v)) (Semantic_actions Config_vector Plain_iter v0)
      = Inr (filling [] (reread rd v) [] nm)"
    using run_events_root by blast
  then obtain a where "parse (Call R_value) (ws @ json_text p n v @ rest)
      (Semantic_actions Config_vector Plain_iter v0) = Some (Hit a rest (filling [] (reread rd v) [] nm))"
    using read_text(1) [OF assms(1)] assms(2,3) by blast
  then show ?thesis
    using json_rule_value by (simp add: read_range_def read_range_or_throw_def filling_def)
qed

lemma value_end:
  assumes "skip s = []"
  shows "parse (Call R_value) s st = Some (Miss st)"
  by (simp add: value_alt parse_Act parse_Call [of R_string] parse_Call [of R_number] parse_Call [of R_object]
      parse_Call [of R_array] parse_Seq parse_Alt parse_QuotedString parse_StrictReal parse_Int64P
      parse_Uint64P parse_Ch parse_StrP assms string_start real_start int_start uint_start)

lemma blank_skip: "blank ws \<Longrightarrow> skip ws = []"
  by (simp add: blank_def)

lemma range_end:
  assumes "blank s"
  shows "read_range_or_throw cfg it parse s v = Some (Inl (throw_error it [] ''not a value''), v)"
  using value_end [OF blank_skip [OF assms]]
  by (simp add: read_range_or_throw_def parse_Call [of R_json] parse_Alt parse_Act parse_Eps act_out_def
      blank_skip [OF assms] Semantic_actions_def)

lemma range_end_plain: "blank s \<Longrightarrow> read_range cfg parse s v = Some (Inr (False, s, v))"
  by (simp add: read_range_def range_end)

lemma values_read:
  "separated p items tail \<Longrightarrow> read_values (length items) parse (stream_text p items tail) =
     Some (map (\<lambda>(ws, v). reread rd v) items, tail)"
  by (induction p items tail rule: separated.induct) (auto simp: read_next_def read_range_text)

lemma values_read_or_throw:
  assumes "separated p items tail"
  shows "srt_iters r = dn @ srt_posn_begin r \<Longrightarrow> srt_posn_begin r = stream_text p items tail \<Longrightarrow>
    read_values_or_throw (length items) posn parse r =
      Some (map (\<lambda>(ws, v). reread rd v) items, r\<lparr>srt_posn_begin := tail\<rparr>)"
  using assms
proof (induction p items tail arbitrary: r dn rule: separated.induct)
  case (1 p tail)
  then show ?case by (cases r) simp
next
  case (2 p ws v items tail)
  let ?s = "stream_text p items tail"
  have t: "read_range Config_vector parse (srt_posn_begin r) VNull = Some (Inr (True, ?s, reread rd v))"
    using 2(3,4) by (simp add: read_range_text)
  have "read_range_or_throw Config_vector (position_iterator posn (srt_iters r)) parse (srt_posn_begin r) VNull =
      Some (Inr ?s, reread rd v)"
    using 2(2) t by (cases rule: range_cases [of "srt_iters r" dn "srt_posn_begin r" VNull]) simp_all
  moreover have "read_values_or_throw (length items) posn parse (r\<lparr>srt_posn_begin := ?s\<rparr>) =
      Some (map (\<lambda>(ws, v). reread rd v) items, r\<lparr>srt_posn_begin := ?s\<rparr>\<lparr>srt_posn_begin := tail\<rparr>)"
    using 2(2,3,4) by (intro 2(1) [of _ "dn @ ws @ json_text p 0 v"]) simp_all
  ultimately show ?case by (simp add: read_next_or_throw_def)
qed

end

subsection \<open>Properties\<close>

text \<open>
  C27: The readers that throw: on every input \<open>read_or_throw\<close> returns if and only if \<open>read\<close> returns true, and
  with the same value. Otherwise it throws an \<open>Error_position\<close>, whose reason is the text a plain iterator
  would have thrown, and whose line and column are those of one point of the text, where the grammar
  could not go on: the same point however lines and columns are counted, and never white space.
\<close>

theorem read_or_throw_positions:
  assumes "json_prims parse real_p int_p uint_p string_p rd"
  shows "(\<exists>w. json_read parse s v = Some (Inr (True, w)) \<and>
      (\<forall>posn. json_read_or_throw posn parse s v = Some (Inr (), w))) \<or>
    (\<exists>w pre rest reason. json_read parse s v = Some (Inr (False, w)) \<and>
      s = pre @ rest \<and> (rest = [] \<or> \<not> is_space (hd rest)) \<and>
      json_read_range_or_throw parse s v = Some (Inl (ParseError reason), s, w) \<and>
      (\<forall>posn. json_read_or_throw posn parse s v =
        Some (Inl (PositionError (Error_position_at (fst (posn pre)) (snd (posn pre)) reason)), w)))"
proof -
  note defs = json_read_def json_read_or_throw_def json_read_range_or_throw_def read_string_as_def
    read_string_or_throw_def add_posn_iter_and_read_range_or_throw_def
  show ?thesis
  proof (rule json_prims.range_cases [OF assms, of s "[]" s v], goal_cases)
    case (3 pre rest reason E w)
    then have "json_read_or_throw posn parse s v =
        Some (Inl (PositionError (Error_position_at (fst (posn pre)) (snd (posn pre)) reason)), w)" for posn
      by (simp add: defs error_at_def)
    with 3 show ?case by (auto simp: defs error_at_def intro!: exI [of _ w])
  qed (auto simp: defs)
qed


text \<open>Lines and columns from 1, where only a line feed ends a line.\<close>

definition count_posn :: posn where
  "count_posn t = fold (\<lambda>c (l, k). if c = CHR 0x0A then (l + 1, 1) else (l, k + 1)) t (1, 1)"

theorem read_or_throw_positions_witness:
  "\<exists>reason. json_read_or_throw count_posn ref_parse [CHR 0x0A, CHR '' ''] VNull =
     Some (Inl (PositionError (Error_position_at 2 2 reason)), VNull)"
proof -
  define s where "s = [CHR 0x0A, CHR '' '']"
  have b: "blank s" by (simp add: s_def blank_def is_space_def code_of_def)
  have "json_read ref_parse s VNull = Some (Inr (False, VNull))"
    using ref.range_end_plain [OF b] by (simp add: json_read_def read_string_as_def)
  then obtain pre rest reason where r: "s = pre @ rest" "rest = [] \<or> \<not> is_space (hd rest)"
    "json_read_or_throw count_posn ref_parse s VNull =
      Some (Inl (PositionError (Error_position_at (fst (count_posn pre)) (snd (count_posn pre)) reason)), VNull)"
    using read_or_throw_positions [OF ref.json_prims_axioms, of s VNull] by auto
  have "rest = []" using b r(2) by (cases rest) (auto simp: blank_def r(1))
  then have "count_posn pre = count_posn [CHR 0x0A, CHR '' '']" using r(1) by (simp add: s_def)
  also have "\<dots> = (2, 2)" by code_simp
  finally show ?thesis using r(3) by (auto simp: s_def)
qed


end
