(* ===== verification/ValueImpl.thy ===== *)
theory ValueImpl
  imports JsonValue
begin

section \<open>The representation of JSON values (json/json_spirit_value.h)\<close>

text \<open>
  \<open>Value_impl\<close> as it is laid out: a type tag, a \<open>boost::variant\<close> and the flag of unsigned integers,
  three members that the constructors, the copy and the assignment set one by one. \<open>JsonValue\<close> has a
  value as one datatype instead; here it is shown that the two agree: the tag always fits the variant,
  so the accessors, which look at the tag and then take the variant's content unchecked, never take
  content that is not there, and every operation does what its counterpart in \<open>JsonValue\<close> does.
\<close>

subsection \<open>The members\<close>

datatype variant =
    V_str string | V_obj "(string \<times> value_impl) list" | V_arr "value_impl list"
  | V_bool bool | V_int int64 | V_real double
and value_impl = Value_impl (vi_type: Value_type) (vi_v: variant) (vi_is_uint64: bool)

type_synonym vi_object = "(string \<times> value_impl) list"

subsection \<open>Constructors, copy and assignment\<close>

text \<open>A default-constructed variant holds its first alternative, an empty string.\<close>

definition vi_null :: value_impl where "vi_null = Value_impl null_type (V_str []) False"
definition vi_cstr :: "string \<Rightarrow> value_impl" where "vi_cstr s = Value_impl str_type (V_str (c_str s)) False"
definition vi_string :: "string \<Rightarrow> value_impl" where "vi_string s = Value_impl str_type (V_str s) False"
definition vi_obj :: "vi_object \<Rightarrow> value_impl" where "vi_obj ob = Value_impl obj_type (V_obj ob) False"
definition vi_array :: "value_impl list \<Rightarrow> value_impl" where "vi_array a = Value_impl array_type (V_arr a) False"
definition vi_bool :: "bool \<Rightarrow> value_impl" where "vi_bool b = Value_impl bool_type (V_bool b) False"
definition vi_int :: "int32 \<Rightarrow> value_impl" where "vi_int i = Value_impl int_type (V_int (scast i)) False"
definition vi_int64 :: "int64 \<Rightarrow> value_impl" where "vi_int64 i = Value_impl int_type (V_int i) False"
definition vi_uint64 :: "uint64 \<Rightarrow> value_impl" where "vi_uint64 i = Value_impl int_type (V_int i) True"
definition vi_double :: "double \<Rightarrow> value_impl" where "vi_double d = Value_impl real_type (V_real d) False"

definition vi_copy :: "value_impl \<Rightarrow> value_impl" where
  "vi_copy other = Value_impl (vi_type other) (vi_v other) (vi_is_uint64 other)"

text \<open>\<open>operator=\<close> copies and swaps; the second component is the temporary that is destroyed.\<close>

definition vi_assign :: "value_impl \<Rightarrow> value_impl \<Rightarrow> value_impl \<times> value_impl" where
  "vi_assign this lhs =
     (let tmp = vi_copy lhs;
          (t, tmp_t) = (vi_type tmp, vi_type this);
          (v, tmp_v) = (vi_v tmp, vi_v this);
          (u, tmp_u) = (vi_is_uint64 tmp, vi_is_uint64 this)
      in (Value_impl t v u, Value_impl tmp_t tmp_v tmp_u))"

text \<open>\<open>operator==\<close>; \<open>same\<close> is whether the two operands are one object. Variants are equal if they hold
  the same alternative with equal content.\<close>

fun vi_eq :: "value_impl \<Rightarrow> value_impl \<Rightarrow> bool"
  and variant_eq :: "variant \<Rightarrow> variant \<Rightarrow> bool"
  and vi_obj_eq :: "vi_object \<Rightarrow> vi_object \<Rightarrow> bool"
  and vi_arr_eq :: "value_impl list \<Rightarrow> value_impl list \<Rightarrow> bool" where
  "vi_eq (Value_impl t v u) b = (if t \<noteq> vi_type b then False else variant_eq v (vi_v b))"
| "variant_eq (V_str a) w = (case w of V_str b \<Rightarrow> a = b | _ \<Rightarrow> False)"
| "variant_eq (V_obj a) w = (case w of V_obj b \<Rightarrow> vi_obj_eq a b | _ \<Rightarrow> False)"
| "variant_eq (V_arr a) w = (case w of V_arr b \<Rightarrow> vi_arr_eq a b | _ \<Rightarrow> False)"
| "variant_eq (V_bool a) w = (case w of V_bool b \<Rightarrow> a = b | _ \<Rightarrow> False)"
| "variant_eq (V_int a) w = (case w of V_int b \<Rightarrow> a = b | _ \<Rightarrow> False)"
| "variant_eq (V_real a) w = (case w of V_real b \<Rightarrow> double_eq a b | _ \<Rightarrow> False)"
| "vi_obj_eq [] b = (b = [])"
| "vi_obj_eq ((n, x) # a) b = (case b of [] \<Rightarrow> False | (m, y) # b' \<Rightarrow> n = m \<and> vi_eq x y \<and> vi_obj_eq a b')"
| "vi_arr_eq [] b = (b = [])"
| "vi_arr_eq (x # a) b = (case b of [] \<Rightarrow> False | y # b' \<Rightarrow> vi_eq x y \<and> vi_arr_eq a b')"

definition vi_equal :: "bool \<Rightarrow> value_impl \<Rightarrow> value_impl \<Rightarrow> bool" where
  "vi_equal same this lhs = (if same then True else vi_eq this lhs)"

subsection \<open>Accessors\<close>

definition vi_is_null :: "value_impl \<Rightarrow> bool" where
  "vi_is_null v \<longleftrightarrow> vi_type v = null_type"

definition vi_check_type :: "Value_type \<Rightarrow> value_impl \<Rightarrow> unit res" where
  "vi_check_type vtype v = (if vi_type v \<noteq> vtype then Inl (type_error (vi_type v) vtype) else Inr ())"

text \<open>\<open>*boost::get<T>(&v_)\<close> dereferences a null pointer if the variant holds another type,
  \<open>boost::get<T>(v_)\<close> throws \<open>bad_get\<close> then.\<close>

definition deref :: "'a option \<Rightarrow> 'a res" where
  "deref p = (case p of Some x \<Rightarrow> Inr x | None \<Rightarrow> Inl (Undefined ''null pointer''))"

definition or_bad_get :: "'a option \<Rightarrow> 'a res" where
  "or_bad_get p = (case p of Some x \<Rightarrow> Inr x
     | None \<Rightarrow> Inl (RuntimeError ''boost::bad_get: failed value get using boost::get''))"

fun alt_str :: "variant \<Rightarrow> string option" where "alt_str (V_str s) = Some s" | "alt_str _ = None"
fun alt_obj :: "variant \<Rightarrow> vi_object option" where "alt_obj (V_obj ob) = Some ob" | "alt_obj _ = None"
fun alt_arr :: "variant \<Rightarrow> value_impl list option" where "alt_arr (V_arr a) = Some a" | "alt_arr _ = None"
fun alt_bool :: "variant \<Rightarrow> bool option" where "alt_bool (V_bool b) = Some b" | "alt_bool _ = None"
fun alt_int :: "variant \<Rightarrow> int64 option" where "alt_int (V_int i) = Some i" | "alt_int _ = None"
fun alt_real :: "variant \<Rightarrow> double option" where "alt_real (V_real d) = Some d" | "alt_real _ = None"

definition vi_get_str :: "value_impl \<Rightarrow> string res" where
  "vi_get_str v = bindR (vi_check_type str_type v) (\<lambda>_. deref (alt_str (vi_v v)))"

definition vi_get_obj :: "value_impl \<Rightarrow> vi_object res" where
  "vi_get_obj v = bindR (vi_check_type obj_type v) (\<lambda>_. deref (alt_obj (vi_v v)))"

definition vi_get_array :: "value_impl \<Rightarrow> value_impl list res" where
  "vi_get_array v = bindR (vi_check_type array_type v) (\<lambda>_. deref (alt_arr (vi_v v)))"

definition vi_get_bool :: "value_impl \<Rightarrow> bool res" where
  "vi_get_bool v = bindR (vi_check_type bool_type v) (\<lambda>_. or_bad_get (alt_bool (vi_v v)))"

definition vi_get_int64 :: "value_impl \<Rightarrow> int64 res" where
  "vi_get_int64 v = bindR (vi_check_type int_type v) (\<lambda>_. or_bad_get (alt_int (vi_v v)))"

definition vi_get_int :: "value_impl \<Rightarrow> int32 res" where
  "vi_get_int v = bindR (vi_check_type int_type v) (\<lambda>_. bindR (vi_get_int64 v) (\<lambda>i. Inr (scast i)))"

definition vi_get_uint64 :: "value_impl \<Rightarrow> uint64 res" where
  "vi_get_uint64 v = bindR (vi_check_type int_type v) (\<lambda>_. vi_get_int64 v)"

definition vi_get_real :: "value_impl \<Rightarrow> double res" where
  "vi_get_real v =
     (if vi_type v = int_type
      then if vi_is_uint64 v then bindR (vi_get_uint64 v) (\<lambda>u. Inr (double_of_int (uint u)))
           else bindR (vi_get_int64 v) (\<lambda>i. Inr (double_of_int (sint i)))
      else bindR (vi_check_type real_type v) (\<lambda>_. or_bad_get (alt_real (vi_v v))))"

text \<open>The accessors that return a reference to change the content through.\<close>

definition vi_update_obj :: "(vi_object \<Rightarrow> vi_object) \<Rightarrow> value_impl \<Rightarrow> value_impl res" where
  "vi_update_obj f v = bindR (vi_check_type obj_type v) (\<lambda>_. bindR (deref (alt_obj (vi_v v))) (\<lambda>ob.
     Inr (Value_impl (vi_type v) (V_obj (f ob)) (vi_is_uint64 v))))"

definition vi_update_array :: "(value_impl list \<Rightarrow> value_impl list) \<Rightarrow> value_impl \<Rightarrow> value_impl res" where
  "vi_update_array f v = bindR (vi_check_type array_type v) (\<lambda>_. bindR (deref (alt_arr (vi_v v))) (\<lambda>a.
     Inr (Value_impl (vi_type v) (V_arr (f a)) (vi_is_uint64 v))))"

text \<open>\<open>get_value<T>()\<close>: the overload of \<open>internal_::get_value\<close> for the type asked for.\<close>

definition get_value_int :: "value_impl \<Rightarrow> int32 res" where "get_value_int v = vi_get_int v"
definition get_value_int64 :: "value_impl \<Rightarrow> int64 res" where "get_value_int64 v = vi_get_int64 v"
definition get_value_uint64 :: "value_impl \<Rightarrow> uint64 res" where "get_value_uint64 v = vi_get_uint64 v"
definition get_value_double :: "value_impl \<Rightarrow> double res" where "get_value_double v = vi_get_real v"
definition get_value_string :: "value_impl \<Rightarrow> string res" where "get_value_string v = vi_get_str v"
definition get_value_array :: "value_impl \<Rightarrow> value_impl list res" where "get_value_array v = vi_get_array v"
definition get_value_object :: "value_impl \<Rightarrow> vi_object res" where "get_value_object v = vi_get_obj v"
definition get_value_bool :: "value_impl \<Rightarrow> bool res" where "get_value_bool v = vi_get_bool v"

text \<open>A C string as a \<open>String_type\<close>, character by character.\<close>

fun to_str :: "string \<Rightarrow> string" where
  "to_str [] = []"
| "to_str (c # p) = (if c \<noteq> CHR 0x00 then c # to_str p else [])"

subsection \<open>The value that is represented\<close>

fun abs_value :: "value_impl \<Rightarrow> jvalue"
  and abs_variant :: "variant \<Rightarrow> bool \<Rightarrow> jvalue" where
  "abs_value (Value_impl t v u) = (if t = null_type then VNull else abs_variant v u)"
| "abs_variant (V_str s) u = VStr s"
| "abs_variant (V_obj ob) u = VObj (map (\<lambda>(n, v). (n, abs_value v)) ob)"
| "abs_variant (V_arr a) u = VArr (map abs_value a)"
| "abs_variant (V_bool b) u = VBool b"
| "abs_variant (V_int i) u = VInt i u"
| "abs_variant (V_real d) u = VReal d"

abbreviation abs_object :: "vi_object \<Rightarrow> jobject" where
  "abs_object \<equiv> map (\<lambda>(n, v). (n, abs_value v))"

text \<open>The tag fits the variant, the flag is set for integers only, and so on inside.\<close>

fun consistent :: "value_impl \<Rightarrow> bool"
  and fits :: "Value_type \<Rightarrow> bool \<Rightarrow> variant \<Rightarrow> bool" where
  "consistent (Value_impl t v u) = fits t u v"
| "fits t u (V_str s) = (\<not> u \<and> (t = str_type \<or> t = null_type \<and> s = []))"
| "fits t u (V_obj ob) = (\<not> u \<and> t = obj_type \<and> (\<forall>(n, v) \<in> set ob. consistent v))"
| "fits t u (V_arr a) = (\<not> u \<and> t = array_type \<and> (\<forall>v \<in> set a. consistent v))"
| "fits t u (V_bool b) = (\<not> u \<and> t = bool_type)"
| "fits t u (V_int i) = (t = int_type)"
| "fits t u (V_real d) = (\<not> u \<and> t = real_type)"

text \<open>Every value is represented.\<close>

fun rep_value :: "jvalue \<Rightarrow> value_impl" where
  "rep_value (VObj ms) = vi_obj (map (\<lambda>(n, v). (n, rep_value v)) ms)"
| "rep_value (VArr vs) = vi_array (map rep_value vs)"
| "rep_value (VStr s) = vi_string s"
| "rep_value (VBool b) = vi_bool b"
| "rep_value (VInt i u) = (if u then vi_uint64 i else vi_int64 i)"
| "rep_value (VReal d) = vi_double d"
| "rep_value VNull = vi_null"

lemmas vi_defs = vi_null_def vi_cstr_def vi_string_def vi_obj_def vi_array_def vi_bool_def vi_int_def
  vi_int64_def vi_uint64_def vi_double_def vi_copy_def vi_assign_def

lemma vi_copy_same [simp]: "vi_copy v = v"
  by (cases v) (simp add: vi_copy_def)

lemma abs_rep [simp]: "abs_value (rep_value v) = v"
  by (induction v rule: rep_value.induct) (auto simp: vi_defs intro!: map_idI)

lemma consistent_rep [simp]: "consistent (rep_value v)"
  by (induction v rule: rep_value.induct) (auto simp: vi_defs)

lemma type_of_abs: "consistent v \<Longrightarrow> type_of (abs_value v) = vi_type v"
proof (cases v)
  case (Value_impl t w u)
  then show "consistent v \<Longrightarrow> type_of (abs_value v) = vi_type v" by (cases w) auto
qed

lemma vi_constructors:
  "consistent vi_null" "abs_value vi_null = VNull"
  "consistent (vi_cstr s)" "abs_value (vi_cstr s) = value_of_cstr s"
  "consistent (vi_string s)" "abs_value (vi_string s) = VStr s"
  "(\<forall>(n, v) \<in> set ob. consistent v) \<Longrightarrow> consistent (vi_obj ob)" "abs_value (vi_obj ob) = VObj (abs_object ob)"
  "(\<forall>v \<in> set a. consistent v) \<Longrightarrow> consistent (vi_array a)" "abs_value (vi_array a) = VArr (map abs_value a)"
  "consistent (vi_bool b)" "abs_value (vi_bool b) = VBool b"
  "consistent (vi_int i)" "abs_value (vi_int i) = value_of_int i"
  "consistent (vi_int64 j)" "abs_value (vi_int64 j) = value_of_int64 j"
  "consistent (vi_uint64 j)" "abs_value (vi_uint64 j) = value_of_uint64 j"
  "consistent (vi_double d)" "abs_value (vi_double d) = VReal d"
  by (simp_all add: vi_defs value_of_cstr_def value_of_int_def value_of_int64_def value_of_uint64_def)

lemma vi_assign_eq: "vi_assign this lhs = (lhs, this)"
  by (cases this, cases lhs) (simp add: vi_assign_def)

lemmas vi_get_defs = vi_get_str_def vi_get_obj_def vi_get_array_def vi_get_bool_def vi_get_int64_def
  vi_get_int_def vi_get_uint64_def vi_get_real_def vi_check_type_def deref_def or_bad_get_def

text \<open>A consistent value has one of eight forms.\<close>

lemma consistent_cases:
  assumes "consistent v"
  obtains (null) "v = Value_impl null_type (V_str []) False"
    | (str) s where "v = Value_impl str_type (V_str s) False"
    | (obj) ob where "v = Value_impl obj_type (V_obj ob) False" "\<forall>(n, x) \<in> set ob. consistent x"
    | (arr) a where "v = Value_impl array_type (V_arr a) False" "\<forall>x \<in> set a. consistent x"
    | (bool) b where "v = Value_impl bool_type (V_bool b) False"
    | (int) i u where "v = Value_impl int_type (V_int i) u"
    | (real) d where "v = Value_impl real_type (V_real d) False"
proof (cases v)
  case (Value_impl t w u)
  then show ?thesis using assms that by (cases w) auto
qed

lemma vi_accessors:
  assumes "consistent v"
  shows "vi_get_str v = get_str (abs_value v)"
    and "map_sum (\<lambda>e. e) abs_object (vi_get_obj v) = get_obj (abs_value v)"
    and "map_sum (\<lambda>e. e) (map abs_value) (vi_get_array v) = get_array (abs_value v)"
    and "vi_get_bool v = get_bool (abs_value v)" and "vi_get_int v = get_int (abs_value v)"
    and "vi_get_int64 v = get_int64 (abs_value v)" and "vi_get_uint64 v = get_uint64 (abs_value v)"
    and "vi_get_real v = get_real (abs_value v)"
  using assms by (cases rule: consistent_cases; simp add: vi_get_defs get_defs)+

lemma vi_updates:
  assumes "consistent v"
  shows "(\<forall>(n, x) \<in> set (f ob). consistent x) \<Longrightarrow> vi_get_obj v = Inr ob \<Longrightarrow>
      \<exists>v'. vi_update_obj f v = Inr v' \<and> consistent v' \<and> abs_value v' = VObj (abs_object (f ob))"
    and "(\<forall>x \<in> set (g a). consistent x) \<Longrightarrow> vi_get_array v = Inr a \<Longrightarrow>
      \<exists>v'. vi_update_array g v = Inr v' \<and> consistent v' \<and> abs_value v' = VArr (map abs_value (g a))"
    and "vi_get_obj v = Inl e \<Longrightarrow> vi_update_obj f v = Inl e"
    and "vi_get_array v = Inl e \<Longrightarrow> vi_update_array g v = Inl e"
  using assms by (cases rule: consistent_cases; simp add: vi_get_defs vi_update_obj_def vi_update_array_def)+

lemma vi_eq_abs:
  "consistent a \<Longrightarrow> consistent b \<Longrightarrow> vi_eq a b = value_eq (abs_value a) (abs_value b)"
  "fits t u v \<Longrightarrow> fits t u' w \<Longrightarrow> variant_eq v w =
     value_eq (if t = null_type then VNull else abs_variant v u) (if t = null_type then VNull else abs_variant w u')"
  "\<forall>(n, x) \<in> set oa. consistent x \<Longrightarrow> \<forall>(n, x) \<in> set ob. consistent x \<Longrightarrow>
     vi_obj_eq oa ob = obj_eq (abs_object oa) (abs_object ob)"
  "\<forall>x \<in> set xs. consistent x \<Longrightarrow> \<forall>x \<in> set ys. consistent x \<Longrightarrow>
     vi_arr_eq xs ys = arr_eq (map abs_value xs) (map abs_value ys)"
proof (induction a b and v w and oa ob and xs ys arbitrary: and t u u' and and
    rule: vi_eq_variant_eq_vi_obj_eq_vi_arr_eq.induct)
  case (1 t v u b)
  show ?case
  proof (cases "t = vi_type b")
    case True
    obtain w u' where b: "b = Value_impl t w u'" using True by (cases b) simp
    have e: "variant_eq v w = value_eq (if t = null_type then VNull else abs_variant v u)
        (if t = null_type then VNull else abs_variant w u')"
      using 1 b by simp
    show ?thesis unfolding b vi_eq.simps value_impl.sel abs_value.simps using e by simp
  next
    case False
    have "type_of (abs_value (Value_impl t v u)) = t" "type_of (abs_value b) = vi_type b"
      using type_of_abs [OF 1(2)] type_of_abs [OF 1(3)] by simp_all
    then have "\<not> value_eq (abs_value (Value_impl t v u)) (abs_value b)"
      using False by (cases "abs_value (Value_impl t v u)"; cases "abs_value b") auto
    then show ?thesis using False by simp
  qed
next
  case (2 a w)
  then show ?case by (cases w) auto
next
  case (3 a w)
  then show ?case by (cases w) auto
next
  case (4 a w)
  then show ?case by (cases w) auto
next
  case (5 a w)
  then show ?case by (cases w) auto
next
  case (6 a w)
  then show ?case by (cases w) auto
next
  case (7 a w)
  then show ?case by (cases w) auto
next
  case (8 b)
  then show ?case by simp
next
  case (9 n x a b)
  then show ?case by (cases b) auto
next
  case (10 b)
  then show ?case by simp
next
  case (11 x a b)
  then show ?case by (cases b) auto
qed

lemma to_str_c_str: "to_str p = c_str p"
  by (induction p) (simp_all add: c_str_def)

subsection \<open>The values a program can make\<close>

text \<open>
  By the constructors from values made before, by copying and assigning, and by appending through the
  references that \<open>get_obj\<close> and \<open>get_array\<close> return.
\<close>

inductive made :: "value_impl \<Rightarrow> bool" where
  made_null: "made vi_null"
| made_cstr: "made (vi_cstr s)"
| made_string: "made (vi_string s)"
| made_obj: "(\<And>n v. (n, v) \<in> set ob \<Longrightarrow> made v) \<Longrightarrow> made (vi_obj ob)"
| made_array: "(\<And>v. v \<in> set a \<Longrightarrow> made v) \<Longrightarrow> made (vi_array a)"
| made_bool: "made (vi_bool b)"
| made_int: "made (vi_int i)"
| made_int64: "made (vi_int64 j)"
| made_uint64: "made (vi_uint64 j)"
| made_double: "made (vi_double d)"
| made_copy: "made v \<Longrightarrow> made (vi_copy v)"
| made_assigned: "made v \<Longrightarrow> made w \<Longrightarrow> vi_assign v w = (v', tmp) \<Longrightarrow> made v'"
| made_pushed: "made v \<Longrightarrow> made x \<Longrightarrow> vi_update_obj (\<lambda>ob. ob @ [(n, x)]) v = Inr v' \<Longrightarrow> made v'"
| made_appended: "made v \<Longrightarrow> made x \<Longrightarrow> vi_update_array (\<lambda>a. a @ [x]) v = Inr v' \<Longrightarrow> made v'"

lemma made_consistent: "made v \<Longrightarrow> consistent v"
proof (induction rule: made.induct)
  case (made_assigned v w v' tmp)
  then show ?case by (simp add: vi_assign_eq)
next
  case (made_pushed v x n v')
  from made_pushed.IH(1) made_pushed.hyps(3) made_pushed.IH(2) show ?case
    by (cases rule: consistent_cases) (auto simp: vi_update_obj_def vi_check_type_def deref_def)
next
  case (made_appended v x v')
  from made_appended.IH(1) made_appended.hyps(3) made_appended.IH(2) show ?case
    by (cases rule: consistent_cases) (auto simp: vi_update_array_def vi_check_type_def deref_def)
next
  case (made_obj ob)
  then show ?case by (intro vi_constructors) auto
next
  case (made_array a)
  then show ?case by (intro vi_constructors) auto
qed (simp_all add: vi_constructors)

lemmas made_constructors = made_null made_cstr made_string made_obj made_array made_bool made_int made_int64
  made_uint64 made_double

lemma made_rep: "made (rep_value v)"
  by (induction v rule: rep_value.induct) (auto intro!: made_constructors)

subsection \<open>Properties\<close>

text \<open>
  C28: The representation refines the values: whatever a program makes by constructors, copies,
  assignments and appending, each accessor returns what it returns of the value that is represented,
  or throws the same error naming the two types, and never takes content the variant does not hold;
  equality is equality of the represented values, except that an object equals itself; assignment
  gives the represented value of the right side and leaves that side alone; and every value has a
  representation.
\<close>

theorem value_impl_refines:
  assumes "made v" and "made w"
  shows "get_value_string v = get_str (abs_value v) \<and>
    map_sum (\<lambda>e. e) abs_object (get_value_object v) = get_obj (abs_value v) \<and>
    map_sum (\<lambda>e. e) (map abs_value) (get_value_array v) = get_array (abs_value v) \<and>
    get_value_bool v = get_bool (abs_value v) \<and> get_value_int v = get_int (abs_value v) \<and>
    get_value_int64 v = get_int64 (abs_value v) \<and> get_value_uint64 v = get_uint64 (abs_value v) \<and>
    get_value_double v = get_real (abs_value v) \<and> vi_is_null v = is_null (abs_value v) \<and>
    vi_equal same v w = (same \<or> value_eq (abs_value v) (abs_value w)) \<and>
    vi_assign v w = (w, v) \<and> (\<exists>v'. made v' \<and> abs_value v' = j)"
proof -
  note c = made_consistent [OF assms(1)] made_consistent [OF assms(2)]
  have ex: "\<exists>v'. made v' \<and> abs_value v' = j" using made_rep abs_rep by blast
  have eq: "vi_equal same v w = (same \<or> value_eq (abs_value v) (abs_value w))"
    by (simp add: vi_equal_def vi_eq_abs(1) [OF c])
  have null: "vi_is_null v = is_null (abs_value v)"
    by (simp add: vi_is_null_def is_null_def type_of_abs [OF c(1)])
  show ?thesis
    unfolding get_value_string_def get_value_object_def get_value_array_def get_value_bool_def
      get_value_int_def get_value_int64_def get_value_uint64_def get_value_double_def
    by (intro conjI vi_accessors c(1) eq null vi_assign_eq ex)
qed

theorem value_impl_refines_witness:
  "get_value_double (vi_uint64 (2 ^ 63)) = Inr (DFin False (2 ^ 52) 11) \<and>
   vi_equal False (vi_array [vi_int 3]) (vi_array [vi_uint64 3])"
proof -
  have m: "made (vi_array [vi_int 3])" "made (vi_array [vi_uint64 3])" "made (vi_uint64 (2 ^ 63))"
    by (auto intro!: made_constructors)
  have "get_real (VInt (2 ^ 63) True) = Inr (DFin False (2 ^ 52) 11)" by code_simp
  then show ?thesis
    using value_impl_refines [OF m(3,3)] value_impl_refines [OF m(1,2), of False]
    by (simp add: vi_constructors value_of_uint64_def value_of_int_def)
qed

end
