(* ===== verification/Args.thy ===== *)
theory Args
  imports StdMap TinyFormat
begin

section \<open>Arguments and conversions (utils.cpp, utils.h)\<close>

text \<open>
  The accessors of the global map \<open>mapArgs\<close>, the conversions between numbers and text that
  \<open>utils.h\<close> defines over \<open>strprintf\<close>, \<open>strtoll\<close> and \<open>atoi\<close>, the mock clock and the message of
  an exception. An operation that may store into the map returns the map.
\<close>

type_synonym args = "(string, string) omap"

subsection \<open>Numbers and text\<close>

definition i64tostr :: "int64 \<Rightarrow> string res" where
  "i64tostr n = strprintf ''%d'' [ArgInt64 n]"

definition itostr :: "int32 \<Rightarrow> string res" where
  "itostr n = strprintf ''%d'' [ArgInt n]"

definition atoi64 :: "string \<Rightarrow> int64" where
  "atoi64 s = strtoll s"

definition IsSwitchChar :: "char \<Rightarrow> bool" where
  "IsSwitchChar c \<longleftrightarrow> c = CHR ''-''"

definition FormatFullVersion :: string where
  "FormatFullVersion = ''v1.0.1.0-g32a928e''"

definition MAX_SIZE :: int where
  "MAX_SIZE = 1000000"

text \<open>\<open>GetTime\<close>: the mock time when it is set, else the clock.\<close>

definition GetTime :: "int64 \<Rightarrow> int64 \<Rightarrow> int64" where
  "GetTime nMockTime clock = (if nMockTime \<noteq> 0 then nMockTime else clock)"

subsection \<open>mapArgs\<close>

definition map_read :: "args \<Rightarrow> string \<Rightarrow> string" where
  "map_read mapArgs k = fst (map_index [] k mapArgs)"

definition GetArg :: "args \<Rightarrow> string \<Rightarrow> string \<Rightarrow> string" where
  "GetArg mapArgs strArg strDefault =
     (if map_count mapArgs strArg then map_read mapArgs strArg else strDefault)"

definition GetArg_int :: "args \<Rightarrow> string \<Rightarrow> int64 \<Rightarrow> int64" where
  "GetArg_int mapArgs strArg nDefault =
     (if map_count mapArgs strArg then atoi64 (map_read mapArgs strArg) else nDefault)"

definition GetBoolArg :: "args \<Rightarrow> string \<Rightarrow> bool \<Rightarrow> bool" where
  "GetBoolArg mapArgs strArg fDefault =
     (if map_count mapArgs strArg then
        (if map_read mapArgs strArg = [] then True else atoi (map_read mapArgs strArg) \<noteq> 0)
      else fDefault)"

definition SoftSetArg :: "string \<Rightarrow> string \<Rightarrow> args \<Rightarrow> bool \<times> args" where
  "SoftSetArg strArg strValue mapArgs =
     (if map_count mapArgs strArg then (False, mapArgs)
      else (True, map_put strArg strValue mapArgs))"

definition SoftSetBoolArg :: "string \<Rightarrow> bool \<Rightarrow> args \<Rightarrow> bool \<times> args" where
  "SoftSetBoolArg strArg fValue mapArgs =
     (if fValue then SoftSetArg strArg ''1'' mapArgs else SoftSetArg strArg ''0'' mapArgs)"

subsection \<open>Exception messages\<close>

text \<open>
  The exception is its type name and its text; \<open>None\<close> is a null pointer.
  \<open>PrintExceptionContinue\<close> stores the message in \<open>strMiscWarning\<close>; \<open>PrintException\<close> throws the
  current exception again after that.
\<close>

definition FormatException :: "(string \<times> string) option \<Rightarrow> string \<Rightarrow> string res" where
  "FormatException pex pszThread =
     (case pex of
        Some (name, what) \<Rightarrow>
          strprintf (''EXCEPTION: %s       '' @ [CHR 0x0A] @ ''%s       '' @ [CHR 0x0A]
              @ ''%s in %s       '' @ [CHR 0x0A])
            [ArgCString name, ArgCString what, ArgCString ''FidChain'', ArgCString pszThread]
      | None \<Rightarrow>
          strprintf (''UNKNOWN EXCEPTION       '' @ [CHR 0x0A] @ ''%s in %s       '' @ [CHR 0x0A])
            [ArgCString ''FidChain'', ArgCString pszThread])"

definition PrintExceptionContinue ::
  "(string \<times> string) option \<Rightarrow> string \<Rightarrow> string \<Rightarrow> string res" where
  "PrintExceptionContinue pex pszThread strMiscWarning = FormatException pex pszThread"

definition PrintException ::
  "exn \<Rightarrow> (string \<times> string) option \<Rightarrow> string \<Rightarrow> string \<Rightarrow> unit res \<times> string" where
  "PrintException current pex pszThread strMiscWarning =
     (case FormatException pex pszThread of
        Inl e \<Rightarrow> (Inl e, strMiscWarning)
      | Inr message \<Rightarrow> (Inl current, message))"

subsection \<open>Lemmas\<close>

lemma i64tostr_dec: "i64tostr n = Inr (dec_int (sint n))"
  by (simp add: i64tostr_def strprintf_d)

lemma itostr_dec: "itostr n = Inr (dec_int (sint n))"
  by (simp add: itostr_def strprintf_d)

lemma map_read_find: "map_read m k = (case map_find m k of None \<Rightarrow> [] | Some v \<Rightarrow> v)"
  by (simp add: map_read_def map_index_value)

lemma GetArg_find: "GetArg m k d = (case map_find m k of None \<Rightarrow> d | Some v \<Rightarrow> v)"
  by (auto simp: GetArg_def map_count_def map_read_find split: option.split)

lemma GetArg_int_find: "GetArg_int m k d = (case map_find m k of None \<Rightarrow> d | Some v \<Rightarrow> atoi64 v)"
  by (auto simp: GetArg_int_def map_count_def map_read_find split: option.split)

lemma GetBoolArg_find:
  "GetBoolArg m k d = (case map_find m k of None \<Rightarrow> d | Some v \<Rightarrow> v = [] \<or> atoi v \<noteq> 0)"
  by (auto simp: GetBoolArg_def map_count_def map_read_find split: option.split)

lemma SoftSetArg_find:
  "map_find (snd (SoftSetArg k v m)) k' =
     (if k' = k \<and> map_find m k = None then Some v else map_find m k')"
  by (auto simp: SoftSetArg_def map_count_def map_find_put)

lemma atoi64_dec: "atoi64 (dec_int (sint n)) = n"
  unfolding atoi64_def by (rule dec64.dec_enc) simp

subsection \<open>Properties\<close>

text \<open>
  A soft setting never overrides: after \<open>SoftSetArg\<close> the argument has the old value if there
  was one and the new value otherwise, the result tells which, every other argument is as
  before, and the map stays in key order; a soft set flag reads back as the flag.
\<close>

theorem soft_set_arg:
  "GetArg (snd (SoftSetArg k v m)) k' d =
      (if k' = k \<and> \<not> map_count m k then v else GetArg m k' d) \<and>
   fst (SoftSetArg k v m) = (\<not> map_count m k) \<and>
   (ordered m \<longrightarrow> ordered (snd (SoftSetArg k v m))) \<and>
   (\<not> map_count m k \<longrightarrow> GetBoolArg (snd (SoftSetBoolArg k b m)) k d' = b)"
proof -
  have "atoi ''1'' = 1" "atoi ''0'' = 0" by code_simp+
  then show ?thesis
    by (auto simp: GetArg_find SoftSetArg_find SoftSetBoolArg_def GetBoolArg_find)
      (auto simp: SoftSetArg_def map_count_def ordered_put)
qed

theorem soft_set_arg_witness:
  "GetBoolArg (snd (SoftSetBoolArg ''-rpcssl'' False [(''-a'', ''x'')])) ''-rpcssl'' True = False \<and>
   ordered (snd (SoftSetArg ''-b'' ''y'' [(''-a'', ''x'')]))"
proof -
  have "ordered [(''-a'', ''x'')]" by (simp add: ordered_def)
  then show ?thesis
    using soft_set_arg [of "''-b''" "''y''" "[(''-a'', ''x'')]"]
      soft_set_arg [of "''-rpcssl''" "''y''" "[(''-a'', ''x'')]" "''-rpcssl''" "[]" False True]
    by (simp add: map_count_def)
qed

text \<open>
  Numbers survive the trip through an argument: what \<open>i64tostr\<close> prints, \<open>GetArg\<close> reads back
  as the same 64-bit number.
\<close>

theorem number_argument_roundtrip:
  assumes "i64tostr n = Inr s"
  shows "GetArg_int (map_put k s m) k d = n"
  using assms atoi64_dec [of n] by (simp add: GetArg_int_find map_find_put i64tostr_dec)

theorem number_argument_roundtrip_witness:
  "GetArg_int (map_put ''-rpcport'' ''-42'' []) ''-rpcport'' 7 = - 42"
proof (rule number_argument_roundtrip)
  have "dec_int (sint (- 42 :: int64)) = ''-42''" by code_simp
  then show "i64tostr (- 42) = Inr ''-42''" by (simp only: i64tostr_dec)
qed

end
