(* ===== verification/Config.thy ===== *)
theory Config
  imports Args
begin

section \<open>The configuration file (config.cpp)\<close>

text \<open>
  \<open>generate_defaultfidconfig\<close>, \<open>parse_fidconfig\<close> and \<open>get_fidconfig\<close>. The property trees of Boost
  and their JSON files are outside the repository: their operations are the record
  \<open>ptree_ops\<close>, a parameter, and the locale \<open>ptree\<close> states what the code relies on.
\<close>

subsection \<open>Property trees\<close>

text \<open>
  \<open>'p\<close> is the type of trees and \<open>'f\<close> the state of the file system. \<open>pt_get\<close> is
  \<open>get<string>\<close>, which throws on a missing path; \<open>write_file\<close> and \<open>read_file\<close> are \<open>write_json\<close> and
  \<open>read_json\<close>, which throw if the file cannot be opened.
\<close>

record ('p, 'f) ptree_ops =
  pt_new :: 'p
  pt_put :: "string \<Rightarrow> string \<Rightarrow> 'p \<Rightarrow> 'p"
  pt_push_back :: "string \<Rightarrow> 'p \<Rightarrow> 'p \<Rightarrow> 'p"
  pt_put_child :: "string \<Rightarrow> 'p \<Rightarrow> 'p \<Rightarrow> 'p"
  pt_get_child :: "'p \<Rightarrow> string \<Rightarrow> 'p res"
  pt_items :: "'p \<Rightarrow> (string \<times> 'p) list"
  pt_get :: "'p \<Rightarrow> string \<Rightarrow> string res"
  write_file :: "string \<Rightarrow> 'p \<Rightarrow> 'f \<Rightarrow> 'f res"
  read_file :: "string \<Rightarrow> 'f \<Rightarrow> 'p res"

subsection \<open>The code\<close>

definition file_path :: string where
  "file_path = ''./fidinventor.conf''"

definition item_mysql :: "('p, 'f) ptree_ops \<Rightarrow> 'p" where
  "item_mysql pt =
     pt_put pt ''dbport'' ''3306''
    (pt_put pt ''dburl'' ''127.0.0.1''
    (pt_put pt ''dbpasswd'' ''123123''
    (pt_put pt ''dbname'' ''fidchain''
    (pt_put pt ''database'' ''fidchainblock'' (pt_new pt)))))"

definition item_rpc :: "('p, 'f) ptree_ops \<Rightarrow> 'p" where
  "item_rpc pt =
     pt_put pt ''rpcconnect'' ''139.224.13.20''
    (pt_put pt ''rpcpasswd'' ''DSBs3pKSdpiTAPDms''
    (pt_put pt ''rpcuser'' ''fidchainrpc20'' (pt_new pt)))"

definition generate_defaultfidconfig :: "('p, 'f) ptree_ops \<Rightarrow> 'f \<Rightarrow> 'f res" where
  "generate_defaultfidconfig pt files =
     (let items = pt_push_back pt ''mysql'' (item_mysql pt) (pt_new pt);
          items = pt_push_back pt ''rpc'' (item_rpc pt) items
      in write_file pt file_path (pt_put_child pt ''fid'' items (pt_new pt)) files)"

text \<open>The value under a key, or the default if it is empty, inserted under \<open>arg\<close>.\<close>

definition insert_value :: "('p, 'f) ptree_ops \<Rightarrow> 'p \<Rightarrow> string \<Rightarrow> string \<Rightarrow> string \<Rightarrow> args \<Rightarrow> args res" where
  "insert_value pt t arg key dflt mapArgs =
     bindR (pt_get pt t key) (\<lambda>v.
     bindR (if v \<noteq> '''' then pt_get pt t key else Inr dflt) (\<lambda>v.
     Inr (map_insert arg v mapArgs)))"

definition parse_mysql :: "('p, 'f) ptree_ops \<Rightarrow> 'p \<Rightarrow> args \<Rightarrow> args res" where
  "parse_mysql pt t m =
     bindR (insert_value pt t ''-database'' ''database'' ''fidchain'' m) (\<lambda>m.
     bindR (insert_value pt t ''-dbname'' ''dbname'' ''fidchain'' m) (\<lambda>m.
     bindR (insert_value pt t ''-dbpasswd'' ''dbpasswd'' ''123123'' m) (\<lambda>m.
     bindR (insert_value pt t ''-dburl'' ''dburl'' ''127.0.0.1'' m) (\<lambda>m.
     bindR (insert_value pt t ''-dbport'' ''dbport'' ''3306'' m) (\<lambda>m.
     Inr (snd (map_index [] ''database'' m)))))))"

definition parse_rpc :: "('p, 'f) ptree_ops \<Rightarrow> 'p \<Rightarrow> args \<Rightarrow> args res" where
  "parse_rpc pt t m =
     bindR (insert_value pt t ''-rpcuser'' ''rpcuser'' ''fidchainrpc20'' m) (\<lambda>m.
     bindR (insert_value pt t ''-rpcpassword'' ''rpcpasswd'' ''DSBs3pKSdpiTAPDms'' m) (\<lambda>m.
     bindR (insert_value pt t ''-rpcconnect'' ''rpcconnect'' ''139.224.13.20'' m) (\<lambda>m.
     Inr (snd (map_index [] ''rpcuser'' m)))))"

definition parse_item :: "('p, 'f) ptree_ops \<Rightarrow> string \<times> 'p \<Rightarrow> args \<Rightarrow> args res" where
  "parse_item pt it m =
     (let key = fst it in
      if key = ''mysql'' then parse_mysql pt (snd it) m
      else if key = ''rpc'' then parse_rpc pt (snd it) m
      else Inr m)"

text \<open>The result is the number of items, or -1 for none; an exception is the caller's.\<close>

definition parse_fidconfig :: "('p, 'f) ptree_ops \<Rightarrow> 'f \<Rightarrow> string \<Rightarrow> args \<Rightarrow> (int32 \<times> args) res" where
  "parse_fidconfig pt files path mapArgs =
     bindR (read_file pt (if '''' \<noteq> path then path else file_path) files) (\<lambda>root.
     bindR (pt_get_child pt root ''fid'') (\<lambda>items.
     bindR (foldR (parse_item pt) (pt_items pt items) mapArgs) (\<lambda>m.
     Inr (if length (pt_items pt items) = 0 then - 1 else of_nat (length (pt_items pt items)), m))))"

definition get_fidconfig :: "args \<Rightarrow> string \<Rightarrow> string" where
  "get_fidconfig mapArgs key = (case map_find mapArgs key of Some v \<Rightarrow> v | None \<Rightarrow> '''')"

subsection \<open>What parsing keeps\<close>

text \<open>
  \<open>keeps m m'\<close>: every argument of \<open>m\<close> has the same value in \<open>m'\<close>, and key order is kept. Every
  step of the parser is of this kind, for \<open>insert\<close> does not overwrite.
\<close>

definition keeps :: "args \<Rightarrow> args \<Rightarrow> bool" where
  "keeps m m' \<longleftrightarrow> (\<forall>k v. map_find m k = Some v \<longrightarrow> map_find m' k = Some v) \<and> (ordered m \<longrightarrow> ordered m')"

lemma keeps_refl [simp]: "keeps m m"
  by (simp add: keeps_def)

lemma keeps_trans: "keeps a b \<Longrightarrow> keeps b c \<Longrightarrow> keeps a c"
  by (simp add: keeps_def)

lemma keeps_insert: "keeps m (map_insert k v m)"
  by (simp add: keeps_def map_find_insert ordered_insert)

lemma keeps_index: "keeps m (snd (map_index d k m))"
  by (simp add: keeps_def map_index_find ordered_index)

lemma keeps_insert_value: "insert_value pt t a k d m = Inr m' \<Longrightarrow> keeps m m'"
  by (auto simp: insert_value_def res_simps keeps_insert)

lemma keeps_parse_mysql: "parse_mysql pt t m = Inr m' \<Longrightarrow> keeps m m'"
  unfolding parse_mysql_def
  by (auto simp: res_simps) (meson keeps_index keeps_insert_value keeps_trans)

lemma keeps_parse_rpc: "parse_rpc pt t m = Inr m' \<Longrightarrow> keeps m m'"
  unfolding parse_rpc_def
  by (auto simp: res_simps) (meson keeps_index keeps_insert_value keeps_trans)

lemma keeps_parse_item: "parse_item pt it m = Inr m' \<Longrightarrow> keeps m m'"
  by (auto simp: parse_item_def Let_def dest: keeps_parse_mysql keeps_parse_rpc split: if_splits)

lemma keeps_parse_items: "foldR (parse_item pt) its m = Inr m' \<Longrightarrow> keeps m m'"
  by (rule foldR_invariant [where P = "keeps m"]) (auto intro: keeps_trans dest: keeps_parse_item)

subsection \<open>The interface of a property tree\<close>

text \<open>
  \<open>obj t\<close> says that the tree can be written as a JSON object: no node has both data and
  children.
\<close>

locale ptree =
  fixes pt :: "('p, 'f) ptree_ops" and obj :: "'p \<Rightarrow> bool"
  assumes obj_new: "obj (pt_new pt)"
    and obj_put: "obj t \<Longrightarrow> obj (pt_put pt k v t)"
    and obj_push: "obj t \<Longrightarrow> obj c \<Longrightarrow> obj (pt_push_back pt k c t)"
    and obj_put_child: "obj t \<Longrightarrow> obj c \<Longrightarrow> obj (pt_put_child pt k c t)"
    and get_put: "obj t \<Longrightarrow> CHR ''.'' \<notin> set k \<Longrightarrow> CHR ''.'' \<notin> set k' \<Longrightarrow>
      pt_get pt (pt_put pt k v t) k' = (if k' = k then Inr v else pt_get pt t k')"
    and items_new: "pt_items pt (pt_new pt) = []"
    and items_push: "pt_items pt (pt_push_back pt k c t) = pt_items pt t @ [(k, c)]"
    and get_put_child: "CHR ''.'' \<notin> set k \<Longrightarrow> pt_get_child pt (pt_put_child pt k c t) k = Inr c"
    and read_write: "obj t \<Longrightarrow> write_file pt path t files = Inr files' \<Longrightarrow> read_file pt path files' = Inr t"
begin

lemma obj_items: "obj (item_mysql pt)" "obj (item_rpc pt)"
  by (simp_all add: item_mysql_def item_rpc_def obj_put obj_new)

lemma get_mysql:
  "pt_get pt (item_mysql pt) ''database'' = Inr ''fidchainblock''"
  "pt_get pt (item_mysql pt) ''dbname'' = Inr ''fidchain''"
  "pt_get pt (item_mysql pt) ''dbpasswd'' = Inr ''123123''"
  "pt_get pt (item_mysql pt) ''dburl'' = Inr ''127.0.0.1''"
  "pt_get pt (item_mysql pt) ''dbport'' = Inr ''3306''"
  by (simp_all add: item_mysql_def get_put obj_put obj_new)

lemma get_rpc:
  "pt_get pt (item_rpc pt) ''rpcuser'' = Inr ''fidchainrpc20''"
  "pt_get pt (item_rpc pt) ''rpcpasswd'' = Inr ''DSBs3pKSdpiTAPDms''"
  "pt_get pt (item_rpc pt) ''rpcconnect'' = Inr ''139.224.13.20''"
  by (simp_all add: item_rpc_def get_put obj_put obj_new)

lemma parse_generated:
  assumes "generate_defaultfidconfig pt files = Inr files'"
  shows "parse_fidconfig pt files' '''' m =
     bindR (parse_mysql pt (item_mysql pt) m) (\<lambda>m.
     bindR (parse_rpc pt (item_rpc pt) m) (\<lambda>m. Inr (2, m)))"
proof -
  let ?items = "pt_push_back pt ''rpc'' (item_rpc pt) (pt_push_back pt ''mysql'' (item_mysql pt) (pt_new pt))"
  have "obj (pt_put_child pt ''fid'' ?items (pt_new pt))" by (simp add: obj_put_child obj_push obj_new obj_items)
  from read_write [OF this] have "read_file pt file_path files' = Inr (pt_put_child pt ''fid'' ?items (pt_new pt))"
    using assms by (simp add: generate_defaultfidconfig_def Let_def)
  then show ?thesis
    by (simp add: parse_fidconfig_def get_put_child items_push items_new parse_item_def bindR_assoc)
qed

end

subsection \<open>A reference property tree\<close>

datatype ref_tree = Node (data: string) (kids: "(string \<times> ref_tree) list")

fun ref_obj :: "ref_tree \<Rightarrow> bool" where
  "ref_obj (Node d ks) = (d = [])"

fun set_kid :: "string \<Rightarrow> ref_tree \<Rightarrow> (string \<times> ref_tree) list \<Rightarrow> (string \<times> ref_tree) list" where
  "set_kid k t [] = [(k, t)]"
| "set_kid k t ((k', t') # ks) = (if k = k' then (k, t) # ks else (k', t') # set_kid k t ks)"

definition ref_child :: "ref_tree \<Rightarrow> string \<Rightarrow> ref_tree res" where
  "ref_child t k = (case map_of (kids t) k of Some c \<Rightarrow> Inr c | None \<Rightarrow> Inl (BadPath k))"

definition ref_ptree :: "(ref_tree, string \<Rightarrow> ref_tree option) ptree_ops" where
  "ref_ptree = \<lparr>
     pt_new = Node [] [],
     pt_put = (\<lambda>k v t. Node (data t) (set_kid k (Node v []) (kids t))),
     pt_push_back = (\<lambda>k c t. Node (data t) (kids t @ [(k, c)])),
     pt_put_child = (\<lambda>k c t. Node (data t) (set_kid k c (kids t))),
     pt_get_child = ref_child,
     pt_items = kids,
     pt_get = (\<lambda>t k. bindR (ref_child t k) (\<lambda>c. Inr (data c))),
     write_file = (\<lambda>p t fs. Inr (fs(p \<mapsto> t))),
     read_file = (\<lambda>p fs. case fs p of Some t \<Rightarrow> Inr t | None \<Rightarrow> Inl (BadPath p))\<rparr>"

lemma map_of_set_kid: "map_of (set_kid k t ks) = (map_of ks)(k \<mapsto> t)"
  by (rule ext, induction k t ks rule: set_kid.induct) auto

interpretation ref_pt: ptree ref_ptree ref_obj
proof unfold_locales
  fix t c k
  show "ref_obj t \<Longrightarrow> ref_obj (pt_push_back ref_ptree k c t)"
    and "ref_obj t \<Longrightarrow> ref_obj (pt_put_child ref_ptree k c t)"
    by (cases t; simp add: ref_ptree_def)+
  show "ref_obj t \<Longrightarrow> ref_obj (pt_put ref_ptree k v t)" for v
    by (cases t; simp add: ref_ptree_def)
qed (auto simp: ref_ptree_def ref_child_def map_of_set_kid)

subsection \<open>Properties\<close>

text \<open>
  Parsing a configuration never overrides an argument that is already set, and keeps the
  argument map in key order, whatever the file holds.
\<close>

theorem config_keeps_arguments:
  assumes "parse_fidconfig pt files path m = Inr (n, m')"
  shows "(map_find m k = Some v \<longrightarrow> get_fidconfig m' k = v) \<and> (ordered m \<longrightarrow> ordered m')"
proof -
  have "keeps m m'"
    using assms by (auto simp: parse_fidconfig_def res_simps dest: keeps_parse_items)
  then show ?thesis by (simp add: keeps_def get_fidconfig_def)
qed

definition ref_files :: "string \<Rightarrow> ref_tree option" where
  "ref_files = [file_path \<mapsto> Node [] [(''fid'', Node [] [(''mysql'', item_mysql ref_ptree), (''rpc'', item_rpc ref_ptree)])]]"

lemma ref_files: "generate_defaultfidconfig ref_ptree Map.empty = Inr ref_files"
  by (simp add: generate_defaultfidconfig_def ref_ptree_def Let_def ref_files_def)

theorem config_keeps_arguments_witness:
  "\<exists>n m'. parse_fidconfig ref_ptree ref_files '''' [(''-dbname'', ''mine'')] = Inr (n, m') \<and>
     get_fidconfig m' ''-dbname'' = ''mine''"
proof -
  let ?m = "[(''-dbname'', ''mine'')] :: args"
  obtain n m' where p: "parse_fidconfig ref_ptree ref_files '''' ?m = Inr (n, m')"
    unfolding ref_pt.parse_generated [OF ref_files]
    by (simp add: parse_mysql_def parse_rpc_def insert_value_def ref_pt.get_mysql ref_pt.get_rpc)
  with config_keeps_arguments [OF p, of "''-dbname''" "''mine''"] show ?thesis by simp
qed

text \<open>
  C40: The generated default configuration, if it could be written, parsed with no argument set, gives the
  two sections: the return value is 2 and every option the program reads has its generated value.
\<close>

theorem default_config_roundtrip:
  assumes "ptree pt obj" and "generate_defaultfidconfig pt files = Inr files'"
  shows "\<exists>m. parse_fidconfig pt files' '''' [] = Inr (2, m) \<and>
    map (get_fidconfig m)
      [''-database'', ''-dbname'', ''-dbpasswd'', ''-dburl'', ''-dbport'', ''-rpcuser'', ''-rpcpassword'', ''-rpcconnect''] =
      [''fidchainblock'', ''fidchain'', ''123123'', ''127.0.0.1'', ''3306'', ''fidchainrpc20'',
       ''DSBs3pKSdpiTAPDms'', ''139.224.13.20'']"
  unfolding ptree.parse_generated [OF assms]
  by (simp add: parse_mysql_def parse_rpc_def insert_value_def ptree.get_mysql [OF assms(1)]
      ptree.get_rpc [OF assms(1)] get_fidconfig_def map_find_insert_below map_find_index_below map_add_def)

theorem default_config_roundtrip_witness:
  "\<exists>m. parse_fidconfig ref_ptree ref_files '''' [] = Inr (2, m) \<and>
    map (get_fidconfig m)
      [''-database'', ''-dbname'', ''-dbpasswd'', ''-dburl'', ''-dbport'', ''-rpcuser'', ''-rpcpassword'', ''-rpcconnect''] =
      [''fidchainblock'', ''fidchain'', ''123123'', ''127.0.0.1'', ''3306'', ''fidchainrpc20'',
       ''DSBs3pKSdpiTAPDms'', ''139.224.13.20'']"
  by (rule default_config_roundtrip [OF ref_pt.ptree_axioms ref_files])

end
