(* ===== verification/Http.thy ===== *)
theory Http
  imports Args JsonLibrary
begin

section \<open>HTTP and JSON-RPC messages (rpcprotocol.cpp, rpcprotocol.h)\<close>

text \<open>
  The writers of requests and replies, the readers of request lines, status lines, headers and
  messages, and the JSON-RPC objects. A \<open>std::istream\<close> is the text that is still to be read;
  reading past its end gives what the code sees: an empty line, or bytes that stay zero.
  The string algorithms of Boost are parameters with the laws of the locale \<open>boost_strings\<close>.
\<close>

subsection \<open>Boost string algorithms\<close>

text \<open>
  \<open>split\<close> is \<open>boost::split(v, s, is_any_of(" "))\<close>; \<open>trim\<close> and \<open>lower\<close> are \<open>boost::trim\<close> and
  \<open>boost::to_lower\<close> in the "C" locale.
\<close>

fun join_words :: "string list \<Rightarrow> string" where
  "join_words [] = []"
| "join_words [w] = w"
| "join_words (w # ws) = w @ '' '' @ join_words ws"

locale boost_strings =
  fixes split :: "string \<Rightarrow> string list" and trim :: "string \<Rightarrow> string" and lower :: "string \<Rightarrow> string"
  assumes split_join: "join_words (split s) = s"
    and split_words: "split s \<noteq> [] \<and> (\<forall>w \<in> set (split s). CHR '' '' \<notin> set w)"
    and trim_middle: "\<exists>a b. s = a @ trim s @ b \<and> blank a \<and> blank b"
    and trim_ends: "trim s \<noteq> [] \<Longrightarrow> \<not> is_space (hd (trim s)) \<and> \<not> is_space (last (trim s))"
    and lower_map: "lower s = map to_lower_char s"

subsection \<open>Streams\<close>

definition getline :: "string \<Rightarrow> string \<times> string" where
  "getline s = (takeWhile (\<lambda>c. c \<noteq> CHR 0x0A) s, drop 1 (dropWhile (\<lambda>c. c \<noteq> CHR 0x0A) s))"

text \<open>\<open>stream.read\<close> into a vector of \<open>n\<close> zero bytes.\<close>

definition stream_read :: "nat \<Rightarrow> string \<Rightarrow> string \<times> string" where
  "stream_read n s = (take n s @ replicate (n - length s) (CHR 0x00), drop n s)"

fun strstr :: "string \<Rightarrow> string \<Rightarrow> string option" where
  "strstr [] pat = (if pat = [] then Some [] else None)"
| "strstr (c # s) pat = (if take (length pat) (c # s) = pat then Some (c # s) else strstr s pat)"

subsection \<open>Status codes\<close>

definition HTTP_OK :: int32 where "HTTP_OK = 200"
definition HTTP_BAD_REQUEST :: int32 where "HTTP_BAD_REQUEST = 400"
definition HTTP_UNAUTHORIZED :: int32 where "HTTP_UNAUTHORIZED = 401"
definition HTTP_FORBIDDEN :: int32 where "HTTP_FORBIDDEN = 403"
definition HTTP_NOT_FOUND :: int32 where "HTTP_NOT_FOUND = 404"
definition HTTP_INTERNAL_SERVER_ERROR :: int32 where "HTTP_INTERNAL_SERVER_ERROR = 500"

lemmas http_codes = HTTP_OK_def HTTP_BAD_REQUEST_def HTTP_UNAUTHORIZED_def HTTP_FORBIDDEN_def
  HTTP_NOT_FOUND_def HTTP_INTERNAL_SERVER_ERROR_def

text \<open>The error codes of the server; the program only passes them on.\<close>

datatype RPCErrorCode =
    RPC_INVALID_REQUEST | RPC_METHOD_NOT_FOUND | RPC_INVALID_PARAMS | RPC_INTERNAL_ERROR | RPC_PARSE_ERROR
  | RPC_MISC_ERROR | RPC_FORBIDDEN_BY_SAFE_MODE | RPC_TYPE_ERROR | RPC_INVALID_ADDRESS_OR_KEY
  | RPC_OUT_OF_MEMORY | RPC_INVALID_PARAMETER | RPC_DATABASE_ERROR | RPC_DESERIALIZATION_ERROR
  | RPC_SERVER_NOT_STARTED
  | RPC_CLIENT_NOT_CONNECTED | RPC_CLIENT_IN_INITIAL_DOWNLOAD | RPC_CLIENT_NODE_ALREADY_ADDED
  | RPC_CLIENT_NODE_NOT_ADDED
  | RPC_WALLET_ERROR | RPC_WALLET_INSUFFICIENT_FUNDS | RPC_WALLET_INVALID_ACCOUNT_NAME
  | RPC_WALLET_KEYPOOL_RAN_OUT | RPC_WALLET_UNLOCK_NEEDED | RPC_WALLET_PASSPHRASE_INCORRECT
  | RPC_WALLET_WRONG_ENC_STATE | RPC_WALLET_ENCRYPTION_FAILED | RPC_WALLET_ALREADY_UNLOCKED

fun error_code :: "RPCErrorCode \<Rightarrow> int32" where
  "error_code RPC_INVALID_REQUEST = - 32600"
| "error_code RPC_METHOD_NOT_FOUND = - 32601"
| "error_code RPC_INVALID_PARAMS = - 32602"
| "error_code RPC_INTERNAL_ERROR = - 32603"
| "error_code RPC_PARSE_ERROR = - 32700"
| "error_code RPC_MISC_ERROR = - 1"
| "error_code RPC_FORBIDDEN_BY_SAFE_MODE = - 2"
| "error_code RPC_TYPE_ERROR = - 3"
| "error_code RPC_INVALID_ADDRESS_OR_KEY = - 5"
| "error_code RPC_OUT_OF_MEMORY = - 7"
| "error_code RPC_INVALID_PARAMETER = - 8"
| "error_code RPC_DATABASE_ERROR = - 20"
| "error_code RPC_DESERIALIZATION_ERROR = - 22"
| "error_code RPC_SERVER_NOT_STARTED = - 18"
| "error_code RPC_CLIENT_NOT_CONNECTED = - 9"
| "error_code RPC_CLIENT_IN_INITIAL_DOWNLOAD = - 10"
| "error_code RPC_CLIENT_NODE_ALREADY_ADDED = - 23"
| "error_code RPC_CLIENT_NODE_NOT_ADDED = - 24"
| "error_code RPC_WALLET_ERROR = - 4"
| "error_code RPC_WALLET_INSUFFICIENT_FUNDS = - 6"
| "error_code RPC_WALLET_INVALID_ACCOUNT_NAME = - 11"
| "error_code RPC_WALLET_KEYPOOL_RAN_OUT = - 12"
| "error_code RPC_WALLET_UNLOCK_NEEDED = - 13"
| "error_code RPC_WALLET_PASSPHRASE_INCORRECT = - 14"
| "error_code RPC_WALLET_WRONG_ENC_STATE = - 15"
| "error_code RPC_WALLET_ENCRYPTION_FAILED = - 16"
| "error_code RPC_WALLET_ALREADY_UNLOCKED = - 17"

subsection \<open>Writing\<close>

definition crlf :: string where
  "crlf = [CHR 0x0D, CHR 0x0A]"

definition header_line :: "string \<times> string \<Rightarrow> string" where
  "header_line item = fst item @ '': '' @ snd item @ crlf"

definition HTTPPost :: "string \<Rightarrow> (string, string) omap \<Rightarrow> string" where
  "HTTPPost strMsg mapRequestHeaders =
     ''POST / HTTP/1.1'' @ crlf
     @ ''User-Agent: FidChain-json-rpc/'' @ FormatFullVersion @ crlf
     @ ''Host: 127.0.0.1'' @ crlf
     @ ''Content-Type: application/json'' @ crlf
     @ ''Content-Length: '' @ dec_int (int (length strMsg)) @ crlf
     @ ''Connection: keep-alive'' @ crlf
     @ ''Accept: application/json'' @ crlf
     @ concat (map header_line mapRequestHeaders)
     @ crlf @ strMsg"

definition unauthorized_format :: string where
  \<open>unauthorized_format =
     ''HTTP/1.0 401 Authorization Required'' @ crlf
     @ ''Date: %s'' @ crlf
     @ ''Server: FidChain-json-rpc/%s'' @ crlf
     @ ''WWW-Authenticate: Basic realm="jsonrpc"'' @ crlf
     @ ''Content-Type: text/html'' @ crlf
     @ ''Content-Length: 296'' @ crlf
     @ crlf
     @ ''<!DOCTYPE HTML PUBLIC "-//W3C//DTD HTML 4.01 Transitional//EN"'' @ crlf
     @ ''"http://www.w3.org/TR/1999/REC-html401-19991224/loose.dtd">'' @ crlf
     @ ''<HTML>'' @ crlf
     @ ''<HEAD>'' @ crlf
     @ ''<TITLE>Error</TITLE>'' @ crlf
     @ ''<META HTTP-EQUIV='Content-Type' CONTENT='text/html; charset=ISO-8859-1'>'' @ crlf
     @ ''</HEAD>'' @ crlf
     @ ''<BODY><H1>401 Unauthorized.</H1></BODY>'' @ crlf
     @ ''</HTML>'' @ crlf\<close>

definition reply_format :: string where
  "reply_format =
     ''HTTP/1.1 %d %s'' @ crlf
     @ ''Date: %s'' @ crlf
     @ ''Connection: %s'' @ crlf
     @ ''Content-Length: %u'' @ crlf
     @ ''Content-Type: application/json'' @ crlf
     @ ''Server: FidChain-json-rpc/%s'' @ crlf
     @ crlf
     @ ''%s''"

definition cStatus :: "int32 \<Rightarrow> string" where
  "cStatus nStatus =
     (if nStatus = HTTP_OK then ''OK''
      else if nStatus = HTTP_BAD_REQUEST then ''Bad Request''
      else if nStatus = HTTP_FORBIDDEN then ''Forbidden''
      else if nStatus = HTTP_NOT_FOUND then ''Not Found''
      else if nStatus = HTTP_INTERNAL_SERVER_ERROR then ''Internal Server Error''
      else '''')"

text \<open>\<open>date\<close> is what \<open>rfc1123Time\<close> returns.\<close>

definition HTTPReply :: "string \<Rightarrow> int32 \<Rightarrow> string \<Rightarrow> bool \<Rightarrow> string res" where
  "HTTPReply date nStatus strMsg keepalive =
     (if nStatus = HTTP_UNAUTHORIZED
      then strprintf unauthorized_format [ArgString date, ArgString FormatFullVersion]
      else strprintf reply_format
        [ArgInt nStatus, ArgCString (cStatus nStatus), ArgString date,
         ArgCString (if keepalive then ''keep-alive'' else ''close''),
         ArgSize (of_nat (length strMsg)), ArgString FormatFullVersion, ArgString strMsg])"

subsection \<open>Reading\<close>

text \<open>The protocol version: the number after the first \<open>HTTP/1.\<close>.\<close>

definition read_proto :: "string \<Rightarrow> int32" where
  "read_proto s = (case strstr (c_str s) ''HTTP/1.'' of Some ver \<Rightarrow> atoi (drop 7 ver) | None \<Rightarrow> 0)"

text \<open>
  The out parameters are passed in and returned: the result, \<open>proto\<close>, \<open>http_method\<close>,
  \<open>http_uri\<close>, and the rest of the stream.
\<close>

definition ReadHTTPRequestLine ::
  "(string \<Rightarrow> string list) \<Rightarrow> string \<Rightarrow> int32 \<Rightarrow> string \<Rightarrow> string
    \<Rightarrow> bool \<times> int32 \<times> string \<times> string \<times> string" where
  "ReadHTTPRequestLine split stream proto http_method http_uri =
     (let (str, stream) = getline stream; vWords = split str in
      if length vWords < 2 then (False, proto, http_method, http_uri, stream)
      else
        let http_method = vWords ! 0 in
        if http_method \<noteq> ''GET'' \<and> http_method \<noteq> ''POST''
        then (False, proto, http_method, http_uri, stream)
        else
          let http_uri = vWords ! 1 in
          if http_uri = [] \<or> hd http_uri \<noteq> CHR ''/''
          then (False, proto, http_method, http_uri, stream)
          else
            let strProto = (if length vWords > 2 then vWords ! 2 else '''')
            in (True, read_proto strProto, http_method, http_uri, stream))"

definition ReadHTTPStatus :: "(string \<Rightarrow> string list) \<Rightarrow> string \<Rightarrow> int32 \<Rightarrow> int32 \<times> int32 \<times> string" where
  "ReadHTTPStatus split stream proto =
     (let (str, stream) = getline stream; vWords = split str in
      if length vWords < 2 then (HTTP_INTERNAL_SERVER_ERROR, proto, stream)
      else (atoi (vWords ! 1), read_proto str, stream))"

text \<open>One header: the text before and after the first colon.\<close>

definition store_header ::
  "(string \<Rightarrow> string) \<Rightarrow> (string \<Rightarrow> string) \<Rightarrow> string \<Rightarrow> (string, string) omap \<times> int32
    \<Rightarrow> (string, string) omap \<times> int32" where
  "store_header trim lower str st =
     (case dropWhile (\<lambda>c. c \<noteq> CHR '':'') str of
        [] \<Rightarrow> st
      | _ # after \<Rightarrow>
          (let strHeader = lower (trim (takeWhile (\<lambda>c. c \<noteq> CHR '':'') str));
               strValue = trim after
           in (map_put strHeader strValue (fst st),
               if strHeader = ''content-length'' then atoi strValue else snd st)))"

lemma getline_shrinks: "fst (getline s) \<noteq> [] \<Longrightarrow> length (snd (getline s)) < length s"
proof -
  assume "fst (getline s) \<noteq> []"
  then have "takeWhile (\<lambda>c. c \<noteq> CHR 0x0A) s \<noteq> []" by (simp add: getline_def)
  moreover have "length s = length (takeWhile (\<lambda>c. c \<noteq> CHR 0x0A) s) + length (dropWhile (\<lambda>c. c \<noteq> CHR 0x0A) s)"
    by (metis length_append takeWhile_dropWhile_id)
  ultimately show ?thesis by (cases "takeWhile (\<lambda>c. c \<noteq> CHR 0x0A) s") (simp_all add: getline_def)
qed

function read_headers ::
  "(string \<Rightarrow> string) \<Rightarrow> (string \<Rightarrow> string) \<Rightarrow> string \<Rightarrow> (string, string) omap \<times> int32
    \<Rightarrow> (string, string) omap \<times> int32 \<times> string" where
  "read_headers trim lower stream st =
     (let (str, stream') = getline stream in
      if str = [] \<or> str = [CHR 0x0D] then (fst st, snd st, stream')
      else read_headers trim lower stream' (store_header trim lower str st))"
  by pat_completeness auto
termination
proof (relation "measure (\<lambda>(_, _, s, _). length s)")
  fix trim lower and stream str stream' :: string and st x
  assume x: "x = getline stream" "(str, stream') = x" and n: "\<not> (str = [] \<or> str = [CHR 0x0D])"
  from x have "getline stream = (str, stream')" by simp
  then show "((trim, lower, stream', store_header trim lower str st), (trim, lower, stream, st))
      \<in> measure (\<lambda>(_, _, s, _). length s)"
    using getline_shrinks [of stream] n by simp
qed simp

declare read_headers.simps [simp del]

definition ReadHTTPHeaders ::
  "(string \<Rightarrow> string) \<Rightarrow> (string \<Rightarrow> string) \<Rightarrow> string \<Rightarrow> (string, string) omap
    \<Rightarrow> int32 \<times> (string, string) omap \<times> string" where
  "ReadHTTPHeaders trim lower stream mapHeadersRet =
     (case read_headers trim lower stream (mapHeadersRet, 0) of (m, nLen, stream) \<Rightarrow> (nLen, m, stream))"

text \<open>\<open>ReadHTTPMessage\<close>: the result, the headers, the message and the rest of the stream.\<close>

definition ReadHTTPMessage ::
  "(string \<Rightarrow> string) \<Rightarrow> (string \<Rightarrow> string) \<Rightarrow> string \<Rightarrow> int32
    \<Rightarrow> int32 \<times> (string, string) omap \<times> string \<times> string" where
  "ReadHTTPMessage trim lower stream nProto =
     (case ReadHTTPHeaders trim lower stream [] of (nLen, m, stream) \<Rightarrow>
        if sint nLen < 0 \<or> sint nLen > MAX_SIZE then (HTTP_INTERNAL_SERVER_ERROR, m, '''', stream)
        else
          let (strMessageRet, stream) =
                (if sint nLen > 0 then stream_read (nat (sint nLen)) stream else ('''', stream));
              (sConHdr, m) = map_index '''' ''connection'' m;
              m = (if sConHdr \<noteq> ''close'' \<and> sConHdr \<noteq> ''keep-alive''
                   then map_put ''connection'' (if sint nProto \<ge> 1 then ''keep-alive'' else ''close'') m
                   else m)
          in (HTTP_OK, m, strMessageRet, stream))"

subsection \<open>JSON-RPC objects\<close>

definition JSONRPCRequest :: "string \<Rightarrow> jvalue list \<Rightarrow> jvalue \<Rightarrow> string res" where
  "JSONRPCRequest strMethod params ident =
     (let request = obj_add (obj_add (obj_add [] ''method'' (VStr strMethod)) ''params'' (VArr params)) ''id'' ident
      in bindR (write_string (VObj request) False) (\<lambda>s. Inr (s @ [CHR 0x0A])))"

definition JSONRPCReplyObj :: "jvalue \<Rightarrow> jvalue \<Rightarrow> jvalue \<Rightarrow> jobject" where
  "JSONRPCReplyObj result error ident =
     (let reply = (if type_of error \<noteq> null_type then obj_add [] ''result'' VNull
                   else obj_add [] ''result'' result)
      in obj_add (obj_add reply ''error'' error) ''id'' ident)"

definition JSONRPCReply :: "jvalue \<Rightarrow> jvalue \<Rightarrow> jvalue \<Rightarrow> string res" where
  "JSONRPCReply result error ident =
     bindR (write_string (VObj (JSONRPCReplyObj result error ident)) False) (\<lambda>s. Inr (s @ [CHR 0x0A]))"

definition JSONRPCError :: "int32 \<Rightarrow> string \<Rightarrow> jobject" where
  "JSONRPCError code message =
     obj_add (obj_add [] ''code'' (value_of_int code)) ''message'' (VStr message)"


text \<open>The client finds in the error object what the server put there, and the codes are distinct.\<close>

lemma error_object_code:
  "get_int (find_value (JSONRPCError code message) ''code'') = Inr code"
  "find_value (JSONRPCError code message) ''message'' = VStr message"
  by (simp_all add: JSONRPCError_def obj_add_def value_of_int_def accessors_typed)

lemma error_code_inj: "inj error_code"
proof (rule injI)
  fix a b
  assume "error_code a = error_code b"
  then show "a = b" by (cases a; cases b) (simp_all only: error_code.simps, simp_all)
qed

subsection \<open>What the string algorithms return\<close>

fun words :: "string \<Rightarrow> string list" where
  "words [] = [[]]"
| "words (c # s) = (if c = CHR '' '' then [] # words s
     else (case words s of w # ws \<Rightarrow> (c # w) # ws | [] \<Rightarrow> [[c]]))"

definition strip :: "string \<Rightarrow> string" where
  "strip s = rev (dropWhile is_space (rev (dropWhile is_space s)))"

lemma words_nonempty [simp]: "words s \<noteq> []"
  by (cases s) (auto split: list.split)

lemma words_word: "CHR '' '' \<notin> set w \<Longrightarrow> words w = [w]"
  by (induction w) auto

lemma words_append: "CHR '' '' \<notin> set w \<Longrightarrow> words (w @ CHR '' '' # s) = w # words s"
  by (induction w) auto

lemma words_join: "ws \<noteq> [] \<Longrightarrow> \<forall>w \<in> set ws. CHR '' '' \<notin> set w \<Longrightarrow> words (join_words ws) = ws"
  by (induction ws rule: join_words.induct) (auto simp: words_word words_append)

lemma join_words_words: "join_words (words s) = s"
proof (induction s)
  case (Cons c s)
  obtain w ws where w: "words s = w # ws" by (cases "words s") auto
  have "join_words ((c # w) # ws) = c # join_words (w # ws)" by (cases ws) auto
  moreover have "join_words ([] # w # ws) = CHR '' '' # join_words (w # ws)" by simp
  ultimately show ?case using Cons w by simp
qed simp

lemma words_no_blank: "w \<in> set (words s) \<Longrightarrow> CHR '' '' \<notin> set w"
  by (induction s arbitrary: w) (auto split: list.splits if_splits)

lemma strip_middle:
  assumes "blank a" and "blank b" and "m \<noteq> [] \<Longrightarrow> \<not> is_space (hd m) \<and> \<not> is_space (last m)"
  shows "strip (a @ m @ b) = m"
proof -
  have all: "dropWhile is_space s = []" if "blank s" for s
    using that by (simp add: blank_def)
  have app: "dropWhile is_space (s @ t) = dropWhile is_space t" if "blank s" for s t
    using that by (simp add: blank_def dropWhile_append2)
  have "blank (rev b)" using assms(2) by (simp add: blank_def)
  show ?thesis
  proof (cases "m = []")
    case True
    have e: "dropWhile is_space (a @ m @ b) = []" using assms(1,2) True by (auto simp: blank_def)
    show ?thesis unfolding strip_def e by (simp add: True)
  next
    case False
    then obtain c m' d m'' where m: "m = c # m'" "rev m = d # m''" by (metis neq_Nil_conv rev_is_Nil_conv)
    then have ns: "\<not> is_space c" "\<not> is_space d"
      using assms(3) False by (simp, metis False assms(3) hd_rev list.sel(1))
    have "dropWhile is_space (a @ m @ b) = m @ b" using app [OF assms(1)] m(1) ns by simp
    moreover have "dropWhile is_space (rev (m @ b)) = rev m"
      using app [OF \<open>blank (rev b)\<close>] m(2) ns by simp
    ultimately show ?thesis by (simp add: strip_def)
  qed
qed

lemma strip_parts: "\<exists>a b. s = a @ strip s @ b \<and> blank a \<and> blank b"
proof -
  let ?t = "dropWhile is_space s"
  have s: "s = takeWhile is_space s @ ?t" by simp
  have "rev ?t = takeWhile is_space (rev ?t) @ dropWhile is_space (rev ?t)" by simp
  then have "?t = strip s @ rev (takeWhile is_space (rev ?t))"
    unfolding strip_def by (metis rev_append rev_rev_ident)
  with s have "s = takeWhile is_space s @ strip s @ rev (takeWhile is_space (rev ?t))" by metis
  moreover have "blank (takeWhile is_space s)" "blank (rev (takeWhile is_space (rev ?t)))"
    by (auto simp: blank_def dest: set_takeWhileD)
  ultimately show ?thesis by blast
qed

lemma strip_ends: "strip s \<noteq> [] \<Longrightarrow> \<not> is_space (hd (strip s)) \<and> \<not> is_space (last (strip s))"
proof -
  assume ne: "strip s \<noteq> []"
  let ?r = "dropWhile is_space (rev (dropWhile is_space s))"
  have r: "?r \<noteq> []" using ne by (simp add: strip_def)
  then have "\<not> is_space (hd ?r)" by (rule hd_dropWhile)
  moreover have "last (strip s) = hd ?r" by (simp add: strip_def last_rev)
  moreover have "\<not> is_space (hd (strip s))"
  proof -
    obtain a b where "dropWhile is_space s = strip s @ b"
      by (metis append_eq_conv_conj rev_append rev_rev_ident strip_def takeWhile_dropWhile_id)
    then have "hd (strip s) = hd (dropWhile is_space s)" "dropWhile is_space s \<noteq> []"
      using ne by auto
    then show ?thesis using hd_dropWhile by metis
  qed
  ultimately show ?thesis by simp
qed

text \<open>The laws determine the three functions.\<close>

context boost_strings
begin

lemma split_eq: "split s = words s"
  using words_join [of "split s"] split_words [of s] by (simp add: split_join)

lemma trim_eq: "trim s = strip s"
proof -
  obtain a b where s: "s = a @ trim s @ b" and ab: "blank a" "blank b" using trim_middle by blast
  have "strip (a @ trim s @ b) = trim s" by (rule strip_middle [OF ab trim_ends])
  then show ?thesis using s by simp
qed

lemma lower_eq: "lower = map to_lower_char"
  by (rule ext) (rule lower_map)

end

interpretation ref_strings: boost_strings words strip "map to_lower_char"
  by unfold_locales (simp_all add: join_words_words words_no_blank strip_parts strip_ends)

end
