(* ===== verification/HttpRoundtrip.thy ===== *)
theory HttpRoundtrip
  imports Http
begin

section \<open>What one side writes the other side reads\<close>

text \<open>
  The readers of \<open>rpcprotocol.cpp\<close> on the messages its writers produce: requests with their
  headers, replies with their status, and the JSON-RPC objects in the bodies.
\<close>

abbreviation low :: "string \<Rightarrow> string" where
  "low \<equiv> map to_lower_char"

subsection \<open>Lines\<close>

lemma getline_lf: "CHR 0x0A \<notin> set l \<Longrightarrow> getline (l @ CHR 0x0A # r) = (l, r)"
  by (induction l) (auto simp: getline_def)

lemma getline_crlf: "CHR 0x0A \<notin> set l \<Longrightarrow> getline (l @ crlf @ r) = (l @ [CHR 0x0D], r)"
  using getline_lf [of "l @ [CHR 0x0D]" r] by (simp add: crlf_def)

lemma strip_around: "blank a \<Longrightarrow> blank b \<Longrightarrow> strip (a @ v @ b) = strip v"
proof -
  assume ab: "blank a" "blank b"
  obtain c d where v: "v = c @ strip v @ d" "blank c" "blank d" using strip_parts by blast
  have "strip ((a @ c) @ strip v @ (d @ b)) = strip v"
    by (rule strip_middle [OF _ _ strip_ends]) (use ab v in simp_all)
  moreover have "a @ v @ b = (a @ c) @ strip v @ (d @ b)" using v(1) by (metis append_assoc)
  ultimately show ?thesis by metis
qed

lemma blank_cr [simp]: "blank [CHR 0x0D]" "blank '' ''" "is_space (CHR 0x0D)" "is_space (CHR '' '')"
  by (simp_all add: blank_def is_space_def code_of_def)

subsection \<open>Headers\<close>

definition header_ok :: "string \<times> string \<Rightarrow> bool" where
  "header_ok h \<longleftrightarrow> fst h \<noteq> [] \<and> CHR '':'' \<notin> set (fst h) \<and> CHR 0x0A \<notin> set (fst h) \<union> set (snd h)"

definition put_header :: "string \<times> string \<Rightarrow> (string, string) omap \<times> int32 \<Rightarrow> (string, string) omap \<times> int32"
  where
  "put_header h st = (let k = low (strip (fst h)); v = strip (snd h) in
     (map_put k v (fst st), if k = ''content-length'' then atoi v else snd st))"

lemma takeWhile_colon: "CHR '':'' \<notin> set k \<Longrightarrow>
    takeWhile (\<lambda>c. c \<noteq> CHR '':'') (k @ CHR '':'' # s) = k \<and>
    dropWhile (\<lambda>c. c \<noteq> CHR '':'') (k @ CHR '':'' # s) = CHR '':'' # s"
  by (induction k) auto

lemma store_header_line:
  "header_ok h \<Longrightarrow>
     store_header strip low (fst h @ '': '' @ snd h @ [CHR 0x0D]) st = put_header h st"
  using takeWhile_colon [of "fst h" "CHR '' '' # snd h @ [CHR 0x0D]"]
    strip_around [of "'' ''" "[CHR 0x0D]" "snd h"]
  by (simp add: store_header_def header_ok_def put_header_def Let_def)

lemma read_headers_line:
  assumes "header_ok h"
  shows "read_headers strip low (header_line h @ rest) st = read_headers strip low rest (put_header h st)"
proof -
  have "getline (header_line h @ rest) = (fst h @ '': '' @ snd h @ [CHR 0x0D], rest)"
    using getline_crlf [of "fst h @ '': '' @ snd h" rest] assms
    by (simp add: header_line_def header_ok_def)
  then show ?thesis
    using assms store_header_line [OF assms]
    by (subst read_headers.simps) (simp add: header_ok_def)
qed

lemma read_headers_lines:
  assumes "\<forall>h \<in> set hs. header_ok h"
  shows "read_headers strip low (concat (map header_line hs) @ crlf @ body) st =
    (fst (fold put_header hs st), snd (fold put_header hs st), body)"
  using assms
proof (induction hs arbitrary: st)
  case Nil
  have "getline (crlf @ body) = ([CHR 0x0D], body)" using getline_crlf [of "[]" body] by simp
  then show ?case by (subst read_headers.simps) simp
next
  case (Cons h hs)
  then show ?case by (simp add: read_headers_line)
qed

lemma fold_put_header_map:
  "map_find (fst (fold put_header hs st)) =
     map_find (fst st) ++ map_of (rev (map (\<lambda>h. (low (strip (fst h)), strip (snd h))) hs))"
proof (induction hs arbitrary: st)
  case Nil
  then show ?case by simp
next
  case (Cons h hs)
  have "map_find (fst (put_header h st)) = (map_find (fst st))(low (strip (fst h)) \<mapsto> strip (snd h))"
    by (simp add: put_header_def Let_def map_find_put fun_eq_iff)
  then show ?case unfolding fold_simps Cons by (simp add: fun_eq_iff map_add_def split: option.split)
qed

lemma fold_put_header_length:
  "\<forall>h \<in> set hs. low (strip (fst h)) \<noteq> ''content-length'' \<Longrightarrow>
     snd (fold put_header hs st) = snd st"
  by (induction hs arbitrary: st) (auto simp: put_header_def Let_def)

lemma atoi_dec:
  assumes "- (2 ^ 31) \<le> i" and "i < 2 ^ 31" and "stops_digits rest"
  shows "atoi (dec_int i @ rest) = word_of_int i"
  using parse_long_dec_int [of i rest] assms by (simp add: atoi_def)

lemma strip_dec: "strip (dec_int i) = dec_int i"
  using strip_middle [of "[]" "[]" "dec_int i"] dec_int_no_space [of i] dec_int_nonempty [of i]
  by (simp del: dec_int_nonempty)

text \<open>Reading a message whose last length header is right.\<close>

lemma read_message:
  assumes "\<forall>h \<in> set (hs @ (ck, dec_int (int (length msg))) # hs'). header_ok h"
    and "low (strip ck) = ''content-length''"
    and "\<forall>h \<in> set hs'. low (strip (fst h)) \<noteq> ''content-length''"
    and "int (length msg) \<le> MAX_SIZE"
  shows "\<exists>m. ReadHTTPMessage strip low
      (concat (map header_line (hs @ (ck, dec_int (int (length msg))) # hs')) @ crlf @ msg) nProto
        = (HTTP_OK, m, msg, []) \<and>
    (\<forall>k. k \<noteq> ''connection'' \<longrightarrow> map_find m k =
      map_of (rev (map (\<lambda>h. (low (strip (fst h)), strip (snd h)))
        (hs @ (ck, dec_int (int (length msg))) # hs'))) k) \<and>
    map_find m ''connection'' = (let c = map_of (rev (map (\<lambda>h. (low (strip (fst h)), strip (snd h)))
        (hs @ (ck, dec_int (int (length msg))) # hs'))) ''connection'' in
      if c = Some ''close'' \<or> c = Some ''keep-alive'' then c
      else Some (if sint nProto \<ge> 1 then ''keep-alive'' else ''close''))"
proof -
  let ?hs = "hs @ (ck, dec_int (int (length msg))) # hs'"
  let ?st = "fold put_header ?hs ([], 0)"
  have len: "int (length msg) < 2 ^ 31" using assms(4) by (simp add: MAX_SIZE_def)
  have "snd ?st = atoi (dec_int (int (length msg)) @ [])"
    using assms(2,3) by (simp add: fold_put_header_length) (simp add: put_header_def strip_dec Let_def)
  also have "\<dots> = word_of_int (int (length msg))" using len by (intro atoi_dec) simp_all
  finally have n: "sint (snd ?st) = int (length msg)"
    using len sint32_of_int [of "int (length msg)"] by simp
  have h: "ReadHTTPHeaders strip low (concat (map header_line ?hs) @ crlf @ msg) []
      = (snd ?st, fst ?st, msg)"
    using read_headers_lines [OF assms(1), of msg "([], 0)"] by (simp add: ReadHTTPHeaders_def)
  have body: "(if sint (snd ?st) > 0 then stream_read (nat (sint (snd ?st))) msg else ('''', msg)) = (msg, [])"
    unfolding n by (cases msg) (simp_all add: stream_read_def)
  have ok: "\<not> (sint (snd ?st) < 0 \<or> sint (snd ?st) > MAX_SIZE)" unfolding n using assms(4) by simp
  obtain sCon m0 where i: "map_index '''' ''connection'' (fst ?st) = (sCon, m0)" by fastforce
  define m where "m = (if sCon \<noteq> ''close'' \<and> sCon \<noteq> ''keep-alive''
      then map_put ''connection'' (if sint nProto \<ge> 1 then ''keep-alive'' else ''close'') m0 else m0)"
  have r: "ReadHTTPMessage strip low (concat (map header_line ?hs) @ crlf @ msg) nProto
      = (HTTP_OK, m, msg, [])"
    unfolding ReadHTTPMessage_def h prod.case Let_def body if_not_P [OF ok] i m_def by simp
  have f: "map_find (fst ?st) = map_of (rev (map (\<lambda>h. (low (strip (fst h)), strip (snd h))) ?hs))"
    unfolding fold_put_header_map by (simp add: omap.find_empty)
  have sCon: "sCon = (case map_find (fst ?st) ''connection'' of None \<Rightarrow> [] | Some v \<Rightarrow> v)"
    using map_index_value [of "''''" "''connection''" "fst ?st"] i by simp
  have m0: "map_find m0 k = (if k = ''connection'' \<and> map_find (fst ?st) k = None then Some ''''
      else map_find (fst ?st) k)" for k
    using map_index_find [of "''''" "''connection''" "fst ?st" k] i by auto
  have "map_find m k = map_find (fst ?st) k" if "k \<noteq> ''connection''" for k
    using that by (simp add: m_def map_find_put m0)
  moreover have "map_find m ''connection'' = (let c = map_find (fst ?st) ''connection'' in
      if c = Some ''close'' \<or> c = Some ''keep-alive'' then c
      else Some (if sint nProto \<ge> 1 then ''keep-alive'' else ''close''))"
    by (auto simp: m_def map_find_put m0 sCon Let_def split: option.split)
  ultimately show ?thesis using r unfolding f by blast
qed

subsection \<open>Requests\<close>

text \<open>The headers of a request, in the order \<open>HTTPPost\<close> writes them.\<close>

definition post_headers :: "string \<Rightarrow> (string, string) omap \<Rightarrow> (string \<times> string) list" where
  "post_headers strMsg mapRequestHeaders =
     [(''User-Agent'', ''FidChain-json-rpc/'' @ FormatFullVersion), (''Host'', ''127.0.0.1''),
      (''Content-Type'', ''application/json''), (''Content-Length'', dec_int (int (length strMsg))),
      (''Connection'', ''keep-alive''), (''Accept'', ''application/json'')] @ mapRequestHeaders"

text \<open>The header map a list of headers is read into: names in lower case, values trimmed, the last
  one counts.\<close>

definition header_map :: "(string \<times> string) list \<Rightarrow> string \<rightharpoonup> string" where
  "header_map hs = map_of (rev (map (\<lambda>h. (low (strip (fst h)), strip (snd h))) hs))"

text \<open>A connection header that does not say \<open>close\<close> says \<open>keep-alive\<close>, in version 1.\<close>

definition kept_alive :: "(string \<rightharpoonup> string) \<Rightarrow> string \<rightharpoonup> string" where
  "kept_alive h k =
     (if k = ''connection'' then Some (if h k = Some ''close'' then ''close'' else ''keep-alive'') else h k)"

lemma HTTPPost_lines:
  "HTTPPost strMsg hs =
     ''POST / HTTP/1.1'' @ crlf @ concat (map header_line (post_headers strMsg hs)) @ crlf @ strMsg"
  by (simp add: HTTPPost_def post_headers_def header_line_def)

lemma request_line_read:
  "ReadHTTPRequestLine words (''POST / HTTP/1.1'' @ crlf @ rest) p m u = (True, 1, ''POST'', ''/'', rest)"
proof -
  have g: "getline (''POST / HTTP/1.1'' @ crlf @ rest) = (''POST / HTTP/1.1'' @ [CHR 0x0D], rest)"
    by (rule getline_crlf) simp
  have w: "words (''POST / HTTP/1.1'' @ [CHR 0x0D]) = [''POST'', ''/'', ''HTTP/1.1'' @ [CHR 0x0D]]"
    by code_simp
  have p: "read_proto (''HTTP/1.1'' @ [CHR 0x0D]) = 1" by code_simp
  show ?thesis unfolding ReadHTTPRequestLine_def g Let_def prod.case w by (simp add: p [simplified])
qed

lemma dec_int_no_lf: "CHR 0x0A \<notin> set (dec_int i)"
  by (rule dec_int_not_in) (simp_all add: is_digit_def code_of_def)

lemma post_headers_ok:
  "\<forall>h \<in> set hs. header_ok h \<Longrightarrow> \<forall>h \<in> set (post_headers strMsg hs). header_ok h"
  by (simp add: post_headers_def header_ok_def FormatFullVersion_def dec_int_no_lf)

lemma post_read:
  assumes "\<forall>h \<in> set hs. header_ok h \<and> low (strip (fst h)) \<noteq> ''content-length''"
    and "int (length strMsg) \<le> MAX_SIZE"
  shows "\<exists>rest m. ReadHTTPRequestLine words (HTTPPost strMsg hs) p mt u = (True, 1, ''POST'', ''/'', rest) \<and>
    ReadHTTPMessage strip low rest 1 = (HTTP_OK, m, strMsg, []) \<and>
    (\<forall>k. map_find m k = kept_alive (header_map (post_headers strMsg hs)) k)"
proof -
  let ?a = "[(''User-Agent'', ''FidChain-json-rpc/'' @ FormatFullVersion), (''Host'', ''127.0.0.1''),
      (''Content-Type'', ''application/json'')]"
  let ?b = "[(''Connection'', ''keep-alive''), (''Accept'', ''application/json'')] @ hs"
  have split: "?a @ (''Content-Length'', dec_int (int (length strMsg))) # ?b = post_headers strMsg hs"
    by (simp add: post_headers_def)
  have l: "low (strip ''Content-Length'') = ''content-length''"
    "low (strip ''Connection'') \<noteq> ''content-length''" "low (strip ''Accept'') \<noteq> ''content-length''"
    by code_simp+
  have ok: "\<forall>h \<in> set (post_headers strMsg hs). header_ok h"
    using assms(1) by (intro post_headers_ok) blast
  have b: "\<forall>h \<in> set ?b. low (strip (fst h)) \<noteq> ''content-length''" using assms(1) l by auto
  have "\<exists>m. ReadHTTPMessage strip low
      (concat (map header_line (post_headers strMsg hs)) @ crlf @ strMsg) 1 = (HTTP_OK, m, strMsg, []) \<and>
    (\<forall>k. map_find m k = kept_alive (header_map (post_headers strMsg hs)) k)"
    using read_message [of ?a "''Content-Length''" strMsg ?b 1, unfolded split, OF ok l(1) b assms(2)]
    unfolding header_map_def kept_alive_def by (auto simp: Let_def)
  then show ?thesis unfolding HTTPPost_lines request_line_read by blast
qed

lemma boost_eqs:
  assumes "boost_strings split trim lower"
  shows "split = words" "trim = strip" "lower = low"
  using boost_strings.split_eq [OF assms] boost_strings.trim_eq [OF assms] boost_strings.lower_eq [OF assms]
  by (simp_all add: fun_eq_iff)

text \<open>
  C35: A request written by \<open>HTTPPost\<close> is read back by the server's readers: the request line gives
  version 1, method POST and uri \<open>/\<close>, and \<open>ReadHTTPMessage\<close> on the rest returns \<open>HTTP_OK\<close>, exactly
  the message, and a header map with every header that was written, those of \<open>HTTPPost\<close> and those the
  request was given (the last one of a name, trimmed, under its lower-case name), and no other, and leaves
  nothing behind. The header \<open>connection\<close> is \<open>keep-alive\<close>, as \<open>HTTPPost\<close> writes it, or \<open>close\<close>
  if the last one given says so; what else a given one says is lost. This is for messages up to
  \<open>MAX_SIZE\<close> and headers on one line that do not set the length.
\<close>

theorem http_post_read:
  assumes "boost_strings split trim lower"
    and "\<forall>h \<in> set mapRequestHeaders. header_ok h \<and> lower (trim (fst h)) \<noteq> ''content-length''"
    and "int (length strMsg) \<le> MAX_SIZE"
  shows "\<exists>rest m.
    ReadHTTPRequestLine split (HTTPPost strMsg mapRequestHeaders) proto http_method http_uri
      = (True, 1, ''POST'', ''/'', rest) \<and>
    ReadHTTPMessage trim lower rest 1 = (HTTP_OK, m, strMsg, []) \<and>
    (\<forall>k. map_find m k = (let h = header_map (post_headers strMsg mapRequestHeaders) in
       if k = ''connection'' then Some (if h k = Some ''close'' then ''close'' else ''keep-alive'') else h k)) \<and>
    ((\<forall>h \<in> set mapRequestHeaders. lower (trim (fst h)) \<noteq> ''connection'') \<longrightarrow>
       map_find m ''connection'' = Some ''keep-alive'')"
proof -
  note e = boost_eqs [OF assms(1)]
  have c: "header_map (post_headers strMsg hs) ''connection'' = Some ''keep-alive''"
    if "\<forall>h \<in> set hs. low (strip (fst h)) \<noteq> ''connection''" for hs
  proof -
    have n: "low (strip ''Connection'') = ''connection''" "low (strip ''Accept'') \<noteq> ''connection''"
      "strip ''keep-alive'' = ''keep-alive''" by code_simp+
    have "map_of (rev (map (\<lambda>h. (low (strip (fst h)), strip (snd h))) hs)) ''connection'' = None"
      using that by (auto simp: map_of_eq_None_iff)
    then show ?thesis using n by (simp add: header_map_def post_headers_def map_add_def)
  qed
  show ?thesis
    using post_read [of mapRequestHeaders strMsg proto http_method http_uri] assms(2,3) c [of mapRequestHeaders]
    unfolding e kept_alive_def Let_def by fastforce
qed

theorem http_post_read_witness:
  "\<exists>rest m. ReadHTTPRequestLine words (HTTPPost ''{}'' [(''Authorization'', ''Basic OjU='')]) 0 '''' ''''
      = (True, 1, ''POST'', ''/'', rest) \<and>
    ReadHTTPMessage strip (map to_lower_char) rest 1 = (HTTP_OK, m, ''{}'', []) \<and>
    map_find m ''authorization'' = Some ''Basic OjU='' \<and> map_find m ''host'' = Some ''127.0.0.1'' \<and>
    map_find m ''connection'' = Some ''keep-alive''"
proof -
  have ok: "\<forall>h \<in> set [(''Authorization'', ''Basic OjU='')].
      header_ok h \<and> low (strip (fst h)) \<noteq> ''content-length''"
    by code_simp
  have len: "int (length ''{}'') \<le> MAX_SIZE" by (simp add: MAX_SIZE_def)
  have con: "\<forall>h \<in> set [(''Authorization'', ''Basic OjU='')]. low (strip (fst h)) \<noteq> ''connection''"
    by code_simp
  have "header_map (post_headers ''{}'' [(''Authorization'', ''Basic OjU='')]) ''authorization''
      = Some ''Basic OjU=''"
    "header_map (post_headers ''{}'' [(''Authorization'', ''Basic OjU='')]) ''host'' = Some ''127.0.0.1''"
    by code_simp+
  with http_post_read [OF ref_strings.boost_strings_axioms ok len, of 0 "''''" "''''"] con
  show ?thesis by (fastforce simp: Let_def)
qed

subsection \<open>Replies\<close>

definition reply_headers :: "string \<Rightarrow> bool \<Rightarrow> string \<Rightarrow> (string \<times> string) list" where
  "reply_headers date keepalive strMsg =
     [(''Date'', date), (''Connection'', if keepalive then ''keep-alive'' else ''close''),
      (''Content-Length'', dec_int (int (length strMsg))), (''Content-Type'', ''application/json''),
      (''Server'', ''FidChain-json-rpc/'' @ FormatFullVersion)]"

definition unauthorized_headers :: "string \<Rightarrow> (string \<times> string) list" where
  \<open>unauthorized_headers date =
     [(''Date'', date), (''Server'', ''FidChain-json-rpc/'' @ FormatFullVersion),
      (''WWW-Authenticate'', ''Basic realm="jsonrpc"''), (''Content-Type'', ''text/html''),
      (''Content-Length'', ''296'')]\<close>

definition unauthorized_body :: string where
  \<open>unauthorized_body =
     ''<!DOCTYPE HTML PUBLIC "-//W3C//DTD HTML 4.01 Transitional//EN"'' @ crlf
     @ ''"http://www.w3.org/TR/1999/REC-html401-19991224/loose.dtd">'' @ crlf
     @ ''<HTML>'' @ crlf
     @ ''<HEAD>'' @ crlf
     @ ''<TITLE>Error</TITLE>'' @ crlf
     @ ''<META HTTP-EQUIV='Content-Type' CONTENT='text/html; charset=ISO-8859-1'>'' @ crlf
     @ ''</HEAD>'' @ crlf
     @ ''<BODY><H1>401 Unauthorized.</H1></BODY>'' @ crlf
     @ ''</HTML>'' @ crlf\<close>

lemma escape_plain: "CHR ''%'' \<notin> set s \<Longrightarrow> escape_percent s = s"
  by (induction s) (auto simp: escape_percent_def)

lemma reply_text:
  assumes "nStatus \<noteq> HTTP_UNAUTHORIZED" and "int (length strMsg) \<le> MAX_SIZE"
  shows "HTTPReply date nStatus strMsg keepalive = Inr (''HTTP/1.1 '' @ dec_int (sint nStatus) @ '' ''
      @ cStatus nStatus @ crlf @ concat (map header_line (reply_headers date keepalive strMsg)) @ crlf @ strMsg)"
proof -
  let ?ps = "[Lit ''HTTP/1.1 '', Conv (CHR ''d'') (ArgInt nStatus), Lit '' '',
    Conv (CHR ''s'') (ArgCString (cStatus nStatus)), Lit (crlf @ ''Date: ''), Conv (CHR ''s'') (ArgString date),
    Lit (crlf @ ''Connection: ''),
    Conv (CHR ''s'') (ArgCString (if keepalive then ''keep-alive'' else ''close'')),
    Lit (crlf @ ''Content-Length: ''), Conv (CHR ''u'') (ArgSize (of_nat (length strMsg))),
    Lit (crlf @ ''Content-Type: application/json'' @ crlf @ ''Server: FidChain-json-rpc/''),
    Conv (CHR ''s'') (ArgString FormatFullVersion), Lit (crlf @ crlf), Conv (CHR ''s'') (ArgString strMsg)]"
  have ok: "\<forall>p \<in> set ?ps. piece_ok p" by (simp add: plain_convs_def crlf_def)
  have n: "uint (of_nat (length strMsg) :: 64 word) = int (length strMsg)"
    using assms(2) by (simp add: MAX_SIZE_def unsigned_of_nat take_bit_nat_eq_self)
  have c: "c_str (cStatus nStatus) = cStatus nStatus" "c_str (if keepalive then ''keep-alive'' else ''close'')
      = (if keepalive then ''keep-alive'' else ''close'')"
    by (simp_all add: cStatus_def c_str_no_nul)
  show ?thesis
    using strprintf_pieces [OF ok] assms(1)
    by (simp add: HTTPReply_def reply_format_def escape_plain crlf_def n c reply_headers_def header_line_def)
qed

lemma reply_headers_ok:
  "CHR 0x0A \<notin> set date \<Longrightarrow> \<forall>h \<in> set (reply_headers date keepalive strMsg). header_ok h"
  by (simp add: reply_headers_def header_ok_def FormatFullVersion_def dec_int_no_lf)

lemma cStatus_no_lf: "CHR 0x0A \<notin> set (cStatus nStatus)"
  by (simp add: cStatus_def)

lemma dec_int_no_blank: "CHR '' '' \<notin> set (dec_int i)"
  by (rule dec_int_not_in) (simp_all add: is_digit_def code_of_def)

lemma status_line_read:
  assumes "CHR 0x0A \<notin> set cs"
  shows "ReadHTTPStatus words (''HTTP/1.1 '' @ dec_int (sint nStatus) @ '' '' @ cs @ crlf @ rest) p
    = (nStatus, 1, rest)"
proof -
  let ?l = "''HTTP/1.1 '' @ dec_int (sint nStatus) @ '' '' @ cs"
  have g: "getline (?l @ crlf @ rest) = (?l @ [CHR 0x0D], rest)"
    by (rule getline_crlf) (simp add: assms dec_int_no_lf)
  have w: "words (?l @ [CHR 0x0D]) = ''HTTP/1.1'' # dec_int (sint nStatus) # words (cs @ [CHR 0x0D])"
    using words_append [of "''HTTP/1.1''" "dec_int (sint nStatus) @ '' '' @ cs @ [CHR 0x0D]"]
      words_append [OF dec_int_no_blank [of "sint nStatus"], of "cs @ [CHR 0x0D]"] by simp
  have c: "c_str (?l @ [CHR 0x0D]) = ''HTTP/1.'' @ ''1 '' @ c_str (dec_int (sint nStatus) @ '' '' @ cs @ [CHR 0x0D])"
    using c_str_append [of "''HTTP/1.1 ''" "dec_int (sint nStatus) @ '' '' @ cs @ [CHR 0x0D]"] by simp
  have one: "atoi (''1 '' @ r) = 1" for r
  proof -
    have "dec_int 1 = ''1''" by code_simp
    then show ?thesis using atoi_dec [of 1 "'' '' @ r"] by (simp add: is_digit_def code_of_def)
  qed
  have p: "read_proto (?l @ [CHR 0x0D]) = 1"
    unfolding read_proto_def c using one by simp
  have n: "atoi (dec_int (sint nStatus)) = nStatus"
    using atoi_dec [of "sint nStatus" "[]"] sint32_bounds [of nStatus] by simp
  have "ReadHTTPStatus words (?l @ crlf @ rest) p = (nStatus, 1, rest)"
    unfolding ReadHTTPStatus_def g Let_def prod.case w p by (simp add: n)
  then show ?thesis by simp
qed

lemma reply_read:
  assumes "CHR 0x0A \<notin> set date" and "nStatus \<noteq> HTTP_UNAUTHORIZED" and "int (length strMsg) \<le> MAX_SIZE"
  shows "\<exists>text rest m. HTTPReply date nStatus strMsg keepalive = Inr text \<and>
    ReadHTTPStatus words text proto = (nStatus, 1, rest) \<and>
    ReadHTTPMessage strip low rest 1 = (HTTP_OK, m, strMsg, []) \<and>
    map_find m ''connection'' = Some (if keepalive then ''keep-alive'' else ''close'')"
proof -
  let ?con = "if keepalive then ''keep-alive'' else ''close''"
  let ?a = "[(''Date'', date), (''Connection'', ?con)]"
  let ?b = "[(''Content-Type'', ''application/json''), (''Server'', ''FidChain-json-rpc/'' @ FormatFullVersion)]"
  have split: "?a @ (''Content-Length'', dec_int (int (length strMsg))) # ?b
      = reply_headers date keepalive strMsg"
    by (simp add: reply_headers_def)
  have l: "low (strip ''Content-Length'') = ''content-length''" by code_simp
  have b: "\<forall>h \<in> set ?b. low (strip (fst h)) \<noteq> ''content-length''"
    by (simp, code_simp)
  have names: "low (strip ''Connection'') = ''connection''" "low (strip ''Content-Type'') \<noteq> ''connection''"
    "low (strip ''Server'') \<noteq> ''connection''" "low (strip ''Content-Length'') \<noteq> ''connection''"
    "strip ''keep-alive'' = ''keep-alive''" "strip ''close'' = ''close''"
    by code_simp+
  have con: "map_of (rev (map (\<lambda>h. (low (strip (fst h)), strip (snd h))) (reply_headers date keepalive strMsg)))
      ''connection'' = Some ?con"
    using names by (simp add: reply_headers_def)
  show ?thesis
    unfolding reply_text [OF assms(2,3)]
    using read_message [of ?a "''Content-Length''" strMsg ?b 1, unfolded split,
        OF reply_headers_ok [OF assms(1)] l b assms(3), unfolded con Let_def]
      status_line_read [OF cStatus_no_lf, where nStatus = nStatus and p = proto]
    by (auto split: if_splits)
qed

lemma unauthorized_text:
  "HTTPReply date HTTP_UNAUTHORIZED strMsg keepalive = Inr (''HTTP/1.0 401 Authorization Required'' @ crlf
      @ concat (map header_line (unauthorized_headers date)) @ crlf @ unauthorized_body)"
proof -
  let ?ps = "[Lit (''HTTP/1.0 401 Authorization Required'' @ crlf @ ''Date: ''),
    Conv (CHR ''s'') (ArgString date), Lit (crlf @ ''Server: FidChain-json-rpc/''),
    Conv (CHR ''s'') (ArgString FormatFullVersion),
    Lit (crlf @ ''WWW-Authenticate: Basic realm=\"jsonrpc\"'' @ crlf @ ''Content-Type: text/html'' @ crlf
      @ ''Content-Length: 296'' @ crlf @ crlf @ unauthorized_body)]"
  have ok: "\<forall>p \<in> set ?ps. piece_ok p" by (simp add: plain_convs_def crlf_def unauthorized_body_def)
  show ?thesis
    using strprintf_pieces [OF ok]
    by (simp add: HTTPReply_def unauthorized_format_def escape_plain crlf_def unauthorized_body_def
        unauthorized_headers_def header_line_def)
qed

lemma length_unauthorized_body: "length unauthorized_body = 296"
  by (simp add: unauthorized_body_def crlf_def)

lemma unauthorized_read:
  assumes "CHR 0x0A \<notin> set date"
  shows "\<exists>text rest m. HTTPReply date HTTP_UNAUTHORIZED strMsg keepalive = Inr text \<and>
    ReadHTTPStatus words text proto = (HTTP_UNAUTHORIZED, 0, rest) \<and>
    ReadHTTPMessage strip low rest 0 = (HTTP_OK, m, unauthorized_body, []) \<and>
    map_find m ''connection'' = Some ''close''"
proof -
  let ?l = "''HTTP/1.0 401 Authorization Required''"
  let ?rest = "concat (map header_line (unauthorized_headers date)) @ crlf @ unauthorized_body"
  let ?a = "[(''Date'', date), (''Server'', ''FidChain-json-rpc/'' @ FormatFullVersion),
      (''WWW-Authenticate'', ''Basic realm=\"jsonrpc\"''), (''Content-Type'', ''text/html'')]"
  have g: "getline (?l @ crlf @ ?rest) = (?l @ [CHR 0x0D], ?rest)" by (rule getline_crlf) simp
  have w: "words (?l @ [CHR 0x0D]) = [''HTTP/1.0'', ''401'', ''Authorization'', ''Required'' @ [CHR 0x0D]]"
    by code_simp
  have p: "read_proto (?l @ [CHR 0x0D]) = 0" "atoi ''401'' = HTTP_UNAUTHORIZED" by code_simp+
  have st: "ReadHTTPStatus words (?l @ crlf @ ?rest) proto = (HTTP_UNAUTHORIZED, 0, ?rest)"
    unfolding ReadHTTPStatus_def g Let_def prod.case w by (simp add: p [simplified])
  have split: "?a @ [(''Content-Length'', dec_int (int (length unauthorized_body)))] = unauthorized_headers date"
  proof -
    have "dec_int 296 = ''296''" by code_simp
    then show ?thesis by (simp add: unauthorized_headers_def length_unauthorized_body)
  qed
  have ok: "\<forall>h \<in> set (unauthorized_headers date). header_ok h"
    using assms by (simp add: unauthorized_headers_def header_ok_def FormatFullVersion_def)
  have l: "low (strip ''Content-Length'') = ''content-length''" by code_simp
  have len: "int (length unauthorized_body) \<le> MAX_SIZE" by (simp add: length_unauthorized_body MAX_SIZE_def)
  have names: "low (strip ''Date'') \<noteq> ''connection''" "low (strip ''Content-Type'') \<noteq> ''connection''"
    "low (strip ''Server'') \<noteq> ''connection''" "low (strip ''Content-Length'') \<noteq> ''connection''"
    "low (strip ''WWW-Authenticate'') \<noteq> ''connection''"
    by code_simp+
  have con: "map_of (rev (map (\<lambda>h. (low (strip (fst h)), strip (snd h))) (unauthorized_headers date)))
      ''connection'' = None"
    using names by (simp add: unauthorized_headers_def)
  have "\<exists>m. ReadHTTPMessage strip low ?rest 0 = (HTTP_OK, m, unauthorized_body, []) \<and>
      map_find m ''connection'' = Some ''close''"
    using read_message [of ?a "''Content-Length''" unauthorized_body "[]" 0, unfolded split,
        OF ok l _ len, unfolded con Let_def] by auto
  then show ?thesis unfolding unauthorized_text using st by blast
qed

text \<open>
  A reply written by \<open>HTTPReply\<close> with any status but 401 is read back by the client's readers:
  \<open>ReadHTTPStatus\<close> returns the status and version 1, and \<open>ReadHTTPMessage\<close> on the rest returns
  \<open>HTTP_OK\<close>, exactly the message, and the \<open>connection\<close> header that says whether the connection is
  kept alive; for messages up to \<open>MAX_SIZE\<close>.
\<close>

theorem http_reply_read:
  assumes "boost_strings split trim lower" and "CHR 0x0A \<notin> set date"
    and "nStatus \<noteq> HTTP_UNAUTHORIZED" and "int (length strMsg) \<le> MAX_SIZE"
  shows "\<exists>text rest m. HTTPReply date nStatus strMsg keepalive = Inr text \<and>
    ReadHTTPStatus split text proto = (nStatus, 1, rest) \<and>
    ReadHTTPMessage trim lower rest 1 = (HTTP_OK, m, strMsg, []) \<and>
    map_find m ''connection'' = Some (if keepalive then ''keep-alive'' else ''close'')"
  unfolding boost_eqs [OF assms(1)] by (rule reply_read [OF assms(2-4)])

theorem http_reply_read_witness:
  "\<exists>text rest m. HTTPReply ''Thu, 01 Jan 1970 00:00:00 +0000'' 500 ''down'' False = Inr text \<and>
    ReadHTTPStatus words text 0 = (500, 1, rest) \<and>
    ReadHTTPMessage strip (map to_lower_char) rest 1 = (HTTP_OK, m, ''down'', []) \<and>
    map_find m ''connection'' = Some ''close''"
  using http_reply_read [OF ref_strings.boost_strings_axioms,
    of "''Thu, 01 Jan 1970 00:00:00 +0000''" 500 "''down''" False 0]
  by (simp add: http_codes MAX_SIZE_def)

text \<open>
  The refusal \<open>HTTPReply\<close> writes for 401 is well formed: the client's readers return status 401,
  version 0, the whole HTML page (its declared length, 296, is the page's length), nothing is left
  in the stream, and the connection is to be closed.
\<close>

theorem http_unauthorized_read:
  assumes "boost_strings split trim lower" and "CHR 0x0A \<notin> set date"
  shows "\<exists>text rest m. HTTPReply date HTTP_UNAUTHORIZED strMsg keepalive = Inr text \<and>
    ReadHTTPStatus split text proto = (HTTP_UNAUTHORIZED, 0, rest) \<and>
    ReadHTTPMessage trim lower rest 0 = (HTTP_OK, m, unauthorized_body, []) \<and>
    map_find m ''connection'' = Some ''close''"
  unfolding boost_eqs [OF assms(1)] by (rule unauthorized_read [OF assms(2)])

theorem http_unauthorized_read_witness:
  "\<exists>text rest m. HTTPReply ''today'' HTTP_UNAUTHORIZED '''' True = Inr text \<and>
    ReadHTTPStatus words text 0 = (HTTP_UNAUTHORIZED, 0, rest) \<and>
    ReadHTTPMessage strip (map to_lower_char) rest 0 = (HTTP_OK, m, unauthorized_body, []) \<and>
    map_find m ''connection'' = Some ''close''"
  using http_unauthorized_read [OF ref_strings.boost_strings_axioms, of "''today''" "''''" True 0] by simp

end
