(* ===== verification/RpcClient.thy ===== *)
theory RpcClient
  imports HttpRoundtrip Base64
begin

section \<open>The RPC client (rpcclient.cpp, rpcclient.h)\<close>

text \<open>
  \<open>CallRPC\<close> with its connection loop, the table of parameters that are JSON,
  \<open>RPCConvertValues\<close> and \<open>CommandLineRPC\<close>. The network is a parameter: what connecting to each
  endpoint gives, attempt by attempt, and the text the peer sends for the text it is sent. The
  global \<open>mapArgs\<close> is passed in and returned, for reading it with \<open>[]\<close> adds empty entries.
  A result \<open>None\<close> is a call that does not return.
\<close>

subsection \<open>The environment of a call\<close>

record rpc_env =
  env_split :: "string \<Rightarrow> string list"
  env_trim :: "string \<Rightarrow> string"
  env_lower :: "string \<Rightarrow> string"
  env_parse :: parser
  env_resolve :: "string \<Rightarrow> string \<Rightarrow> nat \<Rightarrow> bool list res"
  env_serve :: "string \<Rightarrow> string"

text \<open>
  \<open>SSLIOStreamDevice::connect\<close>: the endpoints are tried in order until one has no error; the
  resolver may throw.
\<close>

fun connect_endpoints :: "bool list \<Rightarrow> bool" where
  "connect_endpoints [] = False"
| "connect_endpoints (connected # endpoints) = (if connected then True else connect_endpoints endpoints)"

definition connect :: "rpc_env \<Rightarrow> string \<Rightarrow> string \<Rightarrow> nat \<Rightarrow> bool res" where
  "connect E server port attempt =
     bindR (env_resolve E server port attempt) (\<lambda>endpoints. Inr (connect_endpoints endpoints))"

subsection \<open>CallRPC\<close>

text \<open>The loop around \<open>d.connect\<close>; \<open>attempt\<close> counts the attempts made before.\<close>

partial_function (option) connect_loop :: "rpc_env \<Rightarrow> args \<Rightarrow> bool \<Rightarrow> nat \<Rightarrow> unit res option" where
  "connect_loop E mapArgs fWait attempt =
     (case bindR (itostr 19772) (\<lambda>dflt.
          connect E (GetArg mapArgs ''-rpcconnect'' ''127.0.0.1'') (GetArg mapArgs ''-rpcport'' dflt) attempt) of
        Inl e \<Rightarrow> Some (Inl e)
      | Inr fConnected \<Rightarrow>
          if fConnected then Some (Inr ())
          else if fWait then connect_loop E mapArgs fWait (Suc attempt)
          else Some (Inl (RuntimeError ''couldn't connect to server'')))"

text \<open>\<open>mapArgs["-rpcuser"] == "" && mapArgs["-rpcpassword"] == ""\<close>\<close>

definition no_credentials :: "args \<Rightarrow> bool \<times> args" where
  "no_credentials m =
     (let (user, m) = map_index '''' ''-rpcuser'' m in
      if user = '''' then let (passwd, m) = map_index '''' ''-rpcpassword'' m in (passwd = '''', m)
      else (False, m))"

definition password_message :: "string res" where
  "password_message = strprintf
     (''You must set rpcpassword=<password> in the configuration file:'' @ [CHR 0x0A] @ ''%s'' @ [CHR 0x0A]
        @ ''If the file does not exist, create it with owner-readable-only file permissions.'')
     [ArgCString ''hi you'']"

definition request_headers :: "args \<Rightarrow> (string, string) omap \<times> args" where
  "request_headers m =
     (let (user, m) = map_index '''' ''-rpcuser'' m;
          (passwd, m) = map_index '''' ''-rpcpassword'' m;
          strUserPass64 = EncodeBase64 (user @ '':'' @ passwd)
      in (map_put ''Connection'' ''keep-alive'' (map_put ''Authorization'' (''Basic '' @ strUserPass64) []), m))"

definition parse_reply :: "parser \<Rightarrow> string \<Rightarrow> jobject res option" where
  "parse_reply parse strReply =
     map_option (\<lambda>r. bindR r (\<lambda>(ok, valReply).
         if \<not> ok then Inl (RuntimeError ''couldn't parse reply from server'')
         else bindR (get_obj valReply) (\<lambda>reply.
           if reply = [] then Inl (RuntimeError ''expected reply to have result, error and id properties'')
           else Inr reply)))
       (read_string parse strReply VNull)"

text \<open>The reply: status, headers and body, then the checks in the code's order.\<close>

definition receive_reply :: "rpc_env \<Rightarrow> string \<Rightarrow> jobject res option" where
  "receive_reply E stream =
     (case ReadHTTPStatus (env_split E) stream 0 of (nStatus, nProto, stream) \<Rightarrow>
      case ReadHTTPMessage (env_trim E) (env_lower E) stream nProto of (_, mapHeaders, strReply, stream) \<Rightarrow>
        if nStatus = HTTP_UNAUTHORIZED
        then Some (Inl (RuntimeError ''incorrect rpcuser or rpcpassword (authorization failed)''))
        else if sint nStatus \<ge> 400 \<and> nStatus \<noteq> HTTP_BAD_REQUEST \<and> nStatus \<noteq> HTTP_NOT_FOUND
          \<and> nStatus \<noteq> HTTP_INTERNAL_SERVER_ERROR
        then Some (bindR (strprintf ''server returned HTTP error %d'' [ArgInt nStatus])
          (\<lambda>s. Inl (RuntimeError s)))
        else if strReply = '''' then Some (Inl (RuntimeError ''no response from server''))
        else parse_reply (env_parse E) strReply)"

text \<open>The request as it is posted.\<close>

definition request_post :: "(string, string) omap \<Rightarrow> string \<Rightarrow> jvalue list \<Rightarrow> string res" where
  "request_post mapRequestHeaders strMethod params =
     bindR (JSONRPCRequest strMethod params (value_of_int 1)) (\<lambda>strRequest.
       Inr (HTTPPost strRequest mapRequestHeaders))"

definition CallRPC :: "rpc_env \<Rightarrow> string \<Rightarrow> jvalue list \<Rightarrow> args \<Rightarrow> (jobject res \<times> args) option" where
  "CallRPC E strMethod params mapArgs =
     (let (unset, mapArgs) = no_credentials mapArgs in
      if unset then Some (bindR password_message (\<lambda>s. Inl (RuntimeError s)), mapArgs)
      else
        Option.bind (connect_loop E mapArgs (GetBoolArg mapArgs ''-rpcwait'' False) 0) (\<lambda>c. case c of
          Inl e \<Rightarrow> Some (Inl e, mapArgs)
        | Inr _ \<Rightarrow>
            let (mapRequestHeaders, mapArgs) = request_headers mapArgs in
            (case request_post mapRequestHeaders strMethod params of
               Inl e \<Rightarrow> Some (Inl e, mapArgs)
             | Inr strPost \<Rightarrow>
                 map_option (\<lambda>r. (r, mapArgs)) (receive_reply E (env_serve E strPost)))))"

subsection \<open>Parameters\<close>

definition vRPCConvertParams :: "(string \<times> nat) list" where
  "vRPCConvertParams =
    [(''stop'', 0), (''getaddednodeinfo'', 0), (''sendtoaddress'', 1), (''settxfee'', 0),
     (''getreceivedbyaddress'', 1), (''getreceivedbyaccount'', 1), (''listreceivedbyaddress'', 0),
     (''listreceivedbyaddress'', 1), (''listreceivedbyaccount'', 0), (''listreceivedbyaccount'', 1),
     (''getbalance'', 1), (''getblock'', 1), (''getblockbynumber'', 0), (''getblockbynumber'', 1),
     (''getblockhash'', 0), (''move'', 2), (''move'', 3), (''sendfrom'', 2), (''sendfrom'', 3),
     (''listtransactions'', 1), (''listtransactions'', 2), (''listaccounts'', 0),
     (''walletpassphrase'', 1), (''walletpassphrase'', 2), (''getblocktemplate'', 0),
     (''listsinceblock'', 1), (''sendalert'', 2), (''sendalert'', 3), (''sendalert'', 4),
     (''sendalert'', 5), (''sendalert'', 6), (''sendmany'', 1), (''sendmany'', 2),
     (''reservebalance'', 0), (''reservebalance'', 1), (''addmultisigaddress'', 0),
     (''addmultisigaddress'', 1), (''listunspent'', 0), (''listunspent'', 1), (''listunspent'', 2),
     (''getrawtransaction'', 1), (''createrawtransaction'', 0), (''createrawtransaction'', 1),
     (''signrawtransaction'', 1), (''signrawtransaction'', 2), (''keypoolrefill'', 0),
     (''importprivkey'', 2), (''checkkernel'', 0), (''checkkernel'', 1)]"

text \<open>\<open>CRPCConvertTable\<close>: the set filled by the constructor's loop, and its lookup.\<close>

definition CRPCConvertTable :: "(string \<times> nat) set" where
  "CRPCConvertTable = fold insert vRPCConvertParams {}"

definition convert :: "string \<Rightarrow> nat \<Rightarrow> bool" where
  "convert method idx \<longleftrightarrow> (method, idx) \<in> CRPCConvertTable"

definition convert_value :: "parser \<Rightarrow> string \<Rightarrow> nat \<Rightarrow> string \<Rightarrow> jvalue res option" where
  "convert_value parse strMethod idx strVal =
     (if \<not> convert strMethod idx then Some (Inr (VStr strVal))
      else map_option (\<lambda>r. bindR r (\<lambda>(ok, jVal).
          if \<not> ok then Inl (RuntimeError (''Error parsing JSON:'' @ strVal)) else Inr jVal))
        (read_string parse strVal VNull))"

fun convert_values :: "parser \<Rightarrow> string \<Rightarrow> nat \<Rightarrow> string list \<Rightarrow> jvalue list \<Rightarrow> jvalue list res option" where
  "convert_values parse strMethod idx [] params = Some (Inr params)"
| "convert_values parse strMethod idx (strVal # strParams) params =
     Option.bind (convert_value parse strMethod idx strVal) (\<lambda>r. case r of
       Inl e \<Rightarrow> Some (Inl e)
     | Inr v \<Rightarrow> convert_values parse strMethod (Suc idx) strParams (params @ [v]))"

definition RPCConvertValues :: "parser \<Rightarrow> string \<Rightarrow> string list \<Rightarrow> jvalue list res option" where
  "RPCConvertValues parse strMethod strParams = convert_values parse strMethod 0 strParams []"

text \<open>\<open>abs\<close>, undefined for the least \<open>int\<close>.\<close>

definition c_abs :: "int32 \<Rightarrow> int32 res" where
  "c_abs i = (if sint i = - (2 ^ 31) then Inl (Undefined ''abs overflow'')
     else Inr (if sint i < 0 then - i else i))"

subsection \<open>The command line\<close>

text \<open>\<open>argv\<close> is the list of arguments, the program's name first.\<close>

fun skip_switches :: "string list \<Rightarrow> string list" where
  "skip_switches (prog # a # as) =
     (if a \<noteq> [] \<and> IsSwitchChar (hd a) then skip_switches (a # as) else prog # a # as)"
| "skip_switches argv = argv"

text \<open>The exit code and the text for a reply.\<close>

definition command_result :: "jobject \<Rightarrow> (int32 \<times> string) res" where
  "command_result reply =
     (let result = find_value reply ''result''; error = find_value reply ''error'' in
      if type_of error \<noteq> null_type then
        bindR (write_string error False) (\<lambda>s.
        bindR (get_obj error) (\<lambda>eo.
        bindR (get_int (find_value eo ''code'')) (\<lambda>code.
        bindR (c_abs code) (\<lambda>nRet. Inr (nRet, ''error: '' @ s)))))
      else if type_of result = null_type then Inr (0, '''')
      else if type_of result = str_type then bindR (get_str result) (\<lambda>s. Inr (0, s))
      else bindR (write_string result True) (\<lambda>s. Inr (0, s)))"

definition run_command :: "rpc_env \<Rightarrow> string list \<Rightarrow> args \<Rightarrow> ((int32 \<times> string) res \<times> args) option" where
  "run_command E argv mapArgs =
     (case skip_switches argv of
        prog # strMethod # strParams \<Rightarrow>
          Option.bind (RPCConvertValues (env_parse E) strMethod strParams) (\<lambda>r. case r of
            Inl e \<Rightarrow> Some (Inl e, mapArgs)
          | Inr params \<Rightarrow>
              map_option (\<lambda>(r, m). (bindR r command_result, m)) (CallRPC E strMethod params mapArgs))
      | _ \<Rightarrow> Some (Inl (RuntimeError ''too few parameters''), mapArgs))"

text \<open>
  \<open>CommandLineRPC\<close> catches every \<open>std::exception\<close>; what is thrown otherwise goes through
  \<open>PrintException\<close>, which throws it again. The result is the exit code and what is printed, with
  \<open>True\<close> for \<open>stdout\<close>; then \<open>mapArgs\<close> and \<open>strMiscWarning\<close>.
\<close>

definition printed :: "int32 \<times> string \<Rightarrow> int32 \<times> (bool \<times> string) option" where
  "printed r = (fst r, if snd r \<noteq> '''' then Some (fst r = 0, c_str (snd r) @ [CHR 0x0A]) else None)"

definition CommandLineRPC :: "rpc_env \<Rightarrow> string list \<Rightarrow> args \<Rightarrow> string
    \<Rightarrow> ((int32 \<times> (bool \<times> string) option) res \<times> args \<times> string) option" where
  "CommandLineRPC E argv mapArgs strMiscWarning =
     map_option (\<lambda>(r, m). case r of
         Inr r \<Rightarrow> (Inr (printed r), m, strMiscWarning)
       | Inl (RuntimeError w) \<Rightarrow> (Inr (printed (87, ''error: '' @ w)), m, strMiscWarning)
       | Inl (BadPath w) \<Rightarrow> (Inr (printed (87, ''error: '' @ w)), m, strMiscWarning)
       | Inl (OutOfRange w) \<Rightarrow> (Inr (printed (87, ''error: '' @ w)), m, strMiscWarning)
       | Inl (Undefined u) \<Rightarrow> (Inl (Undefined u), m, strMiscWarning)
       | Inl e \<Rightarrow>
           (case PrintException e None ''CommandLineRPC()'' strMiscWarning of
              (Inl e, warning) \<Rightarrow> (Inl e, m, warning)
            | (Inr _, warning) \<Rightarrow> (Inr (printed (0, '''')), m, warning)))
       (run_command E argv mapArgs)"

subsection \<open>Connecting\<close>

abbreviation connects :: "rpc_env \<Rightarrow> args \<Rightarrow> nat \<Rightarrow> bool res" where
  "connects E m \<equiv> connect E (GetArg m ''-rpcconnect'' ''127.0.0.1'') (GetArg m ''-rpcport'' ''19772'')"

lemma itostr_port: "itostr 19772 = Inr ''19772''"
proof -
  have "dec_int (sint (19772 :: int32)) = ''19772''" by code_simp
  then show ?thesis by (simp only: itostr_dec)
qed

lemma connect_loop_step:
  "connect_loop E m fWait k = (case connects E m k of
     Inl e \<Rightarrow> Some (Inl e)
   | Inr c \<Rightarrow> if c then Some (Inr ()) else if fWait then connect_loop E m fWait (Suc k)
       else Some (Inl (RuntimeError ''couldn't connect to server'')))"
  by (subst connect_loop.simps) (simp add: itostr_port)

lemma connect_loop_connects:
  assumes "\<forall>j < n. connects E m (k + j) = Inr False" and "connects E m (k + n) = Inr True"
    and "fWait \<or> n = 0"
  shows "connect_loop E m fWait k = Some (Inr ())"
  using assms
proof (induction n arbitrary: k)
  case 0
  then show ?case by (subst connect_loop_step) simp
next
  case (Suc n)
  have "connects E m k = Inr False" using spec [OF Suc.prems(1), of 0] by (simp only: add_0_right zero_less_Suc)
  moreover have "connect_loop E m fWait (Suc k) = Some (Inr ())"
  proof (rule Suc.IH)
    show "\<forall>j < n. connects E m (Suc k + j) = Inr False"
    proof (intro allI impI)
      fix j assume "j < n"
      then have "connects E m (k + Suc j) = Inr False" using Suc.prems(1) by (blast intro: Suc_mono)
      then show "connects E m (Suc k + j) = Inr False" by (simp only: add_Suc_right add_Suc)
    qed
    show "connects E m (Suc k + n) = Inr True" using Suc.prems(2) by (simp only: add_Suc_right add_Suc)
    show "fWait \<or> n = 0" using Suc.prems(3) by simp
  qed
  moreover have "fWait" using Suc.prems(3) by simp
  ultimately show ?case by (subst connect_loop_step) simp
qed

lemma connect_loop_some:
  assumes "connect_loop E m fWait k = Some r"
  shows "\<exists>j \<ge> k. connects E m j \<noteq> Inr False \<or> \<not> fWait"
proof (rule connect_loop.raw_induct [OF _ assms, where P = "\<lambda>E m fWait k r.
    \<exists>j \<ge> k. connects E m j \<noteq> Inr False \<or> \<not> fWait"])
  fix rec E m fWait k r
  assume IH: "\<And>E m fWait k r. rec E m fWait k = Some r \<Longrightarrow>
      \<exists>j \<ge> k. connects E m j \<noteq> Inr False \<or> \<not> fWait"
    and s: "(case bindR (itostr 19772) (\<lambda>dflt.
          connect E (GetArg m ''-rpcconnect'' ''127.0.0.1'') (GetArg m ''-rpcport'' dflt) k) of
        Inl e \<Rightarrow> Some (Inl e)
      | Inr fConnected \<Rightarrow> if fConnected then Some (Inr ())
          else if fWait then rec E m fWait (Suc k)
          else Some (Inl (RuntimeError ''couldn't connect to server''))) = Some r"
  show "\<exists>j \<ge> k. connects E m j \<noteq> Inr False \<or> \<not> fWait"
  proof (cases "connects E m k = Inr False \<and> fWait")
    case True
    then have "rec E m fWait (Suc k) = Some r" using s by (simp add: itostr_port)
    then show ?thesis using IH [of E m fWait "Suc k" r] by (metis Suc_leD)
  qed auto
qed

lemma wait_outcome:
  assumes "\<forall>k. \<exists>c. connects E m k = Inr c"
  shows "connect_loop E m True 0 = (if \<exists>k. connects E m k = Inr True then Some (Inr ()) else None)"
proof (cases "\<exists>k. connects E m k = Inr True")
  case True
  define n where "n = (LEAST k. connects E m k = Inr True)"
  have "connects E m n = Inr True" unfolding n_def by (rule LeastI_ex [OF True])
  moreover have "\<forall>j < n. connects E m j = Inr False"
  proof (intro allI impI)
    fix j assume "j < n"
    then have "connects E m j \<noteq> Inr True" unfolding n_def by (rule not_less_Least)
    then show "connects E m j = Inr False" using spec [OF assms, of j] by auto
  qed
  ultimately show ?thesis using connect_loop_connects [of n E m 0 True] True by simp
next
  case False
  have "connects E m k = Inr False" for k using spec [OF assms, of k] False by auto
  then show ?thesis using connect_loop_some [of E m True 0] False by (cases "connect_loop E m True 0") auto
qed

end
