(* ===== verification/RpcRoundtrip.thy ===== *)
theory RpcRoundtrip
  imports RpcClient Config
begin

section \<open>Calls and their server\<close>

text \<open>
  What a server gets from \<open>CallRPC\<close> and what \<open>CallRPC\<close> makes of its answer: the composition of
  the argument map, Base64, the JSON library and the HTTP messages.
\<close>

subsection \<open>What is sent\<close>

lemma keeps_read: "map_index d k m = (v, m') \<Longrightarrow> keeps m m'"
  using keeps_index [of m d k] by simp

lemma no_credentials_keeps: "keeps m (snd (no_credentials m))"
proof -
  obtain user m1 where 1: "map_index '''' ''-rpcuser'' m = (user, m1)" by fastforce
  obtain passwd m2 where 2: "map_index '''' ''-rpcpassword'' m1 = (passwd, m2)" by fastforce
  show ?thesis
    unfolding no_credentials_def Let_def 1 prod.case 2
    using keeps_read [OF 1] keeps_trans [OF keeps_read [OF 1] keeps_read [OF 2]] by simp
qed

lemma keeps_headers: "keeps m (snd (request_headers m))"
proof -
  obtain user m1 where 1: "map_index '''' ''-rpcuser'' m = (user, m1)" by fastforce
  obtain passwd m2 where 2: "map_index '''' ''-rpcpassword'' m1 = (passwd, m2)" by fastforce
  show ?thesis
    unfolding request_headers_def Let_def 1 prod.case 2
    using keeps_trans [OF keeps_read [OF 1] keeps_read [OF 2]] by simp
qed

lemma no_credentials_user:
  "GetArg m ''-rpcuser'' '''' \<noteq> '''' \<Longrightarrow> no_credentials m = (False, m)"
  by (auto simp: no_credentials_def GetArg_find map_index_def split: option.splits)

abbreviation user_pass :: "args \<Rightarrow> string" where
  "user_pass m \<equiv> GetArg m ''-rpcuser'' '''' @ '':'' @ GetArg m ''-rpcpassword'' ''''"

lemma request_headers_pairs:
  "fst (request_headers m) =
     [(''Authorization'', ''Basic '' @ EncodeBase64 (user_pass m)), (''Connection'', ''keep-alive'')]"
  by (auto simp: request_headers_def GetArg_find map_index_def map_find_put split: option.splits)

lemma credentials_header:
  "strip (''Basic '' @ EncodeBase64 (user_pass m)) = ''Basic '' @ EncodeBase64 (user_pass m)"
  "CHR 0x0A \<notin> set (EncodeBase64 (user_pass m))"
proof -
  let ?e = "EncodeBase64 (user_pass m)"
  have d: "dec64_of x = - 1" if "is_space x" for x
  proof -
    have "code_of x \<in> {9, 10, 11, 12, 13, 32}" using that by (auto simp: is_space_def)
    then show ?thesis by (auto simp: dec64_of_def decode64_table_def)
  qed
  have sp: "x \<notin> set ?e" if "is_space x" for x
    by (rule EncodeBase64_chars [OF d [OF that]]) (use that in \<open>auto simp: is_space_def code_of_def\<close>)
  show "CHR 0x0A \<notin> set ?e" by (rule sp) (simp add: is_space_def code_of_def)
  have ne: "?e \<noteq> []" by (rule EncodeBase64_nonempty) simp
  then have "\<not> is_space (last ?e)" using sp last_in_set by blast
  then show "strip (''Basic '' @ ?e) = ''Basic '' @ ?e"
    using strip_middle [of "[]" "[]" "''Basic '' @ ?e"] ne by (simp add: is_space_def code_of_def blank_def)
qed

definition request_object :: "string \<Rightarrow> jvalue list \<Rightarrow> jvalue" where
  "request_object strMethod params =
     VObj [(''method'', VStr strMethod), (''params'', VArr params), (''id'', VInt 1 False)]"

lemma JSONRPCRequest_text:
  "JSONRPCRequest strMethod params (value_of_int 1) =
     Inr (json_text False 0 (request_object strMethod params) @ [CHR 0x0A])"
  by (simp add: JSONRPCRequest_def obj_add_def value_of_int_def request_object_def write_string_json_text)

lemma JSONRPCReply_text:
  "JSONRPCReply result error ident =
     Inr (json_text False 0 (VObj (JSONRPCReplyObj result error ident)) @ [CHR 0x0A])"
  by (simp add: JSONRPCReply_def write_string_json_text)

lemma delim_newline: "delim [CHR 0x0A]"
  by (simp add: delim_def)

lemma header_auth:
  "header_map (post_headers body (fst (request_headers m))) ''authorization''
     = Some (''Basic '' @ EncodeBase64 (user_pass m))"
proof -
  have "low (strip ''Authorization'') = ''authorization''" "low (strip ''Connection'') \<noteq> ''authorization''"
    by code_simp+
  then show ?thesis
    by (simp add: header_map_def post_headers_def request_headers_pairs credentials_header(1) [simplified])
qed

lemma request_served:
  assumes "boost_strings split trim lower" and "json_prims parse real_p int_p uint_p string_p rd"
    and "\<forall>p \<in> set params. writable p"
    and "JSONRPCRequest strMethod params (value_of_int 1) = Inr body" and "int (length body) \<le> MAX_SIZE"
  shows "\<exists>post rest h. request_post (fst (request_headers m)) strMethod params = Inr post \<and>
    ReadHTTPRequestLine split post p0 s0 u0 = (True, 1, ''POST'', ''/'', rest) \<and>
    ReadHTTPMessage trim lower rest 1 = (HTTP_OK, h, body, []) \<and>
    map_find h ''authorization'' = Some (''Basic '' @ EncodeBase64 (user_pass m)) \<and>
    read_string parse body v0 = Some (Inr (True, reread rd (request_object strMethod params)))"
proof -
  have body: "body = json_text False 0 (request_object strMethod params) @ [CHR 0x0A]"
    using assms(4) by (simp add: JSONRPCRequest_text)
  have hs: "\<forall>h \<in> set (fst (request_headers m)). header_ok h \<and> low (strip (fst h)) \<noteq> ''content-length''"
  proof -
    have "low (strip ''Authorization'') \<noteq> ''content-length''" "low (strip ''Connection'') \<noteq> ''content-length''"
      by code_simp+
    then show ?thesis using credentials_header(2) [of m] by (simp add: request_headers_pairs header_ok_def)
  qed
  obtain rest h where r:
    "ReadHTTPRequestLine words (HTTPPost body (fst (request_headers m))) p0 s0 u0 = (True, 1, ''POST'', ''/'', rest)"
    "ReadHTTPMessage strip low rest 1 = (HTTP_OK, h, body, [])"
    "\<forall>k. map_find h k = kept_alive (header_map (post_headers body (fst (request_headers m)))) k"
    using post_read [OF hs assms(5), of p0 s0 u0] by blast
  have a: "map_find h ''authorization'' = Some (''Basic '' @ EncodeBase64 (user_pass m))"
    using spec [OF r(3), of "''authorization''"] header_auth [of body m] by (simp add: kept_alive_def)
  have w: "writable (request_object strMethod params)" using assms(3) by (simp add: request_object_def)
  have "request_post (fst (request_headers m)) strMethod params = Inr (HTTPPost body (fst (request_headers m)))"
    using assms(4) by (simp add: request_post_def)
  then show ?thesis
    unfolding boost_eqs [OF assms(1)]
    using r(1,2) a json_prims.read_string_written [OF assms(2) w delim_newline, of False 0 v0]
    unfolding body by blast
qed

lemma reply_received:
  assumes "boost_strings (env_split E) (env_trim E) (env_lower E)"
    and "json_prims (env_parse E) real_p int_p uint_p string_p rd"
    and "writable result" and "writable error" and "writable ident"
    and "CHR 0x0A \<notin> set date"
    and "nStatus \<in> {HTTP_OK, HTTP_BAD_REQUEST, HTTP_NOT_FOUND, HTTP_INTERNAL_SERVER_ERROR}"
    and "JSONRPCReply result error ident = Inr body" and "int (length body) \<le> MAX_SIZE"
    and "HTTPReply date nStatus body keepalive = Inr text"
  shows "receive_reply E text =
    Some (Inr (JSONRPCReplyObj (reread rd result) (reread rd error) (reread rd ident)))"
proof -
  have n: "nStatus \<noteq> HTTP_UNAUTHORIZED" "sint nStatus \<ge> 400 \<longrightarrow> nStatus \<in> {HTTP_BAD_REQUEST, HTTP_NOT_FOUND, HTTP_INTERNAL_SERVER_ERROR}"
    using assms(7) by (auto simp: http_codes)
  obtain rest h where r: "ReadHTTPStatus words text 0 = (nStatus, 1, rest)"
    "ReadHTTPMessage strip low rest 1 = (HTTP_OK, h, body, [])"
    using reply_read [OF assms(6) n(1) assms(9), of keepalive 0] assms(10) by auto
  let ?o = "VObj (JSONRPCReplyObj result error ident)"
  have body: "body = json_text False 0 ?o @ [CHR 0x0A]" using assms(8) by (simp add: JSONRPCReply_text)
  have w: "writable ?o" using assms(3-5) by (simp add: JSONRPCReplyObj_def obj_add_def)
  have tn: "type_of (reread rd v) = type_of v" for v by (cases v) auto
  have o: "reread rd ?o = VObj (JSONRPCReplyObj (reread rd result) (reread rd error) (reread rd ident))"
    by (simp add: JSONRPCReplyObj_def obj_add_def tn)
  have ne: "JSONRPCReplyObj a b c \<noteq> []" for a b c by (simp add: JSONRPCReplyObj_def obj_add_def)
  have "parse_reply (env_parse E) body =
      Some (Inr (JSONRPCReplyObj (reread rd result) (reread rd error) (reread rd ident)))"
    using json_prims.read_string_written [OF assms(2) w delim_newline, of False 0 VNull]
    unfolding body o by (simp add: parse_reply_def get_obj_def check_type_def variant_get_def ne)
  moreover have "body \<noteq> []" by (simp add: body)
  ultimately show ?thesis
    unfolding receive_reply_def boost_eqs [OF assms(1)] r(1) prod.case r(2)
    using n by auto
qed

lemma CallRPC_sent:
  assumes "GetArg m ''-rpcuser'' '''' \<noteq> ''''"
    and "connect_loop E m (GetBoolArg m ''-rpcwait'' False) 0 = Some (Inr ())"
    and "request_post (fst (request_headers m)) strMethod params = Inr post"
  shows "CallRPC E strMethod params m =
    map_option (\<lambda>r. (r, snd (request_headers m))) (receive_reply E (env_serve E post))"
  using assms no_credentials_user [OF assms(1)]
  by (cases "request_headers m") (simp add: CallRPC_def Let_def)

lemma request_post_text:
  "\<exists>post. request_post hs strMethod params = Inr post"
  by (simp add: request_post_def JSONRPCRequest_text)

lemma receive_refused:
  assumes "boost_strings (env_split E) (env_trim E) (env_lower E)"
    and "CHR 0x0A \<notin> set date" and "int (length body) \<le> MAX_SIZE"
    and "HTTPReply date nStatus body keepalive = Inr text"
  shows "nStatus = HTTP_UNAUTHORIZED \<Longrightarrow> receive_reply E text =
      Some (Inl (RuntimeError ''incorrect rpcuser or rpcpassword (authorization failed)''))"
    and "sint nStatus \<ge> 400 \<Longrightarrow> nStatus \<notin> {HTTP_UNAUTHORIZED, HTTP_BAD_REQUEST, HTTP_NOT_FOUND,
      HTTP_INTERNAL_SERVER_ERROR} \<Longrightarrow> receive_reply E text =
      Some (Inl (RuntimeError (''server returned HTTP error '' @ dec_int (sint nStatus))))"
    and "sint nStatus < 400 \<Longrightarrow> body = '''' \<Longrightarrow> receive_reply E text =
      Some (Inl (RuntimeError ''no response from server''))"
proof -
  show "receive_reply E text = Some (Inl (RuntimeError
      ''incorrect rpcuser or rpcpassword (authorization failed)''))" if n: "nStatus = HTTP_UNAUTHORIZED"
  proof -
    obtain rest h where r: "ReadHTTPStatus words text 0 = (HTTP_UNAUTHORIZED, 0, rest)"
      "ReadHTTPMessage strip low rest 0 = (HTTP_OK, h, unauthorized_body, [])"
      using unauthorized_read [OF assms(2), of body keepalive 0] assms(4) n by auto
    show ?thesis unfolding receive_reply_def boost_eqs [OF assms(1)] r(1) prod.case r(2) by simp
  qed
  have r: "\<exists>rest h. ReadHTTPStatus words text 0 = (nStatus, 1, rest) \<and>
      ReadHTTPMessage strip low rest 1 = (HTTP_OK, h, body, [])" if n: "nStatus \<noteq> HTTP_UNAUTHORIZED"
    using reply_read [OF assms(2) n assms(3), of keepalive 0] assms(4) by auto
  let ?ps = "[Lit ''server returned HTTP error '', Conv (CHR ''d'') (ArgInt nStatus)]"
  have "\<forall>p \<in> set ?ps. piece_ok p" by (simp add: plain_convs_def)
  then have msg: "strprintf ''server returned HTTP error %d'' [ArgInt nStatus] =
      Inr (''server returned HTTP error '' @ dec_int (sint nStatus))"
    using strprintf_pieces [of ?ps] by (simp add: escape_plain)
  show "receive_reply E text = Some (Inl (RuntimeError (''server returned HTTP error '' @ dec_int (sint nStatus))))"
    if n: "sint nStatus \<ge> 400" "nStatus \<notin> {HTTP_UNAUTHORIZED, HTTP_BAD_REQUEST, HTTP_NOT_FOUND,
      HTTP_INTERNAL_SERVER_ERROR}"
  proof -
    obtain rest h where s: "ReadHTTPStatus words text 0 = (nStatus, 1, rest)"
      "ReadHTTPMessage strip low rest 1 = (HTTP_OK, h, body, [])" using r n(2) by blast
    show ?thesis unfolding receive_reply_def boost_eqs [OF assms(1)] s(1) prod.case s(2)
      using n by (simp add: msg)
  qed
  show "receive_reply E text = Some (Inl (RuntimeError ''no response from server''))"
    if n: "sint nStatus < 400" "body = ''''"
  proof -
    have "nStatus \<noteq> HTTP_UNAUTHORIZED" using n(1) by (auto simp: http_codes)
    then obtain rest h where s: "ReadHTTPStatus words text 0 = (nStatus, 1, rest)"
      "ReadHTTPMessage strip low rest 1 = (HTTP_OK, h, body, [])" using r by blast
    show ?thesis unfolding receive_reply_def boost_eqs [OF assms(1)] s(1) prod.case s(2)
      using n by (auto simp: http_codes)
  qed
qed

text \<open>A peer that closes the connection without a byte.\<close>

lemma receive_nothing:
  assumes "boost_strings (env_split E) (env_trim E) (env_lower E)"
  shows "receive_reply E [] = Some (Inl (RuntimeError ''no response from server''))"
proof -
  have s: "ReadHTTPStatus words [] 0 = (HTTP_INTERNAL_SERVER_ERROR, 0, [])"
    by (simp add: ReadHTTPStatus_def getline_def)
  obtain h where h: "ReadHTTPMessage strip low [] 0 = (HTTP_OK, h, [], [])"
  proof -
    have "ReadHTTPHeaders strip low [] [] = (0, [], [])"
      unfolding ReadHTTPHeaders_def by (subst read_headers.simps) (simp add: getline_def)
    then show ?thesis using that by (simp add: ReadHTTPMessage_def MAX_SIZE_def Let_def map_index_def)
  qed
  show ?thesis unfolding receive_reply_def boost_eqs [OF assms(1)] s prod.case h by (simp add: http_codes)
qed

subsection \<open>Properties\<close>

text \<open>
  C16: What \<open>CallRPC\<close> posts is a request its server can read: the server's readers return version 1,
  POST, \<open>/\<close> and the whole body; the Authorization header is \<open>Basic\<close> and a text that decodes, without
  error, to the configured user, a colon and the password; and the body is read as the JSON object
  with the method, the parameters and the id 1.
\<close>

theorem rpc_request_served:
  assumes "boost_strings split trim lower" and "json_prims parse real_p int_p uint_p string_p rd"
    and "\<forall>p \<in> set params. writable p"
    and "JSONRPCRequest strMethod params (value_of_int 1) = Inr body" and "int (length body) \<le> MAX_SIZE"
  shows "\<exists>post rest h auth. request_post (fst (request_headers m)) strMethod params = Inr post \<and>
    ReadHTTPRequestLine split post p0 s0 u0 = (True, 1, ''POST'', ''/'', rest) \<and>
    ReadHTTPMessage trim lower rest 1 = (HTTP_OK, h, body, []) \<and>
    map_find h ''authorization'' = Some (''Basic '' @ auth) \<and>
    DecodeBase64_chars auth =
      (GetArg m ''-rpcuser'' '''' @ '':'' @ GetArg m ''-rpcpassword'' '''', False) \<and>
    read_string parse body VNull = Some (Inr (True,
      VObj [(''method'', VStr strMethod), (''params'', VArr (map (reread rd) params)), (''id'', VInt 1 False)]))"
  using request_served [OF assms, of m p0 s0 u0 VNull] decode_encode [of "user_pass m"]
  unfolding request_object_def by fastforce

theorem rpc_request_served_witness:
  "\<exists>body post rest h. JSONRPCRequest ''getblockbynumber'' [VInt 7 False] (value_of_int 1) = Inr body \<and>
    request_post (fst (request_headers [(''-rpcpassword'', ''pw''), (''-rpcuser'', ''me'')]))
      ''getblockbynumber'' [VInt 7 False] = Inr post \<and>
    ReadHTTPRequestLine words post 0 '''' '''' = (True, 1, ''POST'', ''/'', rest) \<and>
    ReadHTTPMessage strip (map to_lower_char) rest 1 = (HTTP_OK, h, body, [])"
proof -
  let ?v = "request_object ''getblockbynumber'' [VInt 7 False]"
  have "json_text False 0 ?v = ''{\"method\":\"getblockbynumber\",\"params\":[7],\"id\":1}''"
    unfolding request_object_def by code_simp
  then have b: "JSONRPCRequest ''getblockbynumber'' [VInt 7 False] (value_of_int 1) =
      Inr (''{\"method\":\"getblockbynumber\",\"params\":[7],\"id\":1}'' @ [CHR 0x0A])"
    unfolding JSONRPCRequest_text by simp
  have l: "int (length (''{\"method\":\"getblockbynumber\",\"params\":[7],\"id\":1}'' @ [CHR 0x0A])) \<le> MAX_SIZE"
    by (simp add: MAX_SIZE_def)
  show ?thesis
    using rpc_request_served [OF ref_strings.boost_strings_axioms ref.json_prims_axioms _ b l,
        of "[(''-rpcpassword'', ''pw''), (''-rpcuser'', ''me'')]" 0 "''''" "''''"] b by auto
qed

text \<open>
  C4: A call to a server that answers returns its answer: with a user configured and the connection
  made, if the server replies to the posted request with \<open>HTTPReply\<close> of \<open>JSONRPCReply\<close>, under status
  200, 400, 404 or 500, then \<open>CallRPC\<close> returns exactly that reply object (result dropped when there is
  an error, values as the JSON library rereads them), and no argument changes its value.
\<close>

theorem rpc_call_returns:
  assumes "boost_strings (env_split E) (env_trim E) (env_lower E)"
    and "json_prims (env_parse E) real_p int_p uint_p string_p rd"
    and "GetArg m ''-rpcuser'' '''' \<noteq> ''''"
    and "connect_loop E m (GetBoolArg m ''-rpcwait'' False) 0 = Some (Inr ())"
    and "writable result" and "writable error" and "writable ident" and "CHR 0x0A \<notin> set date"
    and "nStatus \<in> {HTTP_OK, HTTP_BAD_REQUEST, HTTP_NOT_FOUND, HTTP_INTERNAL_SERVER_ERROR}"
    and "JSONRPCReply result error ident = Inr body" and "int (length body) \<le> MAX_SIZE"
    and "HTTPReply date nStatus body keepalive = Inr text"
    and "request_post (fst (request_headers m)) strMethod params = Inr post" and "env_serve E post = text"
  shows "\<exists>m'. CallRPC E strMethod params m =
      Some (Inr (JSONRPCReplyObj (reread rd result) (reread rd error) (reread rd ident)), m') \<and> keeps m m'"
  using CallRPC_sent [OF assms(3,4,13)] reply_received [OF assms(1,2,5-12)] assms(14) keeps_headers [of m]
  by auto

lemma type_of_reread: "type_of (reread rd v) = type_of v"
  by (cases v) auto

text \<open>An environment for examples: the reference library, a first endpoint that refuses, a second
  one that accepts, and a peer that always sends \<open>answer\<close>.\<close>

definition example_env :: "string \<Rightarrow> rpc_env" where
  "example_env answer = \<lparr>env_split = words, env_trim = strip, env_lower = low, env_parse = ref_parse,
     env_resolve = (\<lambda>server port k. Inr [False, True]), env_serve = (\<lambda>post. answer)\<rparr>"

lemma example_connects: "connects (example_env answer) m k = Inr True"
  by (simp add: connect_def example_env_def)

lemma example_connect_loop: "connect_loop (example_env answer) m w k = Some (Inr ())"
  by (subst connect_loop_step) (simp add: example_connects)

theorem rpc_call_returns_witness:
  "\<exists>answer m'. HTTPReply ''now'' HTTP_OK
        (json_text False 0 (VObj (JSONRPCReplyObj (VInt 3531 False) VNull (VInt 1 False))) @ [CHR 0x0A]) True
      = Inr answer \<and>
    CallRPC (example_env answer) ''getblockcount'' [] [(''-rpcuser'', ''me'')] =
      Some (Inr [(''result'', VInt 3531 False), (''error'', VNull), (''id'', VInt 1 False)], m')"
proof -
  let ?b = "json_text False 0 (VObj (JSONRPCReplyObj (VInt 3531 False) VNull (VInt 1 False))) @ [CHR 0x0A]"
  let ?m = "[(''-rpcuser'', ''me'')]"
  have b: "JSONRPCReply (VInt 3531 False) VNull (VInt 1 False) = Inr ?b" by (rule JSONRPCReply_text)
  have bb: "?b = ''{\"result\":3531,\"error\":null,\"id\":1}'' @ [CHR 0x0A]"
    unfolding JSONRPCReplyObj_def by code_simp
  have l: "int (length ?b) \<le> MAX_SIZE" unfolding bb by (simp add: MAX_SIZE_def)
  obtain answer where t: "HTTPReply ''now'' HTTP_OK ?b True = Inr answer"
    using reply_text [OF _ l, of HTTP_OK "''now''" True] by (auto simp: http_codes)
  obtain post where p: "request_post (fst (request_headers ?m)) ''getblockcount'' [] = Inr post"
    using request_post_text by blast
  have e: "boost_strings (env_split (example_env answer)) (env_trim (example_env answer)) (env_lower (example_env answer))"
    "json_prims (env_parse (example_env answer)) ref_real ref_int ref_uint ref_string ref_rd"
    "env_serve (example_env answer) post = answer"
    using ref_strings.boost_strings_axioms ref.json_prims_axioms by (simp_all add: example_env_def)
  have u: "GetArg ?m ''-rpcuser'' '''' \<noteq> ''''" by (simp add: GetArg_find)
  obtain m' where "CallRPC (example_env answer) ''getblockcount'' [] ?m = Some (Inr (JSONRPCReplyObj
      (reread ref_rd (VInt 3531 False)) (reread ref_rd VNull) (reread ref_rd (VInt 1 False))), m')"
    using rpc_call_returns [OF e(1,2) u example_connect_loop _ _ _ _ _ b l t p e(3)] by auto
  then show ?thesis using t by (intro exI [of _ answer] exI [of _ m']) (simp add: JSONRPCReplyObj_def obj_add_def)
qed

text \<open>
  C23: A call that gets no usable answer says why, and the error is the right one: the 401 page gives the
  authorization error, any other status from 400 on that carries no JSON gives the HTTP error with
  its number, a reply without a body or a connection closed without a byte gives
  \<open>no response from server\<close>.
\<close>

theorem rpc_call_refused:
  assumes "boost_strings (env_split E) (env_trim E) (env_lower E)"
    and "GetArg m ''-rpcuser'' '''' \<noteq> ''''"
    and "connect_loop E m (GetBoolArg m ''-rpcwait'' False) 0 = Some (Inr ())"
    and "CHR 0x0A \<notin> set date" and "int (length body) \<le> MAX_SIZE"
    and "request_post (fst (request_headers m)) strMethod params = Inr post"
    and "env_serve E post = answer"
    and "answer = '''' \<and> what = ''no response from server'' \<or>
      HTTPReply date nStatus body keepalive = Inr answer \<and>
       (nStatus = HTTP_UNAUTHORIZED \<and> what = ''incorrect rpcuser or rpcpassword (authorization failed)'' \<or>
        sint nStatus \<ge> 400 \<and> nStatus \<notin> {HTTP_UNAUTHORIZED, HTTP_BAD_REQUEST, HTTP_NOT_FOUND,
            HTTP_INTERNAL_SERVER_ERROR}
          \<and> what = ''server returned HTTP error '' @ dec_int (sint nStatus) \<or>
        sint nStatus < 400 \<and> body = '''' \<and> what = ''no response from server'')"
  shows "CallRPC E strMethod params m = Some (Inl (RuntimeError what), snd (request_headers m))"
proof -
  have "receive_reply E answer = Some (Inl (RuntimeError what))"
    using assms(8) receive_nothing [OF assms(1)] receive_refused [OF assms(1,4,5), of nStatus keepalive answer]
    by blast
  then show ?thesis using CallRPC_sent [OF assms(2,3,6)] assms(7) by simp
qed

theorem rpc_call_refused_witness:
  "\<exists>answer m'. HTTPReply ''now'' 503 ''busy'' False = Inr answer \<and>
    CallRPC (example_env answer) ''getblockcount'' [] [(''-rpcuser'', ''me'')] =
      Some (Inl (RuntimeError ''server returned HTTP error 503''), m')"
proof -
  let ?m = "[(''-rpcuser'', ''me'')]"
  have l: "int (length ''busy'') \<le> MAX_SIZE" by (simp add: MAX_SIZE_def)
  obtain answer where t: "HTTPReply ''now'' 503 ''busy'' False = Inr answer"
    using reply_text [OF _ l, of 503 "''now''" False] by (auto simp: http_codes)
  obtain post where p: "request_post (fst (request_headers ?m)) ''getblockcount'' [] = Inr post"
    using request_post_text by blast
  have e: "boost_strings (env_split (example_env answer)) (env_trim (example_env answer)) (env_lower (example_env answer))"
    "env_serve (example_env answer) post = answer"
    using ref_strings.boost_strings_axioms by (simp_all add: example_env_def)
  have u: "GetArg ?m ''-rpcuser'' '''' \<noteq> ''''" by (simp add: GetArg_find)
  have n: "dec_int (sint (503 :: int32)) = ''503''" by code_simp
  have w: "answer = '''' \<and> ''server returned HTTP error 503'' = ''no response from server'' \<or>
      HTTPReply ''now'' 503 ''busy'' False = Inr answer \<and>
       (503 = HTTP_UNAUTHORIZED \<and> ''server returned HTTP error 503'' = ''incorrect rpcuser or rpcpassword (authorization failed)'' \<or>
        sint (503 :: int32) \<ge> 400 \<and> 503 \<notin> {HTTP_UNAUTHORIZED, HTTP_BAD_REQUEST, HTTP_NOT_FOUND,
            HTTP_INTERNAL_SERVER_ERROR}
          \<and> ''server returned HTTP error 503'' = ''server returned HTTP error '' @ dec_int (sint (503 :: int32)) \<or>
        sint (503 :: int32) < 400 \<and> ''busy'' = '''' \<and> ''server returned HTTP error 503'' = ''no response from server'')"
    unfolding n using t by (simp add: http_codes)
  have "CHR 0x0A \<notin> set ''now''" by simp
  from rpc_call_refused [OF e(1) u example_connect_loop this l p e(2) w]
  show ?thesis using t by blast
qed

text \<open>
  C24: With \<open>-rpcwait\<close> the connection loop returns exactly if some attempt connects, and then with
  success; if every attempt fails it never returns. Without \<open>-rpcwait\<close> it makes one attempt and
  reports its failure. (A resolver that throws ends either loop.)
\<close>

theorem rpc_wait:
  assumes "\<forall>k. \<exists>c. connect E (GetArg m ''-rpcconnect'' ''127.0.0.1'') (GetArg m ''-rpcport'' ''19772'') k = Inr c"
  shows "connect_loop E m True 0 =
      (if \<exists>k. connect E (GetArg m ''-rpcconnect'' ''127.0.0.1'') (GetArg m ''-rpcport'' ''19772'') k = Inr True
       then Some (Inr ()) else None) \<and>
    connect_loop E m False 0 = Some
      (if connect E (GetArg m ''-rpcconnect'' ''127.0.0.1'') (GetArg m ''-rpcport'' ''19772'') 0 = Inr True
       then Inr () else Inl (RuntimeError ''couldn't connect to server''))"
proof -
  obtain c where "connects E m 0 = Inr c" using assms by blast
  then show ?thesis using wait_outcome [OF assms] connect_loop_step [of E m False 0] by (cases c) simp_all
qed

theorem rpc_wait_witness:
  "connect_loop (example_env '''' \<lparr>env_resolve := \<lambda>s p k. Inr [k = 3]\<rparr>) [] True 0 = Some (Inr ())"
proof -
  let ?E = "example_env '''' \<lparr>env_resolve := \<lambda>s p k. Inr [k = 3]\<rparr>"
  have c: "connects ?E [] k = Inr (k = 3)" for k by (simp add: connect_def)
  then have "\<forall>k. \<exists>c. connects ?E [] k = Inr c" "\<exists>k. connects ?E [] k = Inr True" by auto
  then show ?thesis using rpc_wait [of ?E "[]"] by simp
qed

subsection \<open>Converting parameters\<close>

definition converted :: "parser \<Rightarrow> string \<Rightarrow> nat \<Rightarrow> string \<Rightarrow> jvalue \<Rightarrow> bool" where
  "converted parse strMethod idx s v \<longleftrightarrow>
     (if convert strMethod idx then read_string parse s VNull = Some (Inr (True, v)) else v = VStr s)"

definition inconvertible :: "parser \<Rightarrow> string \<Rightarrow> nat \<Rightarrow> string \<Rightarrow> bool" where
  "inconvertible parse strMethod idx s \<longleftrightarrow>
     convert strMethod idx \<and> (\<exists>w. read_string parse s VNull = Some (Inr (False, w)))"

lemma convert_value_cases:
  assumes "json_prims parse real_p int_p uint_p string_p rd"
  obtains v where "convert_value parse strMethod idx s = Some (Inr v)" and "converted parse strMethod idx s v"
  | "convert_value parse strMethod idx s = Some (Inl (RuntimeError (''Error parsing JSON:'' @ s)))"
    and "inconvertible parse strMethod idx s"
proof (cases "convert strMethod idx")
  case True
  obtain ok w where "read_string parse s VNull = Some (Inr (ok, w))"
    using json_prims.read_string_returns [OF assms] by blast
  then show ?thesis
    using True that by (cases ok) (auto simp: convert_value_def converted_def inconvertible_def)
qed (use that in \<open>simp add: convert_value_def converted_def\<close>)

lemma convert_values_cases:
  assumes "json_prims parse real_p int_p uint_p string_p rd"
  shows "(\<exists>vs. convert_values parse strMethod idx ss params = Some (Inr (params @ vs)) \<and>
      length vs = length ss \<and> (\<forall>i < length ss. converted parse strMethod (idx + i) (ss ! i) (vs ! i))) \<or>
    (\<exists>i < length ss. convert_values parse strMethod idx ss params =
        Some (Inl (RuntimeError (''Error parsing JSON:'' @ ss ! i))) \<and>
      inconvertible parse strMethod (idx + i) (ss ! i) \<and>
      (\<forall>j < i. \<exists>v. converted parse strMethod (idx + j) (ss ! j) v))"
proof (induction ss arbitrary: idx params)
  case Nil
  then show ?case by simp
next
  case (Cons s ss)
  show ?case
  proof (rule convert_value_cases [OF assms, of strMethod idx s])
    fix v assume v: "convert_value parse strMethod idx s = Some (Inr v)" "converted parse strMethod idx s v"
    have step: "convert_values parse strMethod idx (s # ss) params =
        convert_values parse strMethod (Suc idx) ss (params @ [v])" using v(1) by simp
    consider (ok) vs where "convert_values parse strMethod (Suc idx) ss (params @ [v]) = Some (Inr ((params @ [v]) @ vs))"
        "length vs = length ss" "\<forall>i < length ss. converted parse strMethod (Suc idx + i) (ss ! i) (vs ! i)"
      | (bad) i where "i < length ss" "convert_values parse strMethod (Suc idx) ss (params @ [v]) =
          Some (Inl (RuntimeError (''Error parsing JSON:'' @ ss ! i)))"
        "inconvertible parse strMethod (Suc idx + i) (ss ! i)"
        "\<forall>j < i. \<exists>v. converted parse strMethod (Suc idx + j) (ss ! j) v"
      using Cons [of "Suc idx" "params @ [v]"] by blast
    then show ?thesis
    proof cases
      case ok
      have "converted parse strMethod (idx + i) ((s # ss) ! i) ((v # vs) ! i)" if "i < Suc (length ss)" for i
        using that ok(3) v(2) by (cases i) auto
      then show ?thesis using step ok(1,2) by (intro disjI1 exI [of _ "v # vs"]) simp
    next
      case bad
      have "\<exists>v. converted parse strMethod (idx + j) ((s # ss) ! j) v" if "j < Suc i" for j
        using that bad(4) v(2) by (cases j) auto
      then show ?thesis using step bad(1-3) by (intro disjI2 exI [of _ "Suc i"]) simp
    qed
  next
    assume "convert_value parse strMethod idx s = Some (Inl (RuntimeError (''Error parsing JSON:'' @ s)))"
      and "inconvertible parse strMethod idx s"
    then show ?thesis by (intro disjI2 exI [of _ 0]) simp
  qed
qed

text \<open>
  C38: \<open>RPCConvertValues\<close> always returns: either one value per parameter, the parameter itself as a
  string where the table has no entry and the JSON value the parameter is read as where it has one,
  or the error \<open>Error parsing JSON\<close> with the first parameter that the table says is JSON and that is
  not.
\<close>

theorem rpc_convert_values:
  assumes "json_prims parse real_p int_p uint_p string_p rd"
  shows "(\<exists>vs. RPCConvertValues parse strMethod ss = Some (Inr vs) \<and> length vs = length ss \<and>
      (\<forall>i < length ss. converted parse strMethod i (ss ! i) (vs ! i))) \<or>
    (\<exists>i < length ss. RPCConvertValues parse strMethod ss =
        Some (Inl (RuntimeError (''Error parsing JSON:'' @ ss ! i))) \<and>
      inconvertible parse strMethod i (ss ! i) \<and> (\<forall>j < i. \<exists>v. converted parse strMethod j (ss ! j) v))"
  using convert_values_cases [OF assms, of strMethod 0 ss "[]"] by (simp add: RPCConvertValues_def)

lemma convert_table: "convert ''getblockbynumber'' 0" "\<not> convert ''gettransaction'' 0" "\<not> convert ''getblockcount'' i"
  by (simp_all add: convert_def CRPCConvertTable_def vRPCConvertParams_def)

lemma read_int_text:
  assumes "json_prims parse real_p int_p uint_p string_p rd"
  shows "read_string parse (dec_int (sint w)) v0 = Some (Inr (True, VInt w False))"
proof -
  have "json_text False 0 (VInt w False) = dec_int (sint w)" by simp
  then show ?thesis
    using json_prims.read_string_written [OF assms, of "VInt w False" "[]" False 0 v0]
    by (simp add: delim_def)
qed

theorem rpc_convert_values_witness:
  "RPCConvertValues ref_parse ''getblockbynumber'' [''7''] = Some (Inr [VInt 7 False])"
proof -
  have seven: "dec_int (sint (7 :: int64)) = ''7''" by code_simp
  have r: "read_string ref_parse ''7'' VNull = Some (Inr (True, VInt 7 False))"
    using read_int_text [OF ref.json_prims_axioms, of 7 VNull] unfolding seven .
  have "\<not> inconvertible ref_parse ''getblockbynumber'' 0 ''7''" by (simp add: inconvertible_def r)
  then obtain vs where "RPCConvertValues ref_parse ''getblockbynumber'' [''7''] = Some (Inr vs)"
    "length vs = 1" "converted ref_parse ''getblockbynumber'' 0 ''7'' (vs ! 0)"
    using rpc_convert_values [OF ref.json_prims_axioms, of "''getblockbynumber''" "[''7'']"] by auto
  then show ?thesis by (cases vs) (auto simp: converted_def convert_table r)
qed

end
