(* ===== verification/SslDevice.thy ===== *)
theory SslDevice
  imports RpcClient
begin

section \<open>The stream device (rpcprotocol.h)\<close>

text \<open>
  \<open>SSLIOStreamDevice\<close> moves the bytes of a connection and speaks TLS when told to. Boost.Asio is outside
  the repository: its operations are the record \<open>ssl_ops\<close>, a parameter, on a state of the connection
  of type \<open>'n\<close>. The device is where \<open>RpcClient\<close> stops: \<open>env_resolve\<close> gives the outcomes of the loop in
  \<open>device_connect\<close>, and \<open>env_serve\<close> the bytes that \<open>device_read\<close> gets for those \<open>device_write\<close> sent.
\<close>

subsection \<open>Boost.Asio\<close>

datatype role = Client | Server

text \<open>\<open>Secure\<close> is the stream itself, \<open>Plain\<close> its \<open>next_layer\<close>, the socket.\<close>

datatype layer = Secure | Plain

type_synonym endpoint = string

text \<open>
  \<open>so_connect\<close> gives the error code as a flag, the others may throw; \<open>so_write\<close> is \<open>asio::write\<close>, which
  returns the number of bytes it has written.
\<close>

record 'n ssl_ops =
  so_handshake :: "role \<Rightarrow> 'n \<Rightarrow> unit res \<times> 'n"
  so_read_some :: "layer \<Rightarrow> nat \<Rightarrow> 'n \<Rightarrow> string res \<times> 'n"
  so_write :: "layer \<Rightarrow> string \<Rightarrow> 'n \<Rightarrow> nat res \<times> 'n"
  so_resolve :: "string \<Rightarrow> string \<Rightarrow> 'n \<Rightarrow> endpoint list res \<times> 'n"
  so_close :: "'n \<Rightarrow> unit res \<times> 'n"
  so_connect :: "endpoint \<Rightarrow> 'n \<Rightarrow> bool \<times> 'n"

subsection \<open>The device\<close>

record SSLIOStreamDevice =
  fNeedHandshake :: bool
  fUseSSL :: bool

definition new_device :: "bool \<Rightarrow> SSLIOStreamDevice" where
  "new_device fUseSSLIn = \<lparr>fNeedHandshake = fUseSSLIn, fUseSSL = fUseSSLIn\<rparr>"

text \<open>The flag is cleared before the handshake, which may throw.\<close>

definition handshake :: "'n ssl_ops \<Rightarrow> role \<Rightarrow> SSLIOStreamDevice \<times> 'n \<Rightarrow> unit res \<times> SSLIOStreamDevice \<times> 'n" where
  "handshake A r st =
     (case st of (d, n) \<Rightarrow>
        if \<not> fNeedHandshake d then (Inr (), d, n)
        else let d = d\<lparr>fNeedHandshake := False\<rparr> in
          (case so_handshake A r n of (res, n) \<Rightarrow> (res, d, n)))"

definition device_layer :: "SSLIOStreamDevice \<Rightarrow> layer" where
  "device_layer d = (if fUseSSL d then Secure else Plain)"

definition device_read :: "'n ssl_ops \<Rightarrow> nat \<Rightarrow> SSLIOStreamDevice \<times> 'n \<Rightarrow> string res \<times> SSLIOStreamDevice \<times> 'n" where
  "device_read A k st =
     (case handshake A Server st of
        (Inl e, d, n) \<Rightarrow> (Inl e, d, n)
      | (Inr _, d, n) \<Rightarrow> (case so_read_some A (device_layer d) k n of (res, n) \<Rightarrow> (res, d, n)))"

definition device_write :: "'n ssl_ops \<Rightarrow> string \<Rightarrow> SSLIOStreamDevice \<times> 'n \<Rightarrow> nat res \<times> SSLIOStreamDevice \<times> 'n" where
  "device_write A s st =
     (case handshake A Client st of
        (Inl e, d, n) \<Rightarrow> (Inl e, d, n)
      | (Inr _, d, n) \<Rightarrow> (case so_write A (device_layer d) s n of (res, n) \<Rightarrow> (res, d, n)))"

lemma new_device_simps [simp]:
  "fNeedHandshake (new_device b) = b" "fUseSSL (new_device b) = b"
  "device_layer (new_device b) = (if b then Secure else Plain)"
  "device_layer (d\<lparr>fNeedHandshake := b\<rparr>) = device_layer d"
  by (simp_all add: new_device_def device_layer_def)

text \<open>\<open>while (error && endpoint_iterator != end)\<close>: the error after it, or an exception of \<open>close\<close>.\<close>

fun connect_while :: "'n ssl_ops \<Rightarrow> bool \<Rightarrow> endpoint list \<Rightarrow> 'n \<Rightarrow> bool res \<times> 'n" where
  "connect_while A error [] n = (Inr error, n)"
| "connect_while A error (ep # endpoints) n =
     (if \<not> error then (Inr error, n)
      else case so_close A n of
        (Inl e, n) \<Rightarrow> (Inl e, n)
      | (Inr _, n) \<Rightarrow> (case so_connect A ep n of (connected, n) \<Rightarrow> connect_while A (\<not> connected) endpoints n))"

definition device_connect :: "'n ssl_ops \<Rightarrow> string \<Rightarrow> string \<Rightarrow> 'n \<Rightarrow> bool res \<times> 'n" where
  "device_connect A server port n =
     (case so_resolve A (c_str server) (c_str port) n of
        (Inl e, n) \<Rightarrow> (Inl e, n)
      | (Inr endpoints, n) \<Rightarrow>
          (case connect_while A True endpoints n of
             (Inl e, n) \<Rightarrow> (Inl e, n)
           | (Inr error, n) \<Rightarrow> (Inr (if error then False else True), n)))"

subsection \<open>What happens on the connection\<close>

lemma connect_while_throws:
  "connect_while A error eps n = (Inl e, n') \<Longrightarrow> \<exists>n2. fst (so_close A n2) = Inl e"
proof (induction A error eps n rule: connect_while.induct)
  case (2 A error ep eps n)
  then show ?case
    by (cases "so_close A n") (auto split: if_splits prod.splits sum.splits intro: exI [of _ n])
qed simp

text \<open>The calls of Boost.Asio that are made, with the outcome where it matters.\<close>

datatype net_event =
    Handshake role bool
  | Read_some layer
  | Written layer string
  | Resolved string string
  | Closed
  | Tried endpoint bool

fun is_ok :: "'a res \<Rightarrow> bool" where
  "is_ok (Inr _) = True"
| "is_ok (Inl _) = False"

locale logged_net =
  fixes A :: "'n ssl_ops" and log :: "'n \<Rightarrow> net_event list"
  assumes log_handshake: "log (snd (so_handshake A r n)) = log n @ [Handshake r (is_ok (fst (so_handshake A r n)))]"
    and log_read: "log (snd (so_read_some A y k n)) = log n @ [Read_some y]"
    and log_write: "log (snd (so_write A y s n)) = log n @ [Written y s]"
    and log_resolve: "log (snd (so_resolve A server port n)) = log n @ [Resolved server port]"
    and log_close: "log (snd (so_close A n)) = log n @ [Closed]"
    and log_connect: "log (snd (so_connect A ep n)) = log n @ [Tried ep (fst (so_connect A ep n))]"

text \<open>A use of the device, whatever its results: an exception does not keep the caller from the next.\<close>

datatype io = In nat | Out string

fun device_io :: "'n ssl_ops \<Rightarrow> io \<Rightarrow> SSLIOStreamDevice \<times> 'n \<Rightarrow> SSLIOStreamDevice \<times> 'n" where
  "device_io A (In k) st = snd (device_read A k st)"
| "device_io A (Out s) st = snd (device_write A s st)"

fun io_role :: "io \<Rightarrow> role" where
  "io_role (In _) = Server"
| "io_role (Out _) = Client"

fun io_event :: "layer \<Rightarrow> io \<Rightarrow> net_event" where
  "io_event y (In _) = Read_some y"
| "io_event y (Out s) = Written y s"

context logged_net
begin

lemma io_no_handshake:
  assumes "\<not> fNeedHandshake d"
  shows "\<exists>n'. device_io A x (d, n) = (d, n') \<and> log n' = log n @ [io_event (device_layer d) x]"
proof (cases x)
  case (In k)
  then show ?thesis
    using assms log_read [of "device_layer d" k n]
    by (auto simp: device_read_def handshake_def split: prod.split)
next
  case (Out s)
  then show ?thesis
    using assms log_write [of "device_layer d" s n]
    by (auto simp: device_write_def handshake_def split: prod.split)
qed

lemma io_handshake:
  assumes "fNeedHandshake d"
  shows "\<exists>n' b. device_io A x (d, n) = (d\<lparr>fNeedHandshake := False\<rparr>, n') \<and>
    log n' = log n @ Handshake (io_role x) b # (if b then [io_event (device_layer d) x] else [])"
proof -
  let ?d = "d\<lparr>fNeedHandshake := False\<rparr>"
  obtain r n1 where h: "so_handshake A (io_role x) n = (r, n1)" by fastforce
  then have l: "log n1 = log n @ [Handshake (io_role x) (is_ok r)]" using log_handshake [of "io_role x" n] by simp
  show ?thesis
  proof (cases r)
    case (Inl e)
    then have "device_io A x (d, n) = (?d, n1)"
      using assms h by (cases x) (simp_all add: device_read_def device_write_def handshake_def)
    then show ?thesis using l Inl by auto
  next
    case (Inr u)
    then have "device_io A x (d, n) = device_io A x (?d, n1)"
      using assms h by (cases x) (simp_all add: device_read_def device_write_def handshake_def)
    moreover obtain n2 where "device_io A x (?d, n1) = (?d, n2)" "log n2 = log n1 @ [io_event (device_layer ?d) x]"
      using io_no_handshake [of ?d x n1] by auto
    ultimately show ?thesis using l Inr by (auto simp: device_layer_def)
  qed
qed

lemma ios_no_handshake:
  assumes "\<not> fNeedHandshake d"
  shows "\<exists>n'. fold (device_io A) xs (d, n) = (d, n') \<and> log n' = log n @ map (io_event (device_layer d)) xs"
proof (induction xs arbitrary: n)
  case Nil
  then show ?case by simp
next
  case (Cons x xs)
  obtain n1 where 1: "device_io A x (d, n) = (d, n1)" "log n1 = log n @ [io_event (device_layer d) x]"
    using io_no_handshake [OF assms, of x n] by blast
  obtain n2 where "fold (device_io A) xs (d, n1) = (d, n2)" "log n2 = log n1 @ map (io_event (device_layer d)) xs"
    using Cons.IH by blast
  then show ?case using 1 by simp
qed

text \<open>The loop over the endpoints.\<close>

definition attempts_log :: "(endpoint \<times> bool) list \<Rightarrow> net_event list" where
  "attempts_log ts = concat (map (\<lambda>(ep, b). [Closed, Tried ep b]) ts)"

lemma connect_while_log:
  assumes "connect_while A True eps n = (Inr error, n')"
  shows "\<exists>ts. map fst ts = take (length ts) eps \<and> log n' = log n @ attempts_log ts \<and>
    (\<forall>(ep, b) \<in> set (butlast ts). \<not> b) \<and>
    (if error then length ts = length eps \<and> (\<forall>(ep, b) \<in> set ts. \<not> b) else ts \<noteq> [] \<and> snd (last ts))"
  using assms
proof (induction eps arbitrary: n)
  case Nil
  then show ?case by (simp add: attempts_log_def)
next
  case (Cons ep eps)
  obtain r n1 where c: "so_close A n = (r, n1)" by fastforce
  obtain b n2 where t: "so_connect A ep n1 = (b, n2)" by fastforce
  have "connect_while A (\<not> b) eps n2 = (Inr error, n')"
    using Cons.prems c t by (cases r) simp_all
  moreover have l: "log n2 = log n @ [Closed, Tried ep b]"
    using log_close [of n] log_connect [of ep n1] c t by simp
  ultimately show ?case
  proof (cases b)
    case True
    then have "error = False \<and> n' = n2" using \<open>connect_while A (\<not> b) eps n2 = (Inr error, n')\<close> by (cases eps) simp_all
    then show ?thesis using l True by (intro exI [of _ "[(ep, b)]"]) (simp add: attempts_log_def)
  next
    case False
    then have "connect_while A True eps n2 = (Inr error, n')"
      using \<open>connect_while A (\<not> b) eps n2 = (Inr error, n')\<close> by simp
    from Cons.IH [OF this] obtain ts where ts: "map fst ts = take (length ts) eps" "log n' = log n2 @ attempts_log ts"
      "\<forall>(ep, b) \<in> set (butlast ts). \<not> b"
      "if error then length ts = length eps \<and> (\<forall>(ep, b) \<in> set ts. \<not> b) else ts \<noteq> [] \<and> snd (last ts)" by blast
    then show ?thesis
      using l False by (intro exI [of _ "(ep, b) # ts"]) (auto simp: attempts_log_def split: if_splits)
  qed
qed

end

subsection \<open>Properties\<close>

text \<open>
  C29: The handshake: in any series of reads and writes of a new device, whatever they return, TLS is
  spoken or not as the device was told. Without it there is never a handshake and every transfer goes
  over the plain socket. With it the first call on the connection is the one and only handshake, as the
  client if the device writes first and as the server if it reads first, every transfer goes over the
  secure stream, and only the first transfer is left out if the handshake throws.
\<close>

theorem device_handshake_once:
  assumes "logged_net A log"
  shows "\<exists>d n' b. fold (device_io A) xs (new_device ssl, n) = (d, n') \<and> fUseSSL d = ssl \<and>
    log n' = log n @
      (if \<not> ssl then map (io_event Plain) xs
       else case xs of [] \<Rightarrow> []
         | x # ys \<Rightarrow> Handshake (io_role x) b # map (io_event Secure) (if b then x # ys else ys))"
proof (cases "ssl \<and> xs \<noteq> []")
  case True
  then obtain x ys where xs: "xs = x # ys" by (cases xs) auto
  let ?d = "(new_device True)\<lparr>fNeedHandshake := False\<rparr>"
  have "fNeedHandshake (new_device True)" by simp
  from logged_net.io_handshake [OF assms this, of x n] obtain n1 b where 1:
    "device_io A x (new_device True, n) = (?d, n1)"
    "log n1 = log n @ Handshake (io_role x) b # (if b then [io_event Secure x] else [])"
    unfolding new_device_simps if_True by blast
  obtain n2 where "fold (device_io A) ys (?d, n1) = (?d, n2)" "log n2 = log n1 @ map (io_event Secure) ys"
    using logged_net.ios_no_handshake [OF assms, of ?d ys n1] by auto
  then show ?thesis using 1 True xs by (auto intro!: exI [of _ b])
next
  case False
  then show ?thesis
  proof (cases ssl)
    case True
    with False show ?thesis by simp
  next
    case False
    have "\<not> fNeedHandshake (new_device False)" by simp
    from logged_net.ios_no_handshake [OF assms this, of xs n] show ?thesis
      using False by auto
  qed
qed

text \<open>
  C30: Connecting ends: once the name is resolved, and unless closing the socket throws, it returns. The
  endpoints of the server are tried in their order, each once and after closing the socket, up to the
  first that connects; the result is true if one did, and false if all of them were tried in vain.
\<close>

theorem device_connect_order:
  assumes "logged_net A log" and "so_resolve A (c_str server) (c_str port) n = (Inr eps, n1)"
  shows "case device_connect A server port n of
      (Inl e, n') \<Rightarrow> \<exists>n2. fst (so_close A n2) = Inl e
    | (Inr connected, n') \<Rightarrow> \<exists>ts. map fst ts = take (length ts) eps \<and>
        log n' = log n @ Resolved (c_str server) (c_str port) # concat (map (\<lambda>(ep, b). [Closed, Tried ep b]) ts) \<and>
        (\<forall>(ep, b) \<in> set (butlast ts). \<not> b) \<and> connected = connect_endpoints (map snd ts) \<and>
        (connected \<or> map fst ts = eps)"
proof (cases "connect_while A True eps n1")
  case (Pair r n')
  show ?thesis
  proof (cases r)
    case (Inl e)
    then show ?thesis
      using assms(2) Pair connect_while_throws [of A True eps n1 e n'] by (auto simp: device_connect_def)
  next
    case (Inr error)
    have l: "log n1 = log n @ [Resolved (c_str server) (c_str port)]"
      using logged_net.log_resolve [OF assms(1), of "c_str server" "c_str port" n] assms(2) by simp
    from logged_net.connect_while_log [OF assms(1)] Pair Inr obtain ts where
      ts: "map fst ts = take (length ts) eps" "log n' = log n1 @ logged_net.attempts_log ts"
      "\<forall>(ep, b) \<in> set (butlast ts). \<not> b"
      "if error then length ts = length eps \<and> (\<forall>(ep, b) \<in> set ts. \<not> b) else ts \<noteq> [] \<and> snd (last ts)" by blast
    have any: "connect_endpoints bs \<longleftrightarrow> True \<in> set bs" for bs
      by (induction bs rule: connect_endpoints.induct) auto
    have "(\<not> error) = connect_endpoints (map snd ts)"
      using ts(4) by (auto simp: any split: if_splits dest: last_in_set)
    moreover have "device_connect A server port n = (Inr (\<not> error), n')"
      using assms(2) Pair Inr by (simp add: device_connect_def)
    ultimately show ?thesis
      using ts l by (auto simp: logged_net.attempts_log_def [OF assms(1)] split: if_splits intro!: exI [of _ ts])
  qed
qed

text \<open>A connection that logs and works.\<close>

definition log_net :: "net_event list ssl_ops" where
  "log_net = \<lparr>so_handshake = (\<lambda>r n. (Inr (), n @ [Handshake r True])),
     so_read_some = (\<lambda>y k n. (Inr '''', n @ [Read_some y])), so_write = (\<lambda>y s n. (Inr (length s), n @ [Written y s])),
     so_resolve = (\<lambda>server port n. (Inr [''::1'', ''127.0.0.1'', ''10.0.0.1''], n @ [Resolved server port])),
     so_close = (\<lambda>n. (Inr (), n @ [Closed])),
     so_connect = (\<lambda>ep n. (ep = ''127.0.0.1'', n @ [Tried ep (ep = ''127.0.0.1'')]))\<rparr>"

interpretation log_net: logged_net log_net "\<lambda>n. n"
  by unfold_locales (simp_all add: log_net_def)

theorem device_handshake_once_witness:
  "\<exists>d. fold (device_io log_net) [Out ''POST'', In 10] (new_device True, []) =
    (d, [Handshake Client True, Written Secure ''POST'', Read_some Secure])"
  using device_handshake_once [OF log_net.logged_net_axioms, of "[Out ''POST'', In 10]" True "[]"]
  by (auto simp: device_read_def device_write_def device_layer_def handshake_def log_net_def new_device_def
      split: if_splits)

theorem device_connect_order_witness:
  "\<exists>ts. device_connect log_net ''localhost'' ''19772'' [] =
      (Inr True, Resolved ''localhost'' ''19772'' # concat (map (\<lambda>(ep, b). [Closed, Tried ep b]) ts)) \<and>
    map fst ts = take (length ts) [''::1'', ''127.0.0.1'', ''10.0.0.1''] \<and> connect_endpoints (map snd ts)"
proof -
  have s: "c_str ''localhost'' = ''localhost''" "c_str ''19772'' = ''19772''" by code_simp+
  have r: "so_resolve log_net (c_str ''localhost'') (c_str ''19772'') [] =
      (Inr [''::1'', ''127.0.0.1'', ''10.0.0.1''], [Resolved ''localhost'' ''19772''])"
    by (simp add: log_net_def s)
  have d: "\<exists>n'. device_connect log_net ''localhost'' ''19772'' [] = (Inr True, n')"
    by (simp add: device_connect_def log_net_def)
  then obtain n' where n': "device_connect log_net ''localhost'' ''19772'' [] = (Inr True, n')" by blast
  from device_connect_order [OF log_net.logged_net_axioms r] show ?thesis
    unfolding n' s prod.case sum.case by (elim exE conjE) (intro exI conjI, auto)
qed

end
