(* ===== verification/CommandLine.thy ===== *)
theory CommandLine
  imports RpcRoundtrip
begin

section \<open>The command line of the client (rpcclient.cpp)\<close>

text \<open>What \<open>CommandLineRPC\<close> prints and returns for each outcome of the call it makes.\<close>

lemma run_command_call:
  assumes "skip_switches argv = prog # strMethod # strParams"
    and "RPCConvertValues (env_parse E) strMethod strParams = Some (Inr params)"
    and "CallRPC E strMethod params mapArgs = Some (r, m)"
  shows "run_command E argv mapArgs = Some (bindR r command_result, m)"
  using assms by (simp add: run_command_def)

lemma command_result_error:
  assumes "find_value reply ''error'' = VObj eo" and "find_value eo ''code'' = VInt code u"
    and "sint (scast code :: int32) \<noteq> - (2 ^ 31)"
  shows "command_result reply = Inr (if sint (scast code :: int32) < 0 then - scast code else scast code,
    ''error: '' @ json_text False 0 (VObj eo))"
  using assms
  by (simp add: command_result_def Let_def get_obj_def get_int_def check_type_def variant_get_def
      write_string_json_text c_abs_def)

lemma fixed8_nonempty [simp]: "fixed8 d \<noteq> []"
  by (cases d) (simp_all add: Let_def)

lemma json_text_nonempty [simp]: "json_text p n v \<noteq> []"
  by (cases v) (simp_all add: quoted_def)

text \<open>
  C39: The client reports every outcome: for a method whose parameters convert, an exception of the
  call is printed on the error stream after \<open>error: \<close> with exit code 87; an error object of the
  server is printed there as JSON with the absolute value of its code as exit code (on the output
  stream if the code is 0); a string result is printed as it is, any other result as formatted JSON,
  and a null result prints nothing, each with exit code 0.
\<close>

theorem command_line_outcome:
  assumes "skip_switches argv = prog # strMethod # strParams"
    and "RPCConvertValues (env_parse E) strMethod strParams = Some (Inr params)"
    and "CallRPC E strMethod params mapArgs = Some (r, m)"
  shows "(\<forall>w. r = Inl (RuntimeError w) \<longrightarrow> CommandLineRPC E argv mapArgs warning =
      Some (Inr (87, Some (False, c_str (''error: '' @ w) @ [CHR 0x0A])), m, warning)) \<and>
    (\<forall>reply eo code u. r = Inr reply \<longrightarrow> find_value reply ''error'' = VObj eo \<longrightarrow>
      find_value eo ''code'' = VInt code u \<longrightarrow> sint (scast code :: int32) \<noteq> - (2 ^ 31) \<longrightarrow>
      CommandLineRPC E argv mapArgs warning =
        Some (Inr (if sint (scast code :: int32) < 0 then - scast code else scast code,
          Some ((scast code :: int32) = 0, c_str (''error: '' @ json_text False 0 (VObj eo)) @ [CHR 0x0A])), m, warning)) \<and>
    (\<forall>reply. r = Inr reply \<longrightarrow> find_value reply ''error'' = VNull \<longrightarrow>
      CommandLineRPC E argv mapArgs warning = Some (Inr (0, case find_value reply ''result'' of
          VNull \<Rightarrow> None
        | VStr s \<Rightarrow> if s = '''' then None else Some (True, c_str s @ [CHR 0x0A])
        | v \<Rightarrow> Some (True, c_str (json_text True 0 v) @ [CHR 0x0A])), m, warning))"
proof (intro conjI allI impI)
  note run = run_command_call [OF assms]
  show "CommandLineRPC E argv mapArgs warning =
      Some (Inr (87, Some (False, c_str (''error: '' @ w) @ [CHR 0x0A])), m, warning)"
    if "r = Inl (RuntimeError w)" for w
    using that by (simp add: CommandLineRPC_def run printed_def)
  show "CommandLineRPC E argv mapArgs warning =
        Some (Inr (if sint (scast code :: int32) < 0 then - scast code else scast code,
          Some ((scast code :: int32) = 0, c_str (''error: '' @ json_text False 0 (VObj eo)) @ [CHR 0x0A])), m, warning)"
    if "r = Inr reply" "find_value reply ''error'' = VObj eo" "find_value eo ''code'' = VInt code u"
      "sint (scast code :: int32) \<noteq> - (2 ^ 31)" for reply eo code u
    using that command_result_error [OF that(2-4)] by (simp add: CommandLineRPC_def run printed_def del: json_text.simps)
  show "CommandLineRPC E argv mapArgs warning = Some (Inr (0, case find_value reply ''result'' of
          VNull \<Rightarrow> None
        | VStr s \<Rightarrow> if s = '''' then None else Some (True, c_str s @ [CHR 0x0A])
        | v \<Rightarrow> Some (True, c_str (json_text True 0 v) @ [CHR 0x0A])), m, warning)"
    if "r = Inr reply" "find_value reply ''error'' = VNull" for reply
    using that by (cases "find_value reply ''result''")
      (simp_all add: CommandLineRPC_def run printed_def command_result_def Let_def write_string_json_text
        get_str_def check_type_def variant_get_def del: json_text.simps)
qed

theorem command_line_outcome_witness:
  "CommandLineRPC (example_env '''') [''fid'', ''-testnet'', ''getblockcount''] [(''-rpcuser'', ''me'')] '''' =
     Some (Inr (87, Some (False, ''error: no response from server'' @ [CHR 0x0A])),
       snd (request_headers [(''-rpcuser'', ''me'')]), '''')"
proof -
  let ?E = "example_env ''''" and ?m = "[(''-rpcuser'', ''me'')]"
  obtain post where p: "request_post (fst (request_headers ?m)) ''getblockcount'' [] = Inr post"
    using request_post_text by blast
  have b: "boost_strings (env_split ?E) (env_trim ?E) (env_lower ?E)"
    using ref_strings.boost_strings_axioms by (simp add: example_env_def)
  have u: "GetArg ?m ''-rpcuser'' '''' \<noteq> ''''" by (simp add: GetArg_find)
  have c: "CallRPC ?E ''getblockcount'' [] ?m =
      Some (Inl (RuntimeError ''no response from server''), snd (request_headers ?m))"
    using CallRPC_sent [OF u example_connect_loop p] receive_nothing [OF b] by (simp add: example_env_def)
  have s: "skip_switches [''fid'', ''-testnet'', ''getblockcount''] = ''-testnet'' # ''getblockcount'' # []"
    by (simp add: IsSwitchChar_def)
  have v: "RPCConvertValues (env_parse ?E) ''getblockcount'' [] = Some (Inr [])" by (simp add: RPCConvertValues_def)
  have t: "c_str (''error: '' @ ''no response from server'') = ''error: no response from server''"
    by (simp add: c_str_def)
  from mp [OF spec [OF conjunct1 [OF command_line_outcome [OF s v c]]] refl] show ?thesis unfolding t .
qed

end
