(* ===== verification/FidData.thy ===== *)
theory FidData
  imports JsonValue
begin

section \<open>Blocks and transactions (block.h, block.cpp, transaction.h, transaction.cpp)\<close>

text \<open>
  The records the program fills from JSON and writes to the database, their constructors,
  \<open>checkValidy\<close> and \<open>clear\<close>. A C++ constructor that does not initialise a number leaves it
  indeterminate; such a member has an option type and \<open>None\<close> is the indeterminate value.
\<close>

definition zero_double :: double where
  "zero_double = DFin False 0 0"

subsection \<open>Transactions\<close>

record CFidTxScriptPubKey =
  pk_sasm :: string
  pk_reqSigs :: "int32 option"
  pk_type :: string
  pk_addresses :: string

record CFidTxScriptSig =
  sig_sasm :: string
  sig_hex :: string

record CFidTxVin =
  vin_type :: "char option"
  vin_txid :: string
  vin_vout :: "int32 option"
  vin_scriptSig :: CFidTxScriptSig
  vin_sequence :: "uint64 option"
  vin_value :: "double option"
  vin_addresses :: string

record CFidTxVout =
  vout_type :: "char option"
  vout_value :: "double option"
  vout_n :: "int32 option"
  vout_scriptPubKey :: CFidTxScriptPubKey

record CFidTransaction =
  tx_type :: char
  tx_txid :: string
  tx_version :: int32
  tx_time :: int64
  tx_locktime :: int64
  tx_vins :: "CFidTxVin list"
  tx_vouts :: "CFidTxVout list"
  tx_vin :: string
  tx_vout :: string
  tx_amount :: double
  tx_confirmations :: uint64
  tx_generated :: bool
  tx_blockhash :: string
  tx_blockindex :: int32
  tx_blocktime :: int64
  tx_timereceived :: int64
  tx_details :: string

definition new_vin :: CFidTxVin where
  "new_vin = \<lparr>vin_type = None, vin_txid = '''', vin_vout = None,
     vin_scriptSig = \<lparr>sig_sasm = '''', sig_hex = ''''\<rparr>, vin_sequence = None, vin_value = None,
     vin_addresses = ''''\<rparr>"

definition new_vout :: CFidTxVout where
  "new_vout = \<lparr>vout_type = None, vout_value = None, vout_n = None,
     vout_scriptPubKey = \<lparr>pk_sasm = '''', pk_reqSigs = None, pk_type = '''', pk_addresses = ''''\<rparr>\<rparr>"

definition new_tx :: CFidTransaction where
  "new_tx = \<lparr>tx_type = CHR ''T'', tx_txid = '''', tx_version = 1, tx_time = 1, tx_locktime = 1,
     tx_vins = [], tx_vouts = [], tx_vin = '''', tx_vout = '''', tx_amount = zero_double,
     tx_confirmations = 0, tx_generated = False, tx_blockhash = '''', tx_blockindex = - 1,
     tx_blocktime = 0, tx_timereceived = 0, tx_details = ''blockchain fid''\<rparr>"

definition tx_checkValidy :: "CFidTransaction \<Rightarrow> int32" where
  "tx_checkValidy tx = (if tx_txid tx = '''' then 0 else 1)"

definition tx_clear :: "CFidTransaction \<Rightarrow> CFidTransaction" where
  "tx_clear tx = tx\<lparr>tx_txid := '''', tx_type := CHR ''T'', tx_version := 0, tx_time := 0,
     tx_locktime := 0, tx_vin := '''', tx_vout := '''', tx_amount := zero_double, tx_confirmations := 0,
     tx_generated := False, tx_blockhash := '''', tx_blockindex := 0, tx_blocktime := 0,
     tx_timereceived := 0, tx_details := '''', tx_vins := [], tx_vouts := []\<rparr>"

subsection \<open>Blocks\<close>

record CFidBlock =
  bk_hash :: string
  bk_confirmations :: "uint64 option"
  bk_size :: "int32 option"
  bk_height :: "uint64 option"
  bk_version :: "int32 option"
  bk_merkleroot :: string
  bk_mint :: "double option"
  bk_time :: "int64 option"
  bk_nonce :: "int32 option"
  bk_bits :: string
  bk_difficulty :: "double option"
  bk_blocktrust :: string
  bk_chaintrust :: string
  bk_previousblockhash :: string
  bk_nextblockhash :: string
  bk_flags :: string
  bk_proofhash :: string
  bk_entropybit :: "int32 option"
  bk_modifier :: string
  bk_tx :: string
  bk_vtx :: "string list"
  bk_signature :: string

definition new_block :: CFidBlock where
  "new_block = \<lparr>bk_hash = '''', bk_confirmations = None, bk_size = None, bk_height = None,
     bk_version = None, bk_merkleroot = '''', bk_mint = None, bk_time = None, bk_nonce = None,
     bk_bits = '''', bk_difficulty = None, bk_blocktrust = '''', bk_chaintrust = '''',
     bk_previousblockhash = '''', bk_nextblockhash = '''', bk_flags = '''', bk_proofhash = '''',
     bk_entropybit = None, bk_modifier = '''', bk_tx = '''', bk_vtx = [], bk_signature = ''''\<rparr>"

definition bk_checkValidy :: "CFidBlock \<Rightarrow> int32" where
  "bk_checkValidy b = (if bk_hash b = '''' then 0 else 1)"

definition bk_clear :: "CFidBlock \<Rightarrow> CFidBlock" where
  "bk_clear b = b\<lparr>bk_hash := '''', bk_confirmations := Some 0, bk_size := Some 0,
     bk_height := Some (- 1), bk_version := Some 0, bk_merkleroot := '''', bk_mint := Some zero_double,
     bk_time := Some 0, bk_nonce := Some 0, bk_bits := '''', bk_difficulty := Some zero_double,
     bk_blocktrust := '''', bk_chaintrust := '''', bk_previousblockhash := '''',
     bk_nextblockhash := '''', bk_flags := '''', bk_proofhash := '''', bk_entropybit := Some 0,
     bk_modifier := '''', bk_tx := '''', bk_signature := '''', bk_vtx := []\<rparr>"

text \<open>Nothing of a block is indeterminate.\<close>

definition determinate :: "CFidBlock \<Rightarrow> bool" where
  "determinate b \<longleftrightarrow> bk_confirmations b \<noteq> None \<and> bk_size b \<noteq> None \<and> bk_height b \<noteq> None \<and>
     bk_version b \<noteq> None \<and> bk_mint b \<noteq> None \<and> bk_time b \<noteq> None \<and> bk_nonce b \<noteq> None \<and>
     bk_difficulty b \<noteq> None \<and> bk_entropybit b \<noteq> None"

text \<open>\<open>clear\<close> assigns every member: what was there before does not show.\<close>

lemma bk_clear_eq: "bk_clear b = bk_clear b'"
  by (cases b, cases b') (simp add: bk_clear_def)

lemma tx_clear_eq: "tx_clear t = tx_clear t'"
  by (cases t, cases t') (simp add: tx_clear_def)

lemma bk_clear_determinate [simp]: "determinate (bk_clear b)"
  by (simp add: determinate_def bk_clear_def)

lemma bk_clear_invalid [simp]: "bk_hash (bk_clear b) = ''''" "bk_checkValidy (bk_clear b) = 0"
  by (simp_all add: bk_clear_def bk_checkValidy_def)

end
