(* ===== verification/Dates.thy ===== *)
theory Dates
  imports HttpRoundtrip
begin

section \<open>Dates (utils.cpp, utils.h, rpcprotocol.cpp)\<close>

text \<open>
  \<open>DateTimeStrFormat\<close> formats a time by Boost.DateTime, after converting it to local time;
  \<open>rfc1123Time\<close> is the date of the HTTP headers, and the other caller is \<open>mysqldb.cpp\<close>. Points in time are
  the type \<open>'p\<close> of the library, whose operations are the parameter \<open>date_ops\<close>. Any of them may throw:
  \<open>utc_to_local\<close> throws a \<open>std::out_of_range\<close> for a time before 1970, and the calendar one
  for a year after 9999. Nothing in \<open>utils.cpp\<close> catches it.
\<close>

record 'p date_ops =
  from_time_t :: "int64 \<Rightarrow> 'p res"
  utc_to_local :: "'p \<Rightarrow> 'p res"
  time_facet :: "string \<Rightarrow> 'p \<Rightarrow> string res"

definition DateTimeStrFormat :: "'p date_ops \<Rightarrow> string \<Rightarrow> int64 \<Rightarrow> string res" where
  "DateTimeStrFormat D pszFormat nTime =
     bindR (from_time_t D nTime) (\<lambda>p.
     bindR (utc_to_local D p) (\<lambda>p. time_facet D (c_str pszFormat) p))"

definition strTimestampFormat :: string where
  "strTimestampFormat = ''%Y-%m-%d %H:%M:%S''"

definition DateTimeStrFormat_default :: "'p date_ops \<Rightarrow> int64 \<Rightarrow> string res" where
  "DateTimeStrFormat_default D nTime = DateTimeStrFormat D strTimestampFormat nTime"

definition rfc1123Time :: "'p date_ops \<Rightarrow> int64 \<Rightarrow> int64 \<Rightarrow> string res" where
  "rfc1123Time D nMockTime clock =
     DateTimeStrFormat D ''%a, %d %b %Y %H:%M:%S +0000'' (GetTime nMockTime clock)"

subsection \<open>The interface\<close>

text \<open>
  The times the library can write: from 1970 to the last day but one of 9999 (the zone may add a day). A date
  is written in one line if its format is one line.
\<close>

definition datable :: "int64 \<Rightarrow> bool" where
  "datable t \<longleftrightarrow> 0 \<le> sint t \<and> sint t < 253402214400"

locale dates =
  fixes D :: "'p date_ops"
  assumes facet_line: "CHR 0x0A \<notin> set fmt \<Longrightarrow> time_facet D fmt p = Inr s \<Longrightarrow> CHR 0x0A \<notin> set s"
    and written: "datable t \<Longrightarrow> \<exists>s. DateTimeStrFormat D fmt t = Inr s"
begin

lemma rfc1123_line:
  assumes "rfc1123Time D nMockTime clock = Inr date"
  shows "CHR 0x0A \<notin> set date"
proof -
  have "CHR 0x0A \<notin> set (c_str ''%a, %d %b %Y %H:%M:%S +0000'')" by code_simp
  then show ?thesis using assms by (auto simp: rfc1123Time_def DateTimeStrFormat_def res_simps dest: facet_line)
qed

lemma rfc1123_written: "datable (GetTime nMockTime clock) \<Longrightarrow> \<exists>date. rfc1123Time D nMockTime clock = Inr date"
  unfolding rfc1123Time_def by (rule written)

lemma default_written: "datable t \<Longrightarrow> \<exists>s. DateTimeStrFormat_default D t = Inr s"
  unfolding DateTimeStrFormat_default_def by (rule written)

text \<open>So the replies of the server are read back whatever the time.\<close>

lemmas reply_now_read = reply_read [OF rfc1123_line]
  and unauthorized_now_read = unauthorized_read [OF rfc1123_line]

end

subsection \<open>A reference calendar\<close>

text \<open>
  Points in time are seconds since 1970, local time is at a fixed distance from UTC, and a date is that
  of the Gregorian calendar: days are counted from 1 March of the year 0, so that the leap day ends
  a year, a century and an era.
\<close>

definition civil :: "int \<Rightarrow> int \<times> int \<times> int" where
  "civil days =
     (let z = days + 719468; era = z div 146097; doe = z mod 146097;
          yoe = (doe - doe div 1460 + doe div 36524 - doe div 146096) div 365;
          doy = doe - (365 * yoe + yoe div 4 - yoe div 100);
          mp = (5 * doy + 2) div 153; d = doy - (153 * mp + 2) div 5 + 1;
          m = (if mp < 10 then mp + 3 else mp - 9)
      in (yoe + era * 400 + (if m \<le> 2 then 1 else 0), m, d))"

definition week_day :: "int \<Rightarrow> string" where
  "week_day days =
     [''Thu'', ''Fri'', ''Sat'', ''Sun'', ''Mon'', ''Tue'', ''Wed''] ! nat (days mod 7)"

definition month_names :: "string list" where
  "month_names = [''Jan'', ''Feb'', ''Mar'', ''Apr'', ''May'', ''Jun'', ''Jul'', ''Aug'', ''Sep'', ''Oct'', ''Nov'', ''Dec'']"

definition two_digits :: "int \<Rightarrow> string" where
  "two_digits n = [digit_char (nat (n div 10 mod 10)), digit_char (nat (n mod 10))]"

definition directive :: "char \<Rightarrow> int \<Rightarrow> string" where
  "directive c t =
     (let days = t div 86400; s = t mod 86400 in
      case civil days of (year, month, day) \<Rightarrow>
        if c = CHR ''Y'' then two_digits (year div 100) @ two_digits year
        else if c = CHR ''m'' then two_digits month
        else if c = CHR ''d'' then two_digits day
        else if c = CHR ''H'' then two_digits (s div 3600)
        else if c = CHR ''M'' then two_digits (s div 60 mod 60)
        else if c = CHR ''S'' then two_digits (s mod 60)
        else if c = CHR ''a'' then week_day days
        else if c = CHR ''b'' then month_names ! nat ((month - 1) mod 12)
        else [c])"

fun ref_facet :: "string \<Rightarrow> int \<Rightarrow> string" where
  "ref_facet (CHR ''%'' # c # fmt) t = directive c t @ ref_facet fmt t"
| "ref_facet (c # fmt) t = c # ref_facet fmt t"
| "ref_facet [] t = []"

definition ref_dates :: "int \<Rightarrow> int date_ops" where
  "ref_dates zone = \<lparr>from_time_t = (\<lambda>t. Inr (sint t)),
     utc_to_local = (\<lambda>t. if t < 0 then Inl (OutOfRange ''Cannot convert dates prior to Jan 1, 1970'')
       else if 253402300800 \<le> t + zone then Inl (OutOfRange ''Year is out of valid range: 1400..9999'')
       else Inr (t + zone)),
     time_facet = (\<lambda>fmt t. Inr (ref_facet fmt t))\<rparr>"

lemma directive_line: "c \<noteq> CHR 0x0A \<Longrightarrow> CHR 0x0A \<notin> set (directive c t)"
proof -
  assume c: "c \<noteq> CHR 0x0A"
  have d: "digit_char (nat (n mod 10)) \<noteq> CHR 0x0A" for n
  proof -
    have "nat (n mod 10) \<in> set [0..<10]" by (simp add: nat_less_iff)
    moreover have "\<forall>k \<in> set [0..<10]. digit_char k \<noteq> CHR 0x0A" by code_simp
    ultimately show ?thesis by blast
  qed
  have at: "xs ! nat (n mod k) \<in> set xs" if "int (length xs) = k" "0 < k" for xs :: "string list" and n k
    using that by (intro nth_mem) (simp add: nat_less_iff)
  have month: "CHR 0x0A \<notin> set (month_names ! nat (n mod 12))" for n
  proof -
    have "month_names ! nat (n mod 12) \<in> set month_names" by (rule at) (simp_all add: month_names_def)
    moreover have "\<forall>w \<in> set month_names. CHR 0x0A \<notin> set w" by code_simp
    ultimately show ?thesis by blast
  qed
  have day: "CHR 0x0A \<notin> set (week_day n)" for n
  proof -
    have "week_day n \<in> set [''Thu'', ''Fri'', ''Sat'', ''Sun'', ''Mon'', ''Tue'', ''Wed'']"
      unfolding week_day_def by (rule at) simp_all
    moreover have "\<forall>w \<in> set [''Thu'', ''Fri'', ''Sat'', ''Sun'', ''Mon'', ''Tue'', ''Wed'']. CHR 0x0A \<notin> set w"
      by code_simp
    ultimately show ?thesis by blast
  qed
  have two: "CHR 0x0A \<notin> set (two_digits n)" for n
    using d [of n] d [of "n div 10"] by (auto simp: two_digits_def)
  obtain year month' day' where "civil (t div 86400) = (year, month', day')" by (cases "civil (t div 86400)")
  then show ?thesis
    using c by (simp add: directive_def Let_def two month day)
qed

lemma ref_facet_line: "CHR 0x0A \<notin> set fmt \<Longrightarrow> CHR 0x0A \<notin> set (ref_facet fmt t)"
  by (induction fmt t rule: ref_facet.induct) (auto simp: directive_line)

interpretation ref_date: dates "ref_dates 28800"
proof unfold_locales
  show "CHR 0x0A \<notin> set s" if "CHR 0x0A \<notin> set fmt" "time_facet (ref_dates 28800) fmt p = Inr s" for fmt p s
    using that by (auto simp: ref_dates_def ref_facet_line)
  show "\<exists>s. DateTimeStrFormat (ref_dates 28800) fmt t = Inr s" if "datable t" for fmt t
    using that by (auto simp: DateTimeStrFormat_def ref_dates_def datable_def)
qed

text \<open>
  In a zone eight hours east the time 1 is written as \<open>transaction.h\<close> says; and the date of an
  HTTP reply is the local time with the offset of UTC.
\<close>

lemma dates_east:
  "DateTimeStrFormat_default (ref_dates 28800) 1 = Inr ''1970-01-01 08:00:01''"
  "rfc1123Time (ref_dates 28800) 0 1500000000 = Inr ''Fri, 14 Jul 2017 10:40:00 +0000''"
  "DateTimeStrFormat_default (ref_dates 28800) (- 1) = Inl (OutOfRange ''Cannot convert dates prior to Jan 1, 1970'')"
proof -
  have "ref_facet strTimestampFormat 28801 = ''1970-01-01 08:00:01''"
    "ref_facet (c_str ''%a, %d %b %Y %H:%M:%S +0000'') 1500028800 = ''Fri, 14 Jul 2017 10:40:00 +0000''"
    "c_str strTimestampFormat = strTimestampFormat"
    by code_simp+
  then show "DateTimeStrFormat_default (ref_dates 28800) 1 = Inr ''1970-01-01 08:00:01''"
    "rfc1123Time (ref_dates 28800) 0 1500000000 = Inr ''Fri, 14 Jul 2017 10:40:00 +0000''"
    "DateTimeStrFormat_default (ref_dates 28800) (- 1) = Inl (OutOfRange ''Cannot convert dates prior to Jan 1, 1970'')"
    by (simp_all add: DateTimeStrFormat_default_def DateTimeStrFormat_def rfc1123Time_def GetTime_def ref_dates_def
        del: ref_facet.simps)
qed

end
