(* ===== verification/MysqlDb.thy ===== *)
theory MysqlDb
  imports FidData Config Dates
begin

section \<open>The database (mysqldb/mysqldb.h, mysqldb/mysqldb.cpp)\<close>

text \<open>
  \<open>CMysqlDb\<close>: its single instance, the connection and the statements it executes. A statement is
  the text of the \<open>mysqlpp::Query\<close> with the values of its \<open>template_defaults\<close>, in the order the code
  assigns them; what the server does with it is outside the repository: the operations of MySQL++
  are the record \<open>db_ops\<close>, a parameter, on a state of the server of type \<open>'d\<close>.
\<close>

subsection \<open>Statements\<close>

text \<open>\<open>SIndeterminate\<close> is the value of a member that was never initialised.\<close>

datatype sqlval = SNull | SText string | SInt int32 | SUint uint64 | SReal double | SChar char | SIndeterminate

record statement =
  st_query :: string
  st_defaults :: "(string \<times> sqlval) list"

definition sql_opt :: "('a \<Rightarrow> sqlval) \<Rightarrow> 'a option \<Rightarrow> sqlval" where
  "sql_opt f v = (case v of None \<Rightarrow> SIndeterminate | Some x \<Rightarrow> f x)"

subsection \<open>MySQL++\<close>

text \<open>
  The exceptions the code tells apart, with their message: \<open>BadQuery\<close>, \<open>BadConversion\<close> and any other
  \<open>mysqlpp::Exception\<close>. \<open>db_connect\<close> takes database, server, user, password and port;
  \<open>db_store\<close> returns the rows of a query, or \<open>None\<close> where the result is false; \<open>db_to_int\<close> is the
  conversion of a field; \<open>db_date\<close> is \<open>DateTimeStrFormat\<close> of a time in
  the default format (\<open>DateTimeStrFormat_default\<close>), which may throw.
\<close>

datatype db_exn = BadQuery string | BadConversion string | OtherException string

record 'd db_ops =
  db_set_option :: "string \<Rightarrow> 'd \<Rightarrow> 'd"
  db_connect :: "string \<Rightarrow> string \<Rightarrow> string \<Rightarrow> string \<Rightarrow> int32 \<Rightarrow> 'd \<Rightarrow> (db_exn + bool) \<times> 'd"
  db_execute :: "statement \<Rightarrow> 'd \<Rightarrow> (db_exn + unit) \<times> 'd"
  db_count_rows :: "string \<Rightarrow> 'd \<Rightarrow> (db_exn + nat) \<times> 'd"
  db_store :: "string \<Rightarrow> 'd \<Rightarrow> (db_exn + string list list option) \<times> 'd"
  db_to_int :: "string \<Rightarrow> db_exn + int32"
  db_date :: "int64 \<Rightarrow> string res"

fun bindD :: "('d \<Rightarrow> (db_exn + 'a) \<times> 'd) \<Rightarrow> ('a \<Rightarrow> 'd \<Rightarrow> (db_exn + 'b) \<times> 'd) \<Rightarrow> 'd \<Rightarrow> (db_exn + 'b) \<times> 'd" where
  "bindD f g d = (case f d of (Inl e, d) \<Rightarrow> (Inl e, d) | (Inr x, d) \<Rightarrow> g x d)"

text \<open>The three \<open>catch\<close> clauses every operation ends with; they catch what MySQL++ throws and nothing else.\<close>

fun catch_db :: "(db_exn + unit) \<times> 'd \<Rightarrow> int32 \<times> 'd" where
  "catch_db (Inr _, d) = (0, d)"
| "catch_db (Inl (BadQuery _), d) = (1, d)"
| "catch_db (Inl (BadConversion _), d) = (2, d)"
| "catch_db (Inl (OtherException _), d) = (3, d)"

text \<open>An exception that is not caught is a \<open>std::exception\<close> with its message.\<close>

fun db_what :: "db_exn \<Rightarrow> exn" where
  "db_what (BadQuery w) = RuntimeError w"
| "db_what (BadConversion w) = RuntimeError w"
| "db_what (OtherException w) = RuntimeError w"

subsection \<open>The connection\<close>

record CMysqlDb =
  inited :: int32

definition new_db :: CMysqlDb where
  "new_db = \<lparr>inited = 0\<rparr>"

definition finish_connect :: "(db_exn + bool) \<times> 'd \<Rightarrow> CMysqlDb \<Rightarrow> int32 res \<times> CMysqlDb \<times> 'd" where
  "finish_connect r c =
     (case r of
        (Inl e, d) \<Rightarrow> (Inl (db_what e), c, d)
      | (Inr connected, d) \<Rightarrow> if \<not> connected then (Inr (- 1), c, d) else (Inr 0, c\<lparr>inited := 1\<rparr>, d))"

definition initDb_with :: "'d db_ops \<Rightarrow> string \<Rightarrow> string \<Rightarrow> string \<Rightarrow> string \<Rightarrow> CMysqlDb \<Rightarrow> 'd
    \<Rightarrow> int32 res \<times> CMysqlDb \<times> 'd" where
  "initDb_with D dbInstance user passwd dbaddress c d =
     (if inited c \<noteq> 0 then (Inr 1, c, d)
      else finish_connect (db_connect D (c_str dbInstance) (c_str dbaddress) (c_str user) (c_str passwd) 0
        (db_set_option D ''gbk'' d)) c)"

definition initDb :: "'d db_ops \<Rightarrow> args \<Rightarrow> CMysqlDb \<Rightarrow> 'd \<Rightarrow> int32 res \<times> CMysqlDb \<times> 'd" where
  "initDb D mapArgs c d =
     (if inited c \<noteq> 0 then (Inr 1, c, d)
      else finish_connect (db_connect D (c_str (get_fidconfig mapArgs ''-database''))
        (c_str (get_fidconfig mapArgs ''-dburl'')) (c_str (get_fidconfig mapArgs ''-dbname''))
        (c_str (get_fidconfig mapArgs ''-dbpasswd'')) (atoi (get_fidconfig mapArgs ''-dbport''))
        (db_set_option D ''gbk'' d)) c)"

text \<open>\<open>getinitance\<close> as one caller sees it: the pointer \<open>m_p\<close> is \<open>None\<close> while it is null.\<close>

definition getinitance :: "CMysqlDb option \<Rightarrow> CMysqlDb" where
  "getinitance m_p = (case m_p of None \<Rightarrow> new_db | Some c \<Rightarrow> c)"

subsection \<open>Inserting\<close>

text \<open>
  The comparison \<open>c_str() == ""\<close> compares two addresses and is false, so its alternative text is
  never used. The dates are written before the statement is executed, and what \<open>DateTimeStrFormat\<close> throws is
  no exception of MySQL++: it leaves the operation, with nothing executed.
\<close>

definition insertBlock_statement :: "string \<Rightarrow> CFidBlock \<Rightarrow> statement" where
  "insertBlock_statement time b =
     \<lparr>st_query =
        ''insert into %20:table(bk_hash, bk_confirmations, bk_size, bk_height, bk_version, bk_merkleroot, bk_mint, bk_time, bk_nonce, bk_bits, ''
        @ ''bk_difficulty, bk_blocktrust, bk_chaintrust, bk_previousblockhash, bk_nextblockhash, bk_flags, bk_proofhash, bk_entropybit, bk_modifier, bk_vtx) values ''
        @ ''(%0q:hash, %1:confirmations, %2:size, %3:height, %4:version, %5q:merkleroot, %6:mint, %7q:time, %8:nonce, %9q:bits, %10:difficulty, ''
        @ ''%11q:blocktrust, %12q:chaintrust, %13q:previousblockhash, %14q:nextblockhash, %15q:flags, %16q:proofhash, %17:entropybit, %18q:modifier, %19q:vtx) '',
      st_defaults =
       [(''table'', SText ''block''),
        (''hash'', SText (c_str (bk_hash b))),
        (''confirmations'', sql_opt SUint (bk_confirmations b)),
        (''size'', sql_opt SInt (bk_size b)),
        (''height'', sql_opt SUint (bk_height b)),
        (''version'', sql_opt SInt (bk_version b)),
        (''merkleroot'', SText (c_str (bk_merkleroot b))),
        (''mint'', sql_opt SReal (bk_mint b)),
        (''time'', SText (c_str time)),
        (''nonce'', sql_opt SInt (bk_nonce b)),
        (''bits'', SText (c_str (bk_bits b))),
        (''difficulty'', sql_opt SReal (bk_difficulty b)),
        (''blocktrust'', SText (c_str (bk_blocktrust b))),
        (''chaintrust'', SText (c_str (bk_chaintrust b))),
        (''previousblockhash'', SText (c_str (bk_previousblockhash b))),
        (''nextblockhash'', SText (c_str (bk_nextblockhash b))),
        (''flags'', SText (c_str (bk_flags b))),
        (''proofhash'', SText (c_str (bk_proofhash b))),
        (''entropybit'', sql_opt SInt (bk_entropybit b)),
        (''modifier'', SText (c_str (bk_modifier b))),
        (''vtx'', SNull)]\<rparr>"

definition block_date :: "'d db_ops \<Rightarrow> CFidBlock \<Rightarrow> string res" where
  "block_date D b = (case bk_time b of
     None \<Rightarrow> Inl (Undefined ''indeterminate value'') | Some t \<Rightarrow> db_date D t)"

definition insertBlock :: "'d db_ops \<Rightarrow> CFidBlock \<Rightarrow> 'd \<Rightarrow> int32 res \<times> 'd" where
  "insertBlock D b d =
     (case block_date D b of
        Inl e \<Rightarrow> (Inl e, d)
      | Inr time \<Rightarrow> apfst Inr (catch_db
          (bindD (db_execute D (insertBlock_statement time b)) (\<lambda>_.
           bindD (db_count_rows D ''block'') (\<lambda>_. Pair (Inr ()))) d)))"

definition update_statement :: "CFidTransaction \<Rightarrow> CFidTxVin \<Rightarrow> statement" where
  "update_statement tx v =
     \<lparr>st_query =
        ''update blocktx_vin vin ''
        @ ''inner join (select bktx_voutaddresses as address,bktx_voutvalue as amount from blocktx_vout where bktx_txid=%0q:prevtxid and bktx_voutn=%1q:prevn) tmp ''
        @ ''set vin.bktx_vinvalue=tmp.amount, vin.bktx_vinaddresses=tmp.address where vin.bktx_txid=%2q:txid;'',
      st_defaults =
       [(''prevtxid'', SText (c_str (vin_txid v))),
        (''prevn'', sql_opt SInt (vin_vout v)),
        (''txid'', SText (c_str (tx_txid tx)))]\<rparr>"

definition updateBlockTxVoutByTxidAndN :: "'d db_ops \<Rightarrow> CFidTransaction \<Rightarrow> CFidTxVin \<Rightarrow> 'd \<Rightarrow> int32 \<times> 'd" where
  "updateBlockTxVoutByTxidAndN D tx v d = catch_db (db_execute D (update_statement tx v) d)"

definition insertTxVout_statement :: "CFidTransaction \<Rightarrow> CFidTxVout \<Rightarrow> statement" where
  "insertTxVout_statement tx v =
     \<lparr>st_query =
        ''insert into %14:table(bktx_txid, bktx_blockhash, bktx_type, bktx_voutvalue, bktx_voutn, bktx_voutaddresses, bktx_voutstasm, bktx_voutstreqSigs, bktx_voutsttype) values ''
        @ ''(%0q:id, %1q:blockhash, %2q:type, %3q:voutvalue, %4:voutn, %5q:voutaddresses, %6q:voutstasm, %7q:voutstreqSigs, %8q:voutsttype)'',
      st_defaults =
       [(''table'', SText ''blocktx_vout''),
        (''id'', SText (c_str (tx_txid tx))),
        (''blockhash'', SText (c_str (tx_blockhash tx))),
        (''type'', sql_opt SChar (vout_type v)),
        (''voutvalue'', sql_opt SReal (vout_value v)),
        (''voutn'', sql_opt SInt (vout_n v)),
        (''voutaddresses'', SText (c_str (pk_addresses (vout_scriptPubKey v)))),
        (''voutstasm'', SText (c_str (pk_sasm (vout_scriptPubKey v)))),
        (''voutstreqSigs'', sql_opt SInt (pk_reqSigs (vout_scriptPubKey v))),
        (''voutsttype'', SText (c_str (pk_type (vout_scriptPubKey v))))]\<rparr>"

definition insertTxVout :: "'d db_ops \<Rightarrow> CFidTransaction \<Rightarrow> CFidTxVout \<Rightarrow> 'd \<Rightarrow> int32 \<times> 'd" where
  "insertTxVout D tx v d = catch_db
     (bindD (db_execute D (insertTxVout_statement tx v)) (\<lambda>_.
      bindD (db_count_rows D ''blocktx_vout'') (\<lambda>_. Pair (Inr ()))) d)"

definition insertTxVin_statement :: "CFidTransaction \<Rightarrow> CFidTxVin \<Rightarrow> statement" where
  "insertTxVin_statement tx v =
     \<lparr>st_query =
        ''insert into %14:table(bktx_txid, bktx_blockhash, bktx_prevtxid, bktx_prevvoutn, bktx_vinstasm, bktx_vinsthex, bktx_vinsequence, bktx_vinvalue, bktx_vinaddresses, bktx_type) values ''
        @ ''(%0q:id, %1q:blockhash, %2q:prevtxid, %3q:prevvoutn, %4q:vinstasm, %5q:vinsthex, %6q:vinsequence, %7:vinvalue, %8q:vinaddresses, %9q:type)'',
      st_defaults =
       [(''table'', SText ''blocktx_vin''),
        (''id'', SText (c_str (tx_txid tx))),
        (''blockhash'', SText (c_str (tx_blockhash tx))),
        (''prevtxid'', SText (c_str (vin_txid v))),
        (''prevvoutn'', sql_opt SInt (vin_vout v)),
        (''vinstasm'', SText (c_str (sig_hex (vin_scriptSig v)))),
        (''vinsthex'', SText (c_str (sig_sasm (vin_scriptSig v)))),
        (''vinsequence'', sql_opt SUint (vin_sequence v)),
        (''vinvalue'', sql_opt SReal (vin_value v)),
        (''vinaddresses'', SText (c_str (vin_addresses v))),
        (''type'', sql_opt SChar (vin_type v))]\<rparr>"

definition insertTxVin :: "'d db_ops \<Rightarrow> CFidTransaction \<Rightarrow> CFidTxVin \<Rightarrow> 'd \<Rightarrow> int32 \<times> 'd" where
  "insertTxVin D tx v d = catch_db
     (bindD (db_execute D (insertTxVin_statement tx v)) (\<lambda>_.
      bindD (db_count_rows D ''blocktx_vin'') (\<lambda>_ d.
        (Inr (), snd (updateBlockTxVoutByTxidAndN D tx v d)))) d)"

definition insertTx_statement :: "string \<times> string \<Rightarrow> CFidTransaction \<Rightarrow> statement" where
  "insertTx_statement ds tx =
     \<lparr>st_query =
        ''insert into %14:table(tx_id, tx_version, tx_time, tx_locktime, tx_type, tx_vin, tx_vout, tx_amount, tx_confirmations, tx_generated, tx_blockhash, tx_blocktime, tx_timereceived, tx_details) values ''
        @ ''(%0q:id, %1:version, %2q:time, %3q:locktime, '' @ [CHR 0x27] @ ''%4:type'' @ [CHR 0x27]
        @ '', %5q:vin, %6q:vout, %7:amount, %8:confirmations, %9:generated, %10q:blockhash, %11q:blocktime, %12q:timereceived, %13q:details)'',
      st_defaults =
       [(''table'', SText ''blocktransaction''),
        (''id'', SText (c_str (tx_txid tx))),
        (''version'', SInt (tx_version tx)),
        (''time'', SText (c_str (fst ds))),
        (''locktime'', SText (c_str (snd ds))),
        (''type'', SChar (tx_type tx)),
        (''vin'', SNull),
        (''vout'', SNull),
        (''amount'', SReal (tx_amount tx)),
        (''confirmations'', SUint (tx_confirmations tx)),
        (''generated'', SNull),
        (''blockhash'', SText (c_str (tx_blockhash tx))),
        (''blocktime'', SNull),
        (''timereceived'', SNull),
        (''details'', SText (c_str (tx_details tx)))]\<rparr>"

text \<open>The two loops at the end of \<open>insertTx\<close>; their results are dropped.\<close>

definition insert_details :: "'d db_ops \<Rightarrow> CFidTransaction \<Rightarrow> 'd \<Rightarrow> 'd" where
  "insert_details D tx d =
     fold (\<lambda>v d. snd (insertTxVin D tx v d)) (tx_vins tx)
       (fold (\<lambda>v d. snd (insertTxVout D tx v d)) (tx_vouts tx) d)"

definition tx_dates :: "'d db_ops \<Rightarrow> CFidTransaction \<Rightarrow> (string \<times> string) res" where
  "tx_dates D tx =
     bindR (db_date D (tx_time tx)) (\<lambda>time.
     bindR (if sint (tx_locktime tx) = 2 ^ 63 - 1 then Inl (Undefined ''int overflow'')
       else db_date D (tx_locktime tx + 1)) (\<lambda>locktime. Inr (time, locktime)))"

definition insertTx :: "'d db_ops \<Rightarrow> CFidTransaction \<Rightarrow> 'd \<Rightarrow> int32 res \<times> 'd" where
  "insertTx D tx d =
     (case tx_dates D tx of
        Inl e \<Rightarrow> (Inl e, d)
      | Inr ds \<Rightarrow> apfst Inr (catch_db
          (bindD (db_execute D (insertTx_statement ds tx)) (\<lambda>_.
           bindD (db_count_rows D ''blocktransaction'') (\<lambda>_ d. (Inr (), insert_details D tx d))) d)))"

subsection \<open>Counting\<close>

definition queryBlockCount :: "'d db_ops \<Rightarrow> 'd \<Rightarrow> int32 res \<times> 'd" where
  "queryBlockCount D d =
     (case db_store D ''select count(*) from block'' d of
        (Inl e, d) \<Rightarrow> (Inl (db_what e), d)
      | (Inr None, d) \<Rightarrow> (Inr 0, d)
      | (Inr (Some res), d) \<Rightarrow>
          (if res = [] \<or> hd res = [] then (Inl (Undefined ''res[0][0]''), d)
           else case db_to_int D (hd (hd res)) of
             Inl e \<Rightarrow> (Inl (db_what e), d)
           | Inr count \<Rightarrow> (Inr count, d)))"

text \<open>\<open>queryTest\<close> only prints what it finds.\<close>

definition queryTest :: "'d db_ops \<Rightarrow> 'd \<Rightarrow> int32 res \<times> 'd" where
  "queryTest D d =
     (case db_connect D ''mysql'' ''127.0.0.1'' ''root'' '''' 0 (db_set_option D ''gbk'' d) of
        (Inl e, d) \<Rightarrow> (Inl (db_what e), d)
      | (Inr connected, d) \<Rightarrow>
          (if \<not> connected then (Inr (- 1), d)
           else case db_store D ''select Host,User,password_expired,authentication_string,password_expired from user'' d of
             (Inl e, d) \<Rightarrow> (Inl (db_what e), d)
           | (Inr _, d) \<Rightarrow> (Inr 0, d)))"

subsection \<open>The statements a call executes\<close>

text \<open>
  \<open>trace d\<close> is the sequence of statements executed so far: executing adds one, also when it fails,
  and nothing else does.
\<close>

locale logged_db =
  fixes D :: "'d db_ops" and trace :: "'d \<Rightarrow> statement list"
  assumes trace_execute: "trace (snd (db_execute D s d)) = trace d @ [s]"
    and trace_count_rows: "trace (snd (db_count_rows D t d)) = trace d"
    and trace_set_option: "trace (db_set_option D opt d) = trace d"
    and trace_connect: "trace (snd (db_connect D a b u p port d)) = trace d"
    and trace_store: "trace (snd (db_store D q d)) = trace d"
begin

lemma trace_catch [simp]: "trace (snd (catch_db r)) = trace (snd r)"
  by (cases r rule: catch_db.cases) simp_all

lemma trace_insert_count:
  "trace (snd (bindD (db_execute D s) (\<lambda>_. bindD (db_count_rows D t) (\<lambda>_. Pair (Inr ()))) d)) = trace d @ [s]"
  using trace_execute [of s d] trace_count_rows [of t]
  by (auto split: prod.split sum.split) (metis snd_conv)+

lemma insertBlock_trace:
  "block_date D b = Inr time \<Longrightarrow> trace (snd (insertBlock D b d)) = trace d @ [insertBlock_statement time b]"
  by (simp add: insertBlock_def trace_insert_count del: bindD.simps)

lemma insertTxVout_trace: "trace (snd (insertTxVout D tx v d)) = trace d @ [insertTxVout_statement tx v]"
  by (simp add: insertTxVout_def trace_insert_count del: bindD.simps)

lemma update_trace:
  "trace (snd (updateBlockTxVoutByTxidAndN D tx v d)) = trace d @ [update_statement tx v]"
  by (simp add: updateBlockTxVoutByTxidAndN_def trace_execute)

text \<open>An insertion goes on exactly if the statement and the count of the rows succeed.\<close>

definition went_on :: "statement \<Rightarrow> string \<Rightarrow> 'd \<Rightarrow> bool" where
  "went_on s t d \<longleftrightarrow> (\<exists>d1 n. db_execute D s d = (Inr (), d1) \<and> fst (db_count_rows D t d1) = Inr n)"

lemma insert_then:
  "trace (snd (bindD (db_execute D s) (\<lambda>_. bindD (db_count_rows D t) (\<lambda>_ d. (Inr (), F d))) d)) =
     (if went_on s t d then trace (F (snd (db_count_rows D t (snd (db_execute D s d))))) else trace d @ [s])"
proof -
  obtain r1 d1 where 1: "db_execute D s d = (r1, d1)" by fastforce
  obtain r2 d2 where 2: "db_count_rows D t d1 = (r2, d2)" by fastforce
  have "trace d1 = trace d @ [s]" "trace d2 = trace d1"
    using trace_execute [of s d] 1 trace_count_rows [of t d1] 2 by simp_all
  then show ?thesis by (cases r1; cases r2) (auto simp: 1 2 went_on_def)
qed

lemma trace_after: "trace (snd (db_count_rows D t (snd (db_execute D s d)))) = trace d @ [s]"
  by (simp add: trace_count_rows trace_execute)

lemma insertTxVin_trace:
  "trace (snd (insertTxVin D tx v d)) = trace d @
     (if went_on (insertTxVin_statement tx v) ''blocktx_vin'' d
      then [insertTxVin_statement tx v, update_statement tx v] else [insertTxVin_statement tx v])"
  by (simp add: insertTxVin_def insert_then update_trace trace_after del: bindD.simps)

lemma vouts_trace:
  "trace (fold (\<lambda>v d. snd (insertTxVout D tx v d)) vs d) = trace d @ map (insertTxVout_statement tx) vs"
  by (induction vs arbitrary: d) (simp_all add: insertTxVout_trace)

definition vin_runs :: "CFidTransaction \<Rightarrow> statement list list \<Rightarrow> CFidTxVin list \<Rightarrow> bool" where
  "vin_runs tx us vs \<longleftrightarrow> list_all2 (\<lambda>u v. u = [insertTxVin_statement tx v] \<or>
     u = [insertTxVin_statement tx v, update_statement tx v]) us vs"

lemma vins_trace:
  "\<exists>us. vin_runs tx us vs \<and> trace (fold (\<lambda>v d. snd (insertTxVin D tx v d)) vs d) = trace d @ concat us"
proof (induction vs arbitrary: d)
  case Nil
  then show ?case by (intro exI [of _ "[]"]) (simp add: vin_runs_def)
next
  case (Cons v vs)
  obtain us where us: "vin_runs tx us vs"
    "trace (fold (\<lambda>v d. snd (insertTxVin D tx v d)) vs (snd (insertTxVin D tx v d)))
      = trace (snd (insertTxVin D tx v d)) @ concat us" using Cons by blast
  then show ?case
    by (intro exI [of _ "(if went_on (insertTxVin_statement tx v) ''blocktx_vin'' d
      then [insertTxVin_statement tx v, update_statement tx v] else [insertTxVin_statement tx v]) # us"])
      (simp add: insertTxVin_trace vin_runs_def)
qed

lemma insertTx_trace:
  assumes "tx_dates D tx = Inr ds"
  shows "\<exists>us. vin_runs tx us (tx_vins tx) \<and> trace (snd (insertTx D tx d)) = trace d @ insertTx_statement ds tx #
    (if went_on (insertTx_statement ds tx) ''blocktransaction'' d
     then map (insertTxVout_statement tx) (tx_vouts tx) @ concat us else [])"
proof -
  define d' where "d' = snd (db_count_rows D ''blocktransaction'' (snd (db_execute D (insertTx_statement ds tx) d)))"
  define d2 where "d2 = fold (\<lambda>v d. snd (insertTxVout D tx v d)) (tx_vouts tx) d'"
  have d2: "trace d2 = trace d @ insertTx_statement ds tx # map (insertTxVout_statement tx) (tx_vouts tx)"
    by (simp add: d2_def vouts_trace) (simp add: d'_def trace_after)
  obtain us where us: "vin_runs tx us (tx_vins tx)"
    "trace (fold (\<lambda>v d. snd (insertTxVin D tx v d)) (tx_vins tx) d2) = trace d2 @ concat us"
    using vins_trace by blast
  have "trace (insert_details D tx d') = trace d @ insertTx_statement ds tx #
      map (insertTxVout_statement tx) (tx_vouts tx) @ concat us"
    unfolding insert_details_def d2_def [symmetric] us(2) d2 by simp
  then have "trace (snd (insertTx D tx d)) = trace d @ insertTx_statement ds tx #
    (if went_on (insertTx_statement ds tx) ''blocktransaction'' d
     then map (insertTxVout_statement tx) (tx_vouts tx) @ concat us else [])"
    by (simp add: insertTx_def assms insert_then d'_def del: bindD.simps)
  with us(1) show ?thesis by blast
qed

end

subsection \<open>Results\<close>

text \<open>The code an operation returns for its main statement and the count of its table.\<close>

fun exn_code :: "db_exn \<Rightarrow> int32" where
  "exn_code (BadQuery _) = 1"
| "exn_code (BadConversion _) = 2"
| "exn_code (OtherException _) = 3"

definition attempt :: "'d db_ops \<Rightarrow> statement \<Rightarrow> string \<Rightarrow> 'd \<Rightarrow> db_exn option" where
  "attempt D s t d = (case db_execute D s d of
     (Inl e, _) \<Rightarrow> Some e
   | (Inr _, d1) \<Rightarrow> (case fst (db_count_rows D t d1) of Inl e \<Rightarrow> Some e | Inr _ \<Rightarrow> None))"

definition code_of_attempt :: "db_exn option \<Rightarrow> int32" where
  "code_of_attempt r = (case r of None \<Rightarrow> 0 | Some e \<Rightarrow> exn_code e)"

lemma fst_catch: "fst (catch_db (Inl e, d)) = exn_code e"
  by (cases e) simp_all

lemma insert_result:
  "fst (catch_db (bindD (db_execute D s) (\<lambda>_. bindD (db_count_rows D t) (\<lambda>_ d. (Inr (), F d))) d)) =
     code_of_attempt (attempt D s t d)"
proof -
  obtain r1 d1 where 1: "db_execute D s d = (r1, d1)" by fastforce
  obtain r2 d2 where 2: "db_count_rows D t d1 = (r2, d2)" by fastforce
  show ?thesis
    by (cases r1; cases r2) (simp_all add: 1 2 attempt_def code_of_attempt_def fst_catch)
qed

lemma insert_results:
  "tx_dates D tx = Inr ds \<Longrightarrow>
    fst (insertTx D tx d) = Inr (code_of_attempt (attempt D (insertTx_statement ds tx) ''blocktransaction'' d))"
  "fst (insertTxVin D tx vi d) = code_of_attempt (attempt D (insertTxVin_statement tx vi) ''blocktx_vin'' d)"
  by (simp_all add: insertTx_def insertTxVin_def insert_result del: bindD.simps)

lemma insert_results_plain:
  "block_date D b = Inr time \<Longrightarrow>
    fst (insertBlock D b d) = Inr (code_of_attempt (attempt D (insertBlock_statement time b) ''block'' d))"
  "fst (insertTxVout D tx vo d) = code_of_attempt (attempt D (insertTxVout_statement tx vo) ''blocktx_vout'' d)"
  using insert_result [of D "insertBlock_statement time b" "''block''" "\<lambda>d. d" d]
    insert_result [of D "insertTxVout_statement tx vo" "''blocktx_vout''" "\<lambda>d. d" d]
  by (simp_all add: insertBlock_def insertTxVout_def)

text \<open>A date that cannot be written leaves the operation, and nothing is executed.\<close>

lemma insert_throws:
  "block_date D b = Inl e \<Longrightarrow> insertBlock D b d = (Inl e, d)"
  "tx_dates D tx = Inl e \<Longrightarrow> insertTx D tx d = (Inl e, d)"
  by (simp_all add: insertBlock_def insertTx_def)

lemma insert_returns:
  "block_date D b = Inr time \<Longrightarrow> \<exists>r d'. insertBlock D b d = (Inr r, d')"
  "tx_dates D tx = Inr ds \<Longrightarrow> \<exists>r d'. insertTx D tx d = (Inr r, d')"
  using insert_results_plain(1) [of D b time d] insert_results(1) [of D tx ds d]
  by (metis prod.collapse)+

text \<open>The times the library can write.\<close>

definition tx_datable :: "CFidTransaction \<Rightarrow> bool" where
  "tx_datable tx \<longleftrightarrow> datable (tx_time tx) \<and> datable (tx_locktime tx + 1)"

text \<open>The texts of the dates, where they can be written.\<close>

definition date_text :: "'d db_ops \<Rightarrow> int64 \<Rightarrow> string" where
  "date_text D t = (case db_date D t of Inr s \<Rightarrow> s | Inl _ \<Rightarrow> [])"

subsection \<open>A server on which everything succeeds\<close>

locale working_db = logged_db +
  assumes execute_ok: "fst (db_execute D s d) = Inr ()"
    and count_ok: "\<exists>n. fst (db_count_rows D t d) = Inr n"
    and date_ok: "datable tm \<Longrightarrow> \<exists>s. db_date D tm = Inr s"
begin

lemma date_written: "datable t \<Longrightarrow> db_date D t = Inr (date_text D t)"
  using date_ok [of t] by (auto simp: date_text_def)

lemma block_dated: "bk_time b = Some t \<Longrightarrow> datable t \<Longrightarrow> block_date D b = Inr (date_text D t)"
  by (simp add: block_date_def date_written)

lemma tx_dated:
  assumes "tx_datable tx"
  shows "tx_dates D tx = Inr (date_text D (tx_time tx), date_text D (tx_locktime tx + 1))"
proof -
  have "sint (tx_locktime tx) \<noteq> 2 ^ 63 - 1"
  proof
    assume "sint (tx_locktime tx) = 2 ^ 63 - 1"
    moreover have "tx_locktime tx = word_of_int (sint (tx_locktime tx))" by simp
    ultimately have "tx_locktime tx = word_of_int (2 ^ 63 - 1)" by (simp only:)
    then have "sint (tx_locktime tx + 1) = - (2 ^ 63)" by simp
    then show False using assms by (simp add: tx_datable_def datable_def)
  qed
  then show ?thesis using assms by (simp add: tx_dates_def tx_datable_def date_written)
qed

lemma goes_on [simp]: "went_on s t d"
  using execute_ok [of s d] count_ok [of t "snd (db_execute D s d)"]
  by (cases "db_execute D s d") (auto simp: went_on_def)

lemma attempts [simp]: "attempt D s t d = None"
  using execute_ok [of s d] count_ok [of t "snd (db_execute D s d)"]
  by (cases "db_execute D s d") (auto simp: attempt_def)

lemma insertBlock_ok: "block_date D b = Inr time \<Longrightarrow> fst (insertBlock D b d) = Inr 0"
  by (simp add: insert_results_plain code_of_attempt_def)

lemma vins_complete:
  "trace (fold (\<lambda>v d. snd (insertTxVin D tx v d)) vs d) =
     trace d @ concat (map (\<lambda>v. [insertTxVin_statement tx v, update_statement tx v]) vs)"
  by (induction vs arbitrary: d) (simp_all add: insertTxVin_trace)

lemma insertTx_complete:
  "tx_dates D tx = Inr ds \<Longrightarrow> trace (snd (insertTx D tx d)) = trace d @ insertTx_statement ds tx #
     map (insertTxVout_statement tx) (tx_vouts tx) @
     concat (map (\<lambda>v. [insertTxVin_statement tx v, update_statement tx v]) (tx_vins tx))"
  by (simp add: insertTx_def insert_then insert_details_def vins_complete vouts_trace trace_after
      del: bindD.simps)

lemma insertTx_ok: "tx_dates D tx = Inr ds \<Longrightarrow> fst (insertTx D tx d) = Inr 0"
  by (simp add: insert_results code_of_attempt_def)

end

subsection \<open>A server that only keeps the statements\<close>

text \<open>\<open>fails\<close> tells which statements the server rejects.\<close>

definition log_db :: "(statement \<Rightarrow> db_exn option) \<Rightarrow> statement list db_ops" where
  "log_db fails = \<lparr>db_set_option = (\<lambda>opt d. d), db_connect = (\<lambda>db server user passwd port d. (Inr True, d)),
     db_execute = (\<lambda>s d. (case fails s of None \<Rightarrow> Inr () | Some e \<Rightarrow> Inl e, d @ [s])),
     db_count_rows = (\<lambda>t d. (Inr (length d), d)), db_store = (\<lambda>q d. (Inr None, d)),
     db_to_int = (\<lambda>s. Inr (atoi s)), db_date = DateTimeStrFormat_default (ref_dates 28800)\<rparr>"

interpretation log: logged_db "log_db fails" "\<lambda>d. d"
  by unfold_locales (simp_all add: log_db_def)

interpretation ok_log: working_db "log_db (\<lambda>_. None)" "\<lambda>d. d"
  by unfold_locales (simp_all add: log_db_def ref_date.default_written)

lemma went_on_attempt: "logged_db D trace \<Longrightarrow> logged_db.went_on D s t d \<longleftrightarrow> attempt D s t d = None"
  by (auto simp: logged_db.went_on_def attempt_def split: prod.split sum.split)

subsection \<open>Properties\<close>


definition example_tx :: CFidTransaction where
  "example_tx = new_tx\<lparr>tx_txid := ''ab'', tx_vins := [new_vin\<lparr>vin_txid := ''cd''\<rparr>], tx_vouts := [new_vout, new_vout]\<rparr>"

lemma example_tx_dates: "tx_datable example_tx" "tx_datable (example_tx\<lparr>tx_time := - 1\<rparr>) = False"
  by (simp_all add: example_tx_def new_tx_def tx_datable_def datable_def)

lemma early_date: "tx_dates (log_db f) (example_tx\<lparr>tx_time := - 1\<rparr>) =
    Inl (OutOfRange ''Cannot convert dates prior to Jan 1, 1970'')"
  using dates_east(3) by (simp add: tx_dates_def log_db_def)


text \<open>
  C12: On a server where everything succeeds a transaction whose time and lock time are dates from 1970 to
  9999 is stored completely and in order: its own row with these dates, all its outputs, and every input with the update that gives it the value and the address of
  the output it spends; the result is 0.
\<close>

theorem insert_tx_complete:
  assumes "working_db D trace" and "datable (tx_time tx)" and "datable (tx_locktime tx + 1)"
  shows "\<exists>time locktime. db_date D (tx_time tx) = Inr time \<and> db_date D (tx_locktime tx + 1) = Inr locktime \<and>
    trace (snd (insertTx D tx d)) = trace d @ insertTx_statement (time, locktime) tx #
      map (insertTxVout_statement tx) (tx_vouts tx) @
      concat (map (\<lambda>v. [insertTxVin_statement tx v, update_statement tx v]) (tx_vins tx)) \<and>
    fst (insertTx D tx d) = Inr 0"
proof -
  have "tx_datable tx" using assms(2,3) by (simp add: tx_datable_def)
  from working_db.tx_dated [OF assms(1) this] show ?thesis
    using working_db.insertTx_complete [OF assms(1)] working_db.insertTx_ok [OF assms(1)]
      working_db.date_written [OF assms(1)] assms(2,3) by blast
qed

theorem insert_tx_complete_witness:
  "length (snd (insertTx (log_db (\<lambda>_. None)) example_tx [])) = 5"
proof -
  have "datable (tx_time example_tx)" "datable (tx_locktime example_tx + 1)"
    using example_tx_dates(1) by (simp_all add: tx_datable_def)
  from insert_tx_complete [OF ok_log.working_db_axioms this, of "[]"] show ?thesis
    by (auto simp: example_tx_def)
qed

text \<open>
  Inserting a block with a date that can be written executes exactly one statement, the row of the block, and no
  exception of MySQL++ gets out: the result is 1 for a bad query, 2 for a bad conversion, 3 for any other failure
  of the statement or of the count after it, and 0 otherwise.
\<close>

theorem insert_block_result:
  assumes "logged_db D trace" and "block_date D b = Inr time"
  shows "trace (snd (insertBlock D b d)) = trace d @ [insertBlock_statement time b] \<and>
    fst (insertBlock D b d) = Inr (case attempt D (insertBlock_statement time b) ''block'' d of
        None \<Rightarrow> 0
      | Some (BadQuery _) \<Rightarrow> 1 | Some (BadConversion _) \<Rightarrow> 2 | Some (OtherException _) \<Rightarrow> 3)"
  using logged_db.insertBlock_trace [OF assms]
  by (simp add: insert_results_plain(1) [OF assms(2)] code_of_attempt_def split: option.split db_exn.split)

theorem insert_block_result_witness:
  "fst (insertBlock (log_db (\<lambda>_. Some (BadConversion ''x''))) (new_block\<lparr>bk_time := Some 1\<rparr>) []) = Inr 2"
proof -
  have "block_date (log_db (\<lambda>_. Some (BadConversion ''x''))) (new_block\<lparr>bk_time := Some 1\<rparr>) = Inr ''1970-01-01 08:00:01''"
    using dates_east(1) by (simp add: block_date_def log_db_def)
  from insert_block_result [OF log.logged_db_axioms this, of "[]"] show ?thesis
    by (simp add: attempt_def log_db_def)
qed

end
