(* ===== verification/Singleton.thy ===== *)
theory Singleton
  imports MysqlDb
begin

section \<open>The single instance, called from several threads (mysqldb.cpp)\<close>

text \<open>
  \<open>CMysqlDb::getinitance\<close> statement by statement, for \<open>n\<close> threads that call it at the same
  time, each once, for any \<open>n\<close>: the test of \<open>m_p\<close>, the mutex, the second test, the allocation, the assignment and the return.
  Threads are numbered; a step is one access of one thread to the shared state, and accesses take
  effect in their order (the unlocked test of \<open>m_p\<close> has no ordering guarantee in C++98; this is the
  behaviour the code relies on).
\<close>

text \<open>Objects are numbered in the order they are made.\<close>

record shared =
  m_p :: "nat option"
  m_mutex :: "nat option"
  m_made :: nat

text \<open>\<open>Outside\<close> is a thread that does not call it.\<close>

datatype get_pc = Outside | Test | Lock | Test_again | New | Assign nat | Unlock | Return | Returned "nat option"

type_synonym get_config = "shared \<times> (nat \<Rightarrow> get_pc)"

text \<open>The next step of thread \<open>i\<close>, if it can make one.\<close>

definition getinitance_step :: "nat \<Rightarrow> get_config \<Rightarrow> get_config option" where
  "getinitance_step i c = (case c of (s, pc) \<Rightarrow>
     (case pc i of
        Outside \<Rightarrow> None
      | Test \<Rightarrow> Some (s, pc(i := if m_p s = None then Lock else Return))
      | Lock \<Rightarrow> if m_mutex s = None then Some (s\<lparr>m_mutex := Some i\<rparr>, pc(i := Test_again)) else None
      | Test_again \<Rightarrow> Some (s, pc(i := if m_p s = None then New else Unlock))
      | New \<Rightarrow> Some (s\<lparr>m_made := Suc (m_made s)\<rparr>, pc(i := Assign (m_made s)))
      | Assign k \<Rightarrow> Some (s\<lparr>m_p := Some k\<rparr>, pc(i := Unlock))
      | Unlock \<Rightarrow> Some (s\<lparr>m_mutex := None\<rparr>, pc(i := Return))
      | Return \<Rightarrow> Some (s, pc(i := Returned (m_p s)))
      | Returned r \<Rightarrow> None))"

inductive get_step :: "get_config \<Rightarrow> get_config \<Rightarrow> bool" where
  thread: "getinitance_step i c = Some c' \<Longrightarrow> get_step c c'"

definition get_start :: "nat \<Rightarrow> get_config" where
  "get_start n = (\<lparr>m_p = None, m_mutex = None, m_made = 0\<rparr>, \<lambda>i. if i < n then Test else Outside)"

subsection \<open>The invariant\<close>

text \<open>Inside the lock.\<close>

fun locked :: "get_pc \<Rightarrow> bool" where
  "locked Test_again = True"
| "locked New = True"
| "locked (Assign k) = True"
| "locked Unlock = True"
| "locked _ = False"

text \<open>What holds where a thread stands.\<close>

fun at_pc :: "shared \<Rightarrow> get_pc \<Rightarrow> bool" where
  "at_pc s New \<longleftrightarrow> m_p s = None \<and> m_made s = 0"
| "at_pc s (Assign k) \<longleftrightarrow> m_p s = None \<and> m_made s = 1 \<and> k = 0"
| "at_pc s Unlock \<longleftrightarrow> m_p s = Some 0"
| "at_pc s Return \<longleftrightarrow> m_p s = Some 0"
| "at_pc s (Returned r) \<longleftrightarrow> r = Some 0 \<and> m_p s = Some 0"
| "at_pc s _ \<longleftrightarrow> True"

definition single :: "get_config \<Rightarrow> bool" where
  "single c = (case c of (s, pc) \<Rightarrow>
     (m_p s = None \<and> m_made s = 0 \<or> m_p s = None \<and> m_made s = 1 \<and> (\<exists>i. pc i = Assign 0) \<or>
      m_p s = Some 0 \<and> m_made s = 1) \<and>
     (\<forall>i. locked (pc i) \<longleftrightarrow> m_mutex s = Some i) \<and> (\<forall>i. at_pc s (pc i)))"

lemma single_start: "single (get_start n)"
  by (simp add: single_def get_start_def)

lemma at_pc_updates [simp]:
  "at_pc (s\<lparr>m_mutex := x\<rparr>) p = at_pc s p"
  "\<not> locked p \<Longrightarrow> at_pc (s\<lparr>m_made := n\<rparr>) p = at_pc s p"
  "\<not> locked p \<Longrightarrow> at_pc s p \<Longrightarrow> at_pc (s\<lparr>m_p := Some 0\<rparr>) p"
  by (cases p; simp)+

text \<open>A step of thread \<open>i\<close> to \<open>p\<close>, checked against what the other threads are promised.\<close>

lemma single_move:
  assumes "single (s, pc)"
    and "m_p s' = None \<and> m_made s' = 0 \<or> m_p s' = None \<and> m_made s' = 1 \<and> (\<exists>j. (pc(i := p)) j = Assign 0) \<or>
      m_p s' = Some 0 \<and> m_made s' = 1"
    and "locked p \<longleftrightarrow> m_mutex s' = Some i"
    and "\<And>j. j \<noteq> i \<Longrightarrow> m_mutex s' = Some j \<longleftrightarrow> m_mutex s = Some j"
    and "at_pc s' p" and "\<And>j. j \<noteq> i \<Longrightarrow> at_pc s (pc j) \<Longrightarrow> at_pc s' (pc j)"
  shows "single (s', pc(i := p))"
  using assms by (auto simp: single_def)

lemma single_step:
  assumes "single (s, pc)" and "getinitance_step i (s, pc) = Some c'"
  shows "single c'"
proof -
  have lk: "locked (pc j) \<longleftrightarrow> m_mutex s = Some j" and at: "at_pc s (pc j)" for j
    using assms(1) by (simp_all add: single_def)
  have sh: "m_p s = None \<and> m_made s = 0 \<or> m_p s = None \<and> m_made s = 1 \<and> (\<exists>i. pc i = Assign 0) \<or>
      m_p s = Some 0 \<and> m_made s = 1" using assms(1) by (simp add: single_def)
  have keep: "m_p s = None \<and> m_made s = 0 \<or> m_p s = None \<and> m_made s = 1 \<and> (\<exists>j. (pc(i := p)) j = Assign 0) \<or>
      m_p s = Some 0 \<and> m_made s = 1" if "pc i \<noteq> Assign 0" for p
    using sh that by auto
  have alone: "\<not> locked (pc j)" if "m_mutex s = Some i" "j \<noteq> i" for j using lk [of j] that by simp
  have l: "locked (pc i) \<longleftrightarrow> m_mutex s = Some i" and a: "at_pc s (pc i)" by (rule lk, rule at)
  show ?thesis
  proof (cases "pc i")
    case Test
    then show ?thesis
      using assms l keep [of Lock] keep [of Return] sh
      by (auto simp: getinitance_step_def intro!: single_move)
  next
    case Lock
    then have "c' = (s\<lparr>m_mutex := Some i\<rparr>, pc(i := Test_again))" "m_mutex s = None"
      using assms(2) by (auto simp: getinitance_step_def split: if_splits)
    then show ?thesis
      using Lock keep [of Test_again] by (auto intro!: single_move [OF assms(1)])
  next
    case Test_again
    then have m: "m_mutex s = Some i" using l by simp
    have no: "pc j \<noteq> Assign 0" for j using alone [OF m, of j] Test_again by (cases "j = i") auto
    have "m_p s = None \<longrightarrow> m_made s = 0" using sh no by auto
    then show ?thesis
      using assms Test_again m keep [of New] keep [of Unlock] sh
      by (auto simp: getinitance_step_def intro!: single_move)
  next
    case New
    then have "c' = (s\<lparr>m_made := 1\<rparr>, pc(i := Assign 0))" "m_mutex s = Some i"
      using assms(2) l a by (simp_all add: getinitance_step_def)
    then show ?thesis
      using New a alone by (auto intro!: single_move [OF assms(1)] exI [of _ i])
  next
    case (Assign k)
    then have "c' = (s\<lparr>m_p := Some 0\<rparr>, pc(i := Unlock))" "m_mutex s = Some i"
      using assms(2) l a by (simp_all add: getinitance_step_def)
    then show ?thesis
      using Assign a alone by (auto intro!: single_move [OF assms(1)])
  next
    case Unlock
    then have "c' = (s\<lparr>m_mutex := None\<rparr>, pc(i := Return))" "m_mutex s = Some i"
      using assms(2) l by (simp_all add: getinitance_step_def)
    then show ?thesis
      using Unlock a keep [of Return] by (auto intro!: single_move [OF assms(1)])
  next
    case Return
    then show ?thesis
      using assms l a keep [of "Returned (m_p s)"] by (auto simp: getinitance_step_def intro!: single_move)
  next
    case (Returned r)
    then show ?thesis using assms(2) by (simp add: getinitance_step_def)
  next
    case Outside
    then show ?thesis using assms(2) by (simp add: getinitance_step_def)
  qed
qed

text \<open>
  How many steps a thread has still to make, at most. Only the threads below \<open>n\<close> make steps, and each
  step is one less for the thread that makes it.
\<close>

fun steps_left :: "get_pc \<Rightarrow> nat" where
  "steps_left Outside = 0"
| "steps_left Test = 7"
| "steps_left Lock = 6"
| "steps_left Test_again = 5"
| "steps_left New = 4"
| "steps_left (Assign k) = 3"
| "steps_left Unlock = 2"
| "steps_left Return = 1"
| "steps_left (Returned r) = 0"

definition callers :: "nat \<Rightarrow> (nat \<Rightarrow> get_pc) \<Rightarrow> bool" where
  "callers n pc \<longleftrightarrow> (\<forall>i. pc i = Outside \<longleftrightarrow> n \<le> i)"

definition all_left :: "nat \<Rightarrow> (nat \<Rightarrow> get_pc) \<Rightarrow> nat" where
  "all_left n pc = (\<Sum>i<n. steps_left (pc i))"

lemma step_moves:
  assumes "getinitance_step i (s, pc) = Some (s', pc')"
  shows "\<exists>p. pc' = pc(i := p) \<and> steps_left p < steps_left (pc i) \<and> p \<noteq> Outside \<and> pc i \<noteq> Outside"
  using assms by (cases "pc i") (auto simp: getinitance_step_def split: if_splits)

lemma step_counts:
  assumes "getinitance_step i (s, pc) = Some (s', pc')" and "callers n pc"
  shows "callers n pc' \<and> all_left n pc' < all_left n pc"
proof -
  obtain p where p: "pc' = pc(i := p)" "steps_left p < steps_left (pc i)" "p \<noteq> Outside" "pc i \<noteq> Outside"
    using step_moves [OF assms(1)] by blast
  then have i: "i < n" using assms(2) by (auto simp: callers_def not_le)
  have "all_left n pc' < all_left n pc"
    unfolding all_left_def p(1) by (rule sum_strict_mono_ex1) (use i p(2) in auto)
  then show ?thesis using assms(2) p i by (auto simp: callers_def)
qed

lemma single_reachable:
  "(get_step ^^ k) (get_start n) (s, pc) \<Longrightarrow> single (s, pc) \<and> callers n pc \<and> k + all_left n pc \<le> 7 * n"
proof (induction k arbitrary: s pc)
  case 0
  then show ?case
    using single_start [of n] by (auto simp: get_start_def callers_def all_left_def split: if_splits)
next
  case (Suc k)
  then obtain s1 pc1 where 1: "(get_step ^^ k) (get_start n) (s1, pc1)" "get_step (s1, pc1) (s, pc)" by auto
  then obtain i where "getinitance_step i (s1, pc1) = Some (s, pc)" by (auto simp: get_step.simps)
  then show ?case using Suc.IH [OF 1(1)] single_step step_counts by fastforce
qed

text \<open>A thread that waits for the lock waits for one that can go on.\<close>

lemma no_deadlock:
  assumes "single c" and "\<forall>r. snd c i \<noteq> Returned r" and "snd c i \<noteq> Outside"
  shows "\<exists>c'. get_step c c'"
proof -
  obtain s pc where c: "c = (s, pc)" by fastforce
  have step: "\<exists>c'. get_step c c'" if "getinitance_step j (s, pc) \<noteq> None" for j
    using that unfolding c by (auto simp: get_step.simps)
  show ?thesis
  proof (cases "pc i = Lock \<and> m_mutex s \<noteq> None")
    case True
    then obtain j where "m_mutex s = Some j" by auto
    then have "locked (pc j)" using assms(1) by (simp add: single_def c)
    then have "getinitance_step j (s, pc) \<noteq> None" by (cases "pc j") (auto simp: getinitance_step_def)
    then show ?thesis by (rule step)
  next
    case False
    then have "getinitance_step i (s, pc) \<noteq> None"
      using assms(2,3) by (cases "pc i") (auto simp: getinitance_step_def c)
    then show ?thesis by (rule step)
  qed
qed

subsection \<open>Properties\<close>

text \<open>
  C14: However \<open>n\<close> calls of \<open>getinitance\<close> interleave, at most one database object is ever made, and every
  call that has returned has returned this object and never a null pointer. No call blocks for ever:
  there are at most seven steps for each call, and a state where no thread can make a step is
  reached only when all \<open>n\<close> calls have returned, with the lock free again.
\<close>

theorem single_instance:
  assumes "(get_step ^^ k) (get_start n) (s, pc)"
  shows "m_made s \<le> 1 \<and> (\<forall>i r. pc i = Returned r \<longrightarrow> r = Some 0 \<and> m_p s = Some 0) \<and> k \<le> 7 * n \<and>
    ((\<nexists>c'. get_step (s, pc) c') \<longrightarrow> (\<forall>i<n. pc i = Returned (Some 0)) \<and> m_mutex s = None)"
proof -
  have inv: "single (s, pc)" "callers n pc" "k \<le> 7 * n" using single_reachable [OF assms] by auto
  have "at_pc s (pc i)" for i using inv(1) by (simp add: single_def)
  then have ret: "r = Some 0 \<and> m_p s = Some 0" if "pc i = Returned r" for i r using that by (metis at_pc.simps(5))
  have all: "\<exists>r. pc i = Returned r" if "\<nexists>c'. get_step (s, pc) c'" "i < n" for i
    using no_deadlock [OF inv(1), of i] that inv(2) by (auto simp: callers_def)
  have "m_mutex s = None" if "\<nexists>c'. get_step (s, pc) c'"
  proof (rule ccontr)
    assume "m_mutex s \<noteq> None"
    then obtain i where i: "locked (pc i)" using inv(1) by (auto simp: single_def)
    then have "pc i \<noteq> Outside" by auto
    then have "i < n" using inv(2) by (auto simp: callers_def not_le)
    then show False using all [OF that] i by fastforce
  qed
  moreover have "m_made s \<le> 1" using inv(1) by (auto simp: single_def)
  ultimately show ?thesis using ret all inv(3) by fastforce
qed

text \<open>Two threads: the second waits for the first and gets its object.\<close>

fun get_run :: "nat list \<Rightarrow> get_config \<Rightarrow> get_config option" where
  "get_run [] c = Some c"
| "get_run (i # is) c = Option.bind (getinitance_step i c) (get_run is)"

lemma get_run_steps: "get_run is c = Some c' \<Longrightarrow> (get_step ^^ length is) c c'"
proof (induction "is" arbitrary: c)
  case Nil
  then show ?case by simp
next
  case (Cons i "is")
  then obtain c1 where "getinitance_step i c = Some c1" "get_run is c1 = Some c'" by (auto split: Option.bind_splits)
  then show ?case using Cons.IH [of c1] relpowp_Suc_I2 [of get_step c c1 "length is" c'] get_step.intros by auto
qed

theorem single_instance_witness:
  "\<exists>s pc. get_run [0, 1, 0, 0, 0, 0, 0, 1, 1, 1, 0, 1] (get_start 2) = Some (s, pc) \<and>
    pc 0 = Returned (Some 0) \<and> pc 1 = Returned (Some 0) \<and> m_made s \<le> 1"
proof -
  define js :: "nat list" where "js = [0, 1, 0, 0, 0, 0, 0, 1, 1, 1, 0, 1]"
  have "\<exists>s pc. get_run js (get_start 2) = Some (s, pc) \<and> (\<exists>a b. pc 0 = Returned a \<and> pc 1 = Returned b)"
    by (simp add: js_def getinitance_step_def get_start_def)
  then obtain s pc a b where r: "get_run js (get_start 2) = Some (s, pc)" "pc 0 = Returned a" "pc 1 = Returned b"
    by blast
  have "m_made s \<le> 1" "a = Some 0" "b = Some 0"
    using single_instance [OF get_run_steps [OF r(1)]] r(2,3) by blast+
  then show ?thesis using r unfolding js_def by blast
qed

end
