(* ===== verification/World.thy ===== *)
theory World
  imports MysqlDb RpcRoundtrip
begin

section \<open>The state the parts share\<close>

text \<open>
  The globals of the process and what is outside it. An action may not return (\<open>None\<close>: a connection
  loop that never ends), may throw, and changes the world, also when it throws.
\<close>

text \<open>\<open>w_calls\<close> counts the RPC calls and \<open>w_ticks\<close> the readings of the clock so far; \<open>w_db\<close> is the state of
  the database server, \<open>w_mp\<close> the pointer \<open>CMysqlDb::m_p\<close>, \<open>w_sequence\<close> is
  \<open>CFidTaskSchedule::sequence\<close>.\<close>

record 'd world =
  w_args :: args
  w_mp :: "CMysqlDb option"
  w_db :: 'd
  w_calls :: nat
  w_ticks :: nat
  w_sequence :: int32

text \<open>The environment: MySQL++, the peer of each RPC call, and the clock at each reading.\<close>

record 'd env =
  e_db :: "'d db_ops"
  e_rpc :: "nat \<Rightarrow> rpc_env"
  e_clock :: "nat \<Rightarrow> int64"

type_synonym ('d, 'a) act = "'d world \<Rightarrow> ('a res \<times> 'd world) option"

definition retA :: "'a \<Rightarrow> ('d, 'a) act" where
  "retA x w = Some (Inr x, w)"

definition bindA :: "('d, 'a) act \<Rightarrow> ('a \<Rightarrow> ('d, 'b) act) \<Rightarrow> ('d, 'b) act" where
  "bindA m f w = (case m w of
     None \<Rightarrow> None
   | Some (Inl e, w) \<Rightarrow> Some (Inl e, w)
   | Some (Inr x, w) \<Rightarrow> f x w)"

definition liftR :: "'a res \<Rightarrow> ('d, 'a) act" where
  "liftR r w = Some (r, w)"

definition liftO :: "'a res option \<Rightarrow> ('d, 'a) act" where
  "liftO r w = map_option (\<lambda>r. (r, w)) r"

fun foldA :: "('x \<Rightarrow> 's \<Rightarrow> ('d, 's) act) \<Rightarrow> 'x list \<Rightarrow> 's \<Rightarrow> ('d, 's) act" where
  "foldA f [] s = retA s"
| "foldA f (x # xs) s = bindA (f x s) (foldA f xs)"

lemma bindA_ret [simp]: "bindA (retA x) f = f x"
  by (simp add: bindA_def retA_def fun_eq_iff)

lemma bindA_ret_right [simp]: "bindA m retA = m"
  by (auto simp: bindA_def retA_def fun_eq_iff split: option.split prod.split sum.split)

lemma bindA_assoc: "bindA (bindA m f) g = bindA m (\<lambda>x. bindA (f x) g)"
  by (auto simp: bindA_def fun_eq_iff split: option.split prod.split sum.split)

lemma bindA_liftR [simp]: "bindA (liftR r) f = (case r of Inl e \<Rightarrow> liftR (Inl e) | Inr x \<Rightarrow> f x)"
  by (auto simp: bindA_def liftR_def fun_eq_iff split: sum.split)

lemma bindA_Some: "m w = Some (Inr x, w') \<Longrightarrow> bindA m f w = f x w'"
  by (simp add: bindA_def)

lemma bindA_Inr_iff: "bindA m f w = Some (Inr y, w') \<longleftrightarrow>
    (\<exists>x w1. m w = Some (Inr x, w1) \<and> f x w1 = Some (Inr y, w'))"
  by (auto simp: bindA_def split: option.splits prod.splits sum.splits)

lemma foldA_Nil [simp]: "foldA f [] = retA"
  by (rule ext) simp

lemma foldA_append: "foldA f (xs @ ys) s = bindA (foldA f xs s) (foldA f ys)"
proof (induction xs arbitrary: s)
  case Nil
  then show ?case by simp
next
  case (Cons x xs)
  have "foldA f (xs @ ys) = (\<lambda>s. bindA (foldA f xs s) (foldA f ys))" by (rule ext) (rule Cons)
  then show ?case by (simp add: bindA_assoc)
qed

subsection \<open>Calls into the components\<close>

text \<open>The environment of the next RPC call.\<close>

definition next_rpc :: "'d env \<Rightarrow> 'd world \<Rightarrow> rpc_env" where
  "next_rpc E w = e_rpc E (w_calls w)"

definition call_rpc :: "'d env \<Rightarrow> string \<Rightarrow> jvalue list \<Rightarrow> ('d, jobject) act" where
  "call_rpc E strMethod params w =
     map_option (\<lambda>(r, m). (r, w\<lparr>w_args := m, w_calls := Suc (w_calls w)\<rparr>))
       (CallRPC (next_rpc E w) strMethod params (w_args w))"

definition convert_params :: "'d env \<Rightarrow> string \<Rightarrow> string list \<Rightarrow> ('d, jvalue list) act" where
  "convert_params E strMethod strParams w =
     liftO (RPCConvertValues (env_parse (next_rpc E w)) strMethod strParams) w"

definition split_words :: "'d env \<Rightarrow> string \<Rightarrow> ('d, string list) act" where
  "split_words E s w = retA (env_split (next_rpc E w) s) w"

definition read_clock :: "'d env \<Rightarrow> ('d, int64) act" where
  "read_clock E w = retA (GetTime 0 (e_clock E (w_ticks w))) (w\<lparr>w_ticks := Suc (w_ticks w)\<rparr>)"

text \<open>A method of the database object: \<open>getinitance\<close>, \<open>initDb\<close> in one of its forms, then the operation.\<close>

definition with_db :: "(CMysqlDb \<Rightarrow> 'd \<Rightarrow> int32 res \<times> CMysqlDb \<times> 'd) \<Rightarrow> ('d \<Rightarrow> int32 res \<times> 'd) \<Rightarrow> ('d, int32) act" where
  "with_db init oper w =
     (case init (getinitance (w_mp w)) (w_db w) of
        (Inl e, c, d) \<Rightarrow> Some (Inl e, w\<lparr>w_mp := Some c, w_db := d\<rparr>)
      | (Inr _, c, d) \<Rightarrow>
          (case oper d of (r, d) \<Rightarrow> Some (r, w\<lparr>w_mp := Some c, w_db := d\<rparr>)))"

end
