(* ===== verification/Handler.thy ===== *)
theory Handler
  imports World
begin

section \<open>The handler of a task (wrap.h, wrap.cpp)\<close>

text \<open>
  \<open>CFidRpcWrap\<close>, \<open>CFidDbWrap\<close> and \<open>CFidHandler\<close>: calls by name, replies turned into blocks and
  transactions, and their insertion. The class \<open>CFidTask\<close> of \<open>taskschedule.h\<close> is declared here because
  a handler holds one. What is only printed is left out.
\<close>

subsection \<open>Tasks\<close>

datatype TaskType = TASK_NULL | TASK_BLOCKGENSIS | TASK_BLOCKINFO | TASK_BLOCKHEIGHT | TASK_BLOCK
  | TASK_TRANSACTION | TASK_BLOCK_OR_TRANS | TASK_CALLRPC | TASK_CALLSQL | TASK_ALL

text \<open>\<open>t_bktime\<close> and \<open>t_result\<close> (a pointer nothing uses) are not initialised by the constructors.\<close>

record CFidTask =
  t_height :: int32
  t_bktime :: "int32 option"
  t_type :: TaskType
  t_command :: string
  t_sequence :: int32
  t_status :: int32
  t_message :: string
  t_result :: "nat option"
  t_cmd :: string
  t_params :: "jvalue list"
  t_reply :: jobject

definition new_task :: CFidTask where
  "new_task = \<lparr>t_height = - 1, t_bktime = None, t_type = TASK_NULL, t_command = '''', t_sequence = - 1,
     t_status = 0, t_message = '''', t_result = None, t_cmd = '''', t_params = [], t_reply = []\<rparr>"

definition new_task_for :: "TaskType \<Rightarrow> string \<Rightarrow> CFidTask" where
  "new_task_for ty command = new_task\<lparr>t_type := ty, t_command := command\<rparr>"

subsection \<open>Members of a JSON object\<close>

text \<open>\<open>getJsonObjValue\<close>, one definition per type of the target; only the string form keeps the old
  value.\<close>

definition getJson_array :: "jobject \<Rightarrow> string \<Rightarrow> jvalue list res" where
  "getJson_array obj key =
     (let v = find_value obj key in if type_of v = array_type then get_array v else Inr [])"

definition getJson_obj :: "jobject \<Rightarrow> string \<Rightarrow> jobject res" where
  "getJson_obj obj key =
     (let v = find_value obj key in if type_of v = obj_type then get_obj v else Inr [])"

definition getJson_string :: "jobject \<Rightarrow> string \<Rightarrow> string \<Rightarrow> string res" where
  "getJson_string obj key old =
     (let v = find_value obj key in
      if type_of v = array_type then write_string v True
      else if type_of v = str_type then get_str v
      else Inr old)"

definition getJson_bool :: "jobject \<Rightarrow> string \<Rightarrow> bool res" where
  "getJson_bool obj key =
     (let v = find_value obj key in if type_of v = bool_type then get_bool v else Inr False)"

definition getJson_int :: "jobject \<Rightarrow> string \<Rightarrow> int32 res" where
  "getJson_int obj key =
     (let v = find_value obj key in if type_of v = int_type then get_int v else Inr 0)"

definition getJson_double :: "jobject \<Rightarrow> string \<Rightarrow> double res" where
  "getJson_double obj key =
     (let v = find_value obj key in if type_of v = real_type then get_real v else Inr zero_double)"

definition getJson_fidint :: "jobject \<Rightarrow> string \<Rightarrow> uint64 res" where
  "getJson_fidint obj key =
     (let v = find_value obj key in if type_of v = int_type then get_uint64 v else Inr 0)"

definition getJson_fidtime :: "jobject \<Rightarrow> string \<Rightarrow> int64 res" where
  "getJson_fidtime obj key =
     (let v = find_value obj key in if type_of v = int_type then get_int64 v else Inr 0)"

subsection \<open>CFidRpcWrap\<close>

definition switchParams :: "'d env \<Rightarrow> CFidTask \<Rightarrow> string \<Rightarrow> ('d, CFidTask) act" where
  "switchParams E task command =
     bindA (split_words E command) (\<lambda>strCommand.
       if length strCommand < 1 then retA task
       else
         let task = task\<lparr>t_cmd := hd strCommand\<rparr> in
         bindA (convert_params E (hd strCommand) (tl strCommand)) (\<lambda>params.
           retA (task\<lparr>t_params := params\<rparr>)))"

text \<open>The exit code and the message for a reply.\<close>

definition reply_message :: "jobject \<Rightarrow> (int32 \<times> string) res" where
  "reply_message reply =
     (let result = find_value reply ''result''; error = find_value reply ''error'' in
      if type_of error \<noteq> null_type then
        bindR (write_string error False) (\<lambda>s.
        bindR (get_obj error) (\<lambda>eo.
        bindR (get_int (find_value eo ''code'')) (\<lambda>code.
        bindR (c_abs code) (\<lambda>nRet. Inr (nRet, ''error: '' @ s)))))
      else if type_of result = null_type then Inr (0, '''')
      else if type_of result = str_type then bindR (get_str result) (\<lambda>s. Inr (0, s))
      else if type_of result = int_type
        then bindR (get_int result) (\<lambda>i. bindR (strprintf ''%d'' [ArgInt i]) (\<lambda>s. Inr (0, s)))
      else bindR (write_string result True) (\<lambda>s. Inr (0, s)))"

definition callRPC :: "'d env \<Rightarrow> CFidTask \<Rightarrow> string \<Rightarrow> ('d, int32 \<times> string \<times> CFidTask) act" where
  "callRPC E task message =
     (if t_cmd task = '''' then retA (- 1, message, task)
      else bindA (call_rpc E (t_cmd task) (t_params task)) (\<lambda>reply.
        bindA (liftR (reply_message reply)) (\<lambda>(nRet, message).
          retA (nRet, message, task\<lparr>t_reply := reply\<rparr>))))"

subsection \<open>CFidDbWrap\<close>

definition db_insertTx :: "'d env \<Rightarrow> CFidTransaction \<Rightarrow> ('d, int32) act" where
  "db_insertTx E tx w = with_db (initDb (e_db E) (w_args w)) (insertTx (e_db E) tx) w"

definition db_insertBk :: "'d env \<Rightarrow> CFidBlock \<Rightarrow> ('d, int32) act" where
  "db_insertBk E b = with_db (initDb_with (e_db E) ''fidchain'' ''root'' '''' ''127.0.0.1'')
     (insertBlock (e_db E) b)"

subsection \<open>CFidHandler\<close>

record CFidHandler =
  h_task :: CFidTask
  h_height :: int64
  h_block :: CFidBlock
  h_vtx :: "CFidTransaction list"

definition new_handler :: "CFidTask \<Rightarrow> CFidHandler" where
  "new_handler task = \<lparr>h_task = task, h_height = - 1, h_block = new_block, h_vtx = []\<rparr>"

definition handler_reset :: "CFidHandler \<Rightarrow> CFidHandler" where
  "handler_reset h = h\<lparr>h_block := bk_clear (h_block h), h_vtx := []\<rparr>"

text \<open>\<open>getBkTime\<close> narrows the time to \<open>int\<close>.\<close>

definition getBkTime :: "CFidHandler \<Rightarrow> int32 option" where
  "getBkTime h = map_option scast (bk_time (h_block h))"

text \<open>A command as a task of its own, called.\<close>

definition call_command :: "'d env \<Rightarrow> string \<Rightarrow> ('d, int32 \<times> string \<times> CFidTask) act" where
  "call_command E cmd =
     (let ftask = new_task_for TASK_CALLRPC cmd in
      bindA (switchParams E ftask (t_command ftask)) (\<lambda>ftask. callRPC E ftask ''''))"

definition getBlockCount :: "'d env \<Rightarrow> CFidHandler \<Rightarrow> ('d, int64 \<times> CFidHandler) act" where
  "getBlockCount E h =
     bindA (call_command E ''getblockcount'') (\<lambda>(nRet, message, ftask).
       let height = atoi64 message in retA (height, h\<lparr>h_height := height\<rparr>))"

subsubsection \<open>Transactions\<close>

definition switch_spend :: "jobject \<Rightarrow> CFidTxVin \<Rightarrow> CFidTxVin res" where
  "switch_spend vinObj txvin =
     (let txvin = txvin\<lparr>vin_type := Some (CHR ''S'')\<rparr> in
      bindR (getJson_string vinObj ''txid'' (vin_txid txvin)) (\<lambda>txid.
      bindR (getJson_int vinObj ''vout'') (\<lambda>vout.
      bindR (getJson_obj vinObj ''scriptSig'') (\<lambda>script.
      bindR (getJson_string script ''hex'' (sig_hex (vin_scriptSig txvin))) (\<lambda>hex.
      bindR (getJson_string script ''asm'' (sig_sasm (vin_scriptSig txvin))) (\<lambda>sasm.
      Inr (txvin\<lparr>vin_txid := txid, vin_vout := Some vout,
        vin_scriptSig := \<lparr>sig_sasm = sasm, sig_hex = hex\<rparr>\<rparr>)))))))"

definition switch_vin :: "nat \<times> jvalue \<Rightarrow> CFidTxVin res" where
  "switch_vin iv =
     bindR (get_obj (snd iv)) (\<lambda>vinObj.
     bindR (getJson_fidint vinObj ''sequence'') (\<lambda>sequence.
       let txvin = new_vin\<lparr>vin_sequence := Some sequence\<rparr> in
       if fst iv = 0 then
         bindR (getJson_string vinObj ''coinbase'' (vin_txid txvin)) (\<lambda>txid.
           let txvin = txvin\<lparr>vin_txid := txid\<rparr> in
           if vin_txid txvin \<noteq> '''' then Inr (txvin\<lparr>vin_type := Some (CHR ''W'')\<rparr>)
           else switch_spend vinObj txvin)
       else switch_spend vinObj txvin))"

definition vout_type_of :: "nat \<Rightarrow> double \<Rightarrow> char" where
  "vout_type_of j v =
     (if j = 0 \<and> double_eq v zero_double then CHR ''W''
      else if j = 1 \<and> \<not> double_eq v zero_double then CHR ''S''
      else CHR ''T'')"

definition switch_vout :: "nat \<times> jvalue \<Rightarrow> CFidTxVout res" where
  "switch_vout jv =
     bindR (get_obj (snd jv)) (\<lambda>voutObj.
     bindR (getJson_double voutObj ''value'') (\<lambda>value.
     bindR (getJson_int voutObj ''n'') (\<lambda>n.
     bindR (getJson_obj voutObj ''scriptPubKey'') (\<lambda>script.
     bindR (getJson_string script ''asm'' '''') (\<lambda>sasm.
     bindR (getJson_int script ''reqSigs'') (\<lambda>reqSigs.
     bindR (getJson_string script ''type'' '''') (\<lambda>ty.
     bindR (getJson_array script ''addresses'') (\<lambda>address.
     bindR (if length address \<ge> 1 then get_str (address ! 0) else Inr '''') (\<lambda>addresses.
     Inr (new_vout\<lparr>vout_type := Some (vout_type_of (fst jv) value), vout_value := Some value,
       vout_n := Some n, vout_scriptPubKey := \<lparr>pk_sasm = sasm, pk_reqSigs = Some reqSigs,
         pk_type = ty, pk_addresses = addresses\<rparr>\<rparr>))))))))))"

text \<open>The members of the transaction itself, in the code's order.\<close>

definition switch_tx_members :: "jobject \<Rightarrow> CFidTransaction \<Rightarrow> CFidTransaction res" where
  "switch_tx_members obj tx =
     bindR (getJson_string obj ''txid'' (tx_txid tx)) (\<lambda>txid.
     bindR (getJson_int obj ''version'') (\<lambda>version.
     bindR (getJson_fidtime obj ''time'') (\<lambda>time.
     bindR (getJson_fidtime obj ''locktime'') (\<lambda>locktime.
     bindR (getJson_double obj ''amount'') (\<lambda>amount.
     bindR (getJson_string obj ''blockhash'' (tx_blockhash tx)) (\<lambda>blockhash.
     bindR (getJson_fidint obj ''confirmations'') (\<lambda>confirmations.
     bindR (getJson_fidtime obj ''timereceived'') (\<lambda>timereceived.
     bindR (getJson_string obj ''details'' (tx_details tx)) (\<lambda>details.
     bindR (getJson_string obj ''vin'' (tx_vin tx)) (\<lambda>vin.
     bindR (getJson_string obj ''vout'' (tx_vout tx)) (\<lambda>vout.
     Inr (tx\<lparr>tx_txid := txid, tx_version := version, tx_time := time, tx_locktime := locktime,
       tx_amount := amount, tx_blockhash := blockhash, tx_confirmations := confirmations,
       tx_timereceived := timereceived, tx_details := details, tx_vin := vin, tx_vout := vout\<rparr>))))))))))))"

text \<open>The type at the end. The line printed before it reads \<open>tx.vouts[0]\<close>, so without outputs the
  behaviour is undefined.\<close>

definition zero_value :: "CFidTxVout \<Rightarrow> bool" where
  "zero_value v = (case vout_value v of Some x \<Rightarrow> double_eq x zero_double | None \<Rightarrow> False)"

definition switch_tx_type :: "CFidTransaction \<Rightarrow> CFidTransaction res" where
  "switch_tx_type tx =
     (if tx_vouts tx = [] then Inl (Undefined ''vouts[0]'')
      else if length (tx_vins tx) > 0 \<and> vin_type (tx_vins tx ! 0) \<noteq> Some (CHR ''W'')
          \<and> length (tx_vouts tx) \<ge> 2 \<and> zero_value (tx_vouts tx ! 0)
        then Inr (tx\<lparr>tx_type := CHR ''S''\<rparr>)
      else if length (tx_vins tx) = 1 \<and> vin_type (tx_vins tx ! 0) = Some (CHR ''W'')
          \<and> length (tx_vouts tx) \<ge> 1
        then Inr (tx\<lparr>tx_type := CHR ''W''\<rparr>)
      else Inr (tx\<lparr>tx_type := CHR ''S''\<rparr>))"

definition switchTx :: "CFidTask \<Rightarrow> CFidTransaction \<Rightarrow> (int32 \<times> CFidTransaction) res" where
  "switchTx task tx =
     (let result = find_value (t_reply task) ''result'' in
      if type_of result \<noteq> obj_type then Inr (- 1, tx)
      else
        bindR (get_obj result) (\<lambda>obj.
        bindR (switch_tx_members obj tx) (\<lambda>tx.
        bindR (getJson_array obj ''vin'') (\<lambda>vinArray.
        bindR (getJson_array obj ''vout'') (\<lambda>voutArray.
        bindR (mapR switch_vin (enumerate 0 vinArray)) (\<lambda>vins.
        bindR (mapR switch_vout (enumerate 0 voutArray)) (\<lambda>vouts.
        bindR (switch_tx_type (tx\<lparr>tx_vins := tx_vins tx @ vins, tx_vouts := tx_vouts tx @ vouts\<rparr>)) (\<lambda>tx.
        Inr (0, tx)))))))))"

definition getTransaction :: "'d env \<Rightarrow> string \<Rightarrow> CFidHandler \<Rightarrow> ('d, int32 \<times> CFidHandler) act" where
  "getTransaction E txid h =
     bindA (liftR (strprintf ''%d'' [ArgString txid])) (\<lambda>s.
     bindA (call_command E (''gettransaction '' @ s)) (\<lambda>(nRet, message, ftask).
     bindA (liftR (switchTx ftask new_tx)) (\<lambda>(iRet, tx).
     retA (iRet, h\<lparr>h_vtx := h_vtx h @ [tx]\<rparr>))))"

subsubsection \<open>Blocks\<close>

text \<open>A member that is assigned only if the value is of the type.\<close>

definition str_or :: "jobject \<Rightarrow> string \<Rightarrow> string \<Rightarrow> string res" where
  "str_or obj key old =
     (let v = find_value obj key in if type_of v = str_type then get_str v else Inr old)"

definition real_or :: "jobject \<Rightarrow> string \<Rightarrow> double option \<Rightarrow> double option res" where
  "real_or obj key old =
     (let v = find_value obj key in
      if type_of v = real_type then bindR (get_real v) (\<lambda>x. Inr (Some x)) else Inr old)"

text \<open>The members that must be integers.\<close>

definition switch_bk_numbers :: "jobject \<Rightarrow> CFidBlock \<Rightarrow> CFidBlock res" where
  "switch_bk_numbers obj bk =
     bindR (get_uint64 (find_value obj ''confirmations'')) (\<lambda>confirmations.
     bindR (get_int (find_value obj ''size'')) (\<lambda>size.
     bindR (get_uint64 (find_value obj ''height'')) (\<lambda>height.
     bindR (get_int (find_value obj ''version'')) (\<lambda>version.
     bindR (get_int64 (find_value obj ''time'')) (\<lambda>time.
     bindR (get_int (find_value obj ''nonce'')) (\<lambda>nonce.
     bindR (get_int (find_value obj ''entropybit'')) (\<lambda>entropybit.
     Inr (bk\<lparr>bk_confirmations := Some confirmations, bk_size := Some size, bk_height := Some height,
       bk_version := Some version, bk_time := Some time, bk_nonce := Some nonce,
       bk_entropybit := Some entropybit\<rparr>))))))))"

text \<open>The proof hash is read if the flags are a string.\<close>

definition switch_bk_texts :: "jobject \<Rightarrow> CFidBlock \<Rightarrow> CFidBlock res" where
  "switch_bk_texts obj bk =
     bindR (str_or obj ''merkleroot'' (bk_merkleroot bk)) (\<lambda>merkleroot.
     bindR (real_or obj ''mint'' (bk_mint bk)) (\<lambda>mint.
     bindR (str_or obj ''bits'' (bk_bits bk)) (\<lambda>bits.
     bindR (real_or obj ''difficulty'' (bk_difficulty bk)) (\<lambda>difficulty.
     bindR (str_or obj ''blocktrust'' (bk_blocktrust bk)) (\<lambda>blocktrust.
     bindR (str_or obj ''chaintrust'' (bk_chaintrust bk)) (\<lambda>chaintrust.
     bindR (str_or obj ''previousblockhash'' (bk_previousblockhash bk)) (\<lambda>previousblockhash.
     bindR (str_or obj ''nextblockhash'' (bk_nextblockhash bk)) (\<lambda>nextblockhash.
     bindR (str_or obj ''flags'' (bk_flags bk)) (\<lambda>flags.
     bindR (if type_of (find_value obj ''flags'') = str_type
       then get_str (find_value obj ''proofhash'') else Inr (bk_proofhash bk)) (\<lambda>proofhash.
     bindR (str_or obj ''modifier'' (bk_modifier bk)) (\<lambda>modifier.
     Inr (bk\<lparr>bk_merkleroot := merkleroot, bk_mint := mint, bk_bits := bits, bk_difficulty := difficulty,
       bk_blocktrust := blocktrust, bk_chaintrust := chaintrust, bk_previousblockhash := previousblockhash,
       bk_nextblockhash := nextblockhash, bk_flags := flags, bk_proofhash := proofhash,
       bk_modifier := modifier\<rparr>))))))))))))"

definition switch_bk_tx :: "jobject \<Rightarrow> CFidBlock \<Rightarrow> (string list \<times> CFidBlock) res" where
  "switch_bk_tx obj bk =
     (let txarray = find_value obj ''tx'' in
      if type_of txarray = array_type then
        bindR (get_array txarray) (\<lambda>arr.
        bindR (write_string txarray True) (\<lambda>tx.
        bindR (mapR get_str arr) (\<lambda>vtx.
        Inr (vtx, bk\<lparr>bk_tx := tx, bk_vtx := vtx\<rparr>))))
      else Inr ([], bk))"

definition switchBk :: "CFidTask \<Rightarrow> CFidBlock \<Rightarrow> (string list \<times> CFidBlock) res" where
  "switchBk task bk =
     (let result = find_value (t_reply task) ''result'' in
      if type_of result \<noteq> obj_type then Inr ([], bk)
      else
        bindR (get_obj result) (\<lambda>obj.
        bindR (str_or obj ''hash'' (bk_hash bk)) (\<lambda>hash.
        bindR (switch_bk_numbers obj (bk\<lparr>bk_hash := hash\<rparr>)) (\<lambda>bk.
        bindR (switch_bk_texts obj bk) (\<lambda>bk.
        switch_bk_tx obj bk)))))"

definition getBlockByNumber :: "'d env \<Rightarrow> int32 \<Rightarrow> CFidHandler \<Rightarrow> ('d, string list \<times> CFidHandler) act" where
  "getBlockByNumber E height h =
     bindA (liftR (strprintf ''%d'' [ArgInt height])) (\<lambda>s.
     bindA (call_command E (''getblockbynumber '' @ s)) (\<lambda>(nRet, message, ftask).
     bindA (liftR (switchBk ftask (h_block h))) (\<lambda>(vtx, bk).
     retA (vtx, h\<lparr>h_block := bk\<rparr>))))"

subsubsection \<open>Insertion\<close>

definition insertDBBlock :: "'d env \<Rightarrow> CFidHandler \<Rightarrow> ('d, int32) act" where
  "insertDBBlock E h =
     (if bk_hash (h_block h) = '''' \<or> bk_checkValidy (h_block h) = 0 then retA (- 1)
      else db_insertBk E (h_block h))"

definition insert_one :: "'d env \<Rightarrow> CFidTransaction \<Rightarrow> int32 \<Rightarrow> ('d, int32) act" where
  "insert_one E tx iRet =
     (if tx_txid tx = '''' \<or> tx_checkValidy tx = 0 then retA iRet
      else bindA (db_insertTx E tx) (\<lambda>r. retA (or iRet r)))"

definition insertDBTrans :: "'d env \<Rightarrow> CFidHandler \<Rightarrow> ('d, int32) act" where
  "insertDBTrans E h = foldA (insert_one E) (h_vtx h) 0"

definition insertDBBlockTrans :: "'d env \<Rightarrow> CFidHandler \<Rightarrow> ('d, int32) act" where
  "insertDBBlockTrans E h =
     bindA (insertDBBlock E h) (\<lambda>_. bindA (insertDBTrans E h) (\<lambda>_. retA 0))"

end
