(* ===== verification/TaskSchedule.thy ===== *)
theory TaskSchedule
  imports Handler
begin

section \<open>Tasks and their schedule (taskschedule.h, taskschedule.cpp)\<close>

text \<open>
  \<open>CFidTask::call\<close> for every kind of task, the list of tasks of \<open>CFidTaskSchedule\<close>, and its thread:
  one round over the tasks, the time to sleep after it, and the endless loop as a step relation.
\<close>

subsection \<open>Calling a task\<close>

definition get_transactions :: "'d env \<Rightarrow> string list \<Rightarrow> CFidHandler \<Rightarrow> ('d, CFidHandler) act" where
  "get_transactions E vtx hand =
     foldA (\<lambda>txid hand. bindA (getTransaction E txid hand) (\<lambda>(_, hand). retA hand)) vtx hand"

text \<open>One turn of the loop from block 0 to the best height; the handler is cleared first.\<close>

definition gensis_block :: "'d env \<Rightarrow> int \<Rightarrow> CFidHandler \<Rightarrow> ('d, CFidHandler) act" where
  "gensis_block E i hand =
     bindA (getBlockByNumber E (word_of_int i) (handler_reset hand)) (\<lambda>(vtx, hand).
     bindA (insertDBBlock E hand) (\<lambda>_.
     bindA (get_transactions E vtx hand) (\<lambda>hand.
     bindA (insertDBTrans E hand) (\<lambda>_. retA hand))))"

text \<open>After the greatest \<open>int64_t\<close> the counter of the loop overflows.\<close>

definition call_gensis :: "'d env \<Rightarrow> CFidTask \<Rightarrow> ('d, int32 \<times> CFidTask) act" where
  "call_gensis E task =
     (let hand = new_handler task; height = atoi64 (t_command task) in
      bindA (if sint height \<le> 0 then getBlockCount E hand else retA (height, hand)) (\<lambda>(height, hand).
      bindA (foldA (gensis_block E) [0..sint height] hand) (\<lambda>_.
        if sint height = 2 ^ 63 - 1 then liftR (Inl (Undefined ''int overflow''))
        else retA (0, task\<lparr>t_height := scast height\<rparr>))))"

definition call_block :: "'d env \<Rightarrow> CFidTask \<Rightarrow> ('d, int32 \<times> CFidTask) act" where
  "call_block E task =
     (let height = atoi64 (t_command task) in
      bindA (getBlockByNumber E (if sint height > 0 then scast height else 0) (new_handler task)) (\<lambda>(_, hand).
      bindA (insertDBBlock E hand) (\<lambda>_. retA (0, task))))"

definition test_txid :: string where
  "test_txid = ''23db66e0fad7d37fde886bb7d319ab0831d54122bbde0bcc2739db69971b0af1''"

definition call_transaction :: "'d env \<Rightarrow> CFidTask \<Rightarrow> ('d, int32 \<times> CFidTask) act" where
  "call_transaction E task =
     bindA (getTransaction E test_txid (new_handler task)) (\<lambda>(_, hand).
     bindA (insertDBTrans E hand) (\<lambda>_. retA (0, task)))"

definition call_block_or_trans :: "'d env \<Rightarrow> CFidTask \<Rightarrow> ('d, int32 \<times> CFidTask) act" where
  "call_block_or_trans E task =
     (let height = (if t_height task \<noteq> - 1 then scast (t_height task) else atoi64 (t_command task)) in
      bindA (getBlockCount E (new_handler task)) (\<lambda>(bkheight, hand).
        if \<not> sint height \<le> 0 \<and> sint height > sint bkheight then retA (0, task\<lparr>t_status := 0\<rparr>)
        else
          let height = (if sint height \<le> 0 then bkheight else height); task = task\<lparr>t_height := scast height\<rparr> in
          bindA (getBlockByNumber E (scast height) hand) (\<lambda>(vtx, hand).
          bindA (get_transactions E vtx hand) (\<lambda>hand.
          bindA (insertDBBlockTrans E hand) (\<lambda>_.
          retA (0, task\<lparr>t_status := 1, t_bktime := getBkTime hand\<rparr>))))))"

fun task_call :: "'d env \<Rightarrow> CFidTask \<Rightarrow> ('d, int32 \<times> CFidTask) act" where
  "task_call E task =
     (case t_type task of
        TASK_BLOCKGENSIS \<Rightarrow> call_gensis E task
      | TASK_BLOCKINFO \<Rightarrow> retA (0, task)
      | TASK_BLOCKHEIGHT \<Rightarrow> retA (0, task)
      | TASK_BLOCK \<Rightarrow> call_block E task
      | TASK_TRANSACTION \<Rightarrow> call_transaction E task
      | TASK_BLOCK_OR_TRANS \<Rightarrow> call_block_or_trans E task
      | _ \<Rightarrow> retA (0, task))"

declare task_call.simps [simp del]

subsection \<open>The list of tasks\<close>

record CFidTaskSchedule =
  s_tasks :: "CFidTask list"
  s_onceRun :: int32

definition new_schedule :: "int32 \<Rightarrow> CFidTaskSchedule" where
  "new_schedule once = \<lparr>s_tasks = [], s_onceRun = once\<rparr>"

definition getSeq :: "('d, int32) act" where
  "getSeq w = (if sint (w_sequence w) = 2 ^ 31 - 1 then Some (Inl (Undefined ''int overflow''), w)
     else Some (Inr (w_sequence w), w\<lparr>w_sequence := w_sequence w + 1\<rparr>))"

definition registerTask :: "TaskType \<Rightarrow> string \<Rightarrow> CFidTaskSchedule \<Rightarrow> ('d, int32 \<times> CFidTaskSchedule) act" where
  "registerTask ty command s =
     bindA getSeq (\<lambda>seq.
       let task = (new_task_for ty command)\<lparr>t_sequence := seq\<rparr> in
       retA (t_sequence task, s\<lparr>s_tasks := s_tasks s @ [task]\<rparr>))"

text \<open>The task with the number, or else the last task that was looked at.\<close>

fun find_task :: "int32 \<Rightarrow> CFidTask list \<Rightarrow> CFidTask \<Rightarrow> CFidTask" where
  "find_task seq [] task = task"
| "find_task seq (t # ts) task = (if seq \<noteq> t_sequence t then find_task seq ts t else t)"

definition getTask :: "int32 \<Rightarrow> CFidTaskSchedule \<Rightarrow> CFidTask" where
  "getTask seq s = find_task seq (s_tasks s) new_task"

definition getTaskList :: "CFidTaskSchedule \<Rightarrow> CFidTask list" where
  "getTaskList s = s_tasks s"

subsection \<open>A round of the thread\<close>

text \<open>\<open>int\<close> arithmetic: undefined where the result does not fit.\<close>

definition int_arith :: "int \<Rightarrow> int res" where
  "int_arith i = (if - (2 ^ 31) \<le> i \<and> i < 2 ^ 31 then Inr i else Inl (Undefined ''int overflow''))"

definition succ_height :: "int32 \<Rightarrow> int32 res" where
  "succ_height h = bindR (int_arith (sint h + 1)) (\<lambda>i. Inr (word_of_int i))"

text \<open>
  What is written back to the task in the list, once the call on its copy is done: only the height.
  The locals \<open>bktimelast\<close> and \<open>bContinue\<close> go along. What is printed between the call and this is left out, like
  all that only goes to \<open>cout\<close>; \<open>ftask.bktime\<close> is among it, also when it is indeterminate.
\<close>

definition write_back :: "CFidTask \<Rightarrow> CFidTask \<Rightarrow> int32 option \<times> bool \<Rightarrow> (CFidTask \<times> int32 option \<times> bool) res" where
  "write_back t ftask loc =
     (if t_status ftask = 1 then
        bindR (succ_height (t_height ftask)) (\<lambda>h. Inr (t\<lparr>t_height := h\<rparr>, t_bktime ftask, False))
      else Inr (t\<lparr>t_height := t_height ftask\<rparr>, fst loc, True))"

definition work_task :: "'d env \<Rightarrow> CFidTask \<Rightarrow> int32 option \<times> bool \<Rightarrow> ('d, CFidTask \<times> int32 option \<times> bool) act" where
  "work_task E t loc = bindA (task_call E t) (\<lambda>(iRet, ftask). liftR (write_back t ftask loc))"

fun work_tasks :: "'d env \<Rightarrow> CFidTask list \<Rightarrow> int32 option \<times> bool \<Rightarrow> ('d, CFidTask list \<times> int32 option \<times> bool) act" where
  "work_tasks E [] loc = retA ([], loc)"
| "work_tasks E (t # ts) loc =
     bindA (work_task E t loc) (\<lambda>(t, loc).
     bindA (work_tasks E ts loc) (\<lambda>(ts, loc). retA (t # ts, loc)))"

definition adjusttime :: int32 where
  "adjusttime = 1000"

text \<open>\<open>diff\<close>, in milliseconds; a division by 5 of a value that is not negative.\<close>

definition sleep_diff :: "int32 \<Rightarrow> int32 \<Rightarrow> int64 \<Rightarrow> int64 \<Rightarrow> int32 res" where
  "sleep_diff bktimelast bktime t1 t2 =
     (if bktimelast \<noteq> 0 \<and> bktime \<noteq> 0 then
        bindR (int_arith (sint bktimelast - sint bktime)) (\<lambda>d.
          let bkdiff = (if d < 0 then 64 else d);
              diff = sint (word_of_int (bkdiff - sint (t2 - t1)) :: int32)
          in if diff < 0 \<or> diff > bkdiff then Inr adjusttime
             else bindR (int_arith ((bkdiff - diff) * 1000)) (\<lambda>x.
               bindR (int_arith (x * 4)) (\<lambda>y. Inr (word_of_int (y div 5)))))
      else Inr adjusttime)"

record work_locals =
  wl_bktime :: int32
  wl_t1 :: int64

datatype round_end = Left | Slept int32

text \<open>A branch on an indeterminate value is undefined.\<close>

definition determined :: "'a option \<Rightarrow> 'a res" where
  "determined v = (case v of Some x \<Rightarrow> Inr x | None \<Rightarrow> Inl (Undefined ''indeterminate value''))"

text \<open>What follows the loop over the tasks: the end of a schedule that runs once, or the time to sleep.\<close>

definition after_tasks :: "'d env \<Rightarrow> CFidTaskSchedule \<Rightarrow> work_locals \<Rightarrow> int32 option \<times> bool
    \<Rightarrow> ('d, round_end \<times> CFidTaskSchedule \<times> work_locals) act" where
  "after_tasks E s l loc =
     (if s_onceRun s \<noteq> 0 then retA (Left, s, l)
      else
        bindA (read_clock E) (\<lambda>t2.
        bindA (liftR (determined (fst loc))) (\<lambda>bktimelast.
        bindA (liftR (sleep_diff bktimelast (wl_bktime l) (wl_t1 l) t2)) (\<lambda>diff.
        bindA (if bktimelast \<noteq> 0
            then bindA (read_clock E) (\<lambda>t. retA (l\<lparr>wl_bktime := bktimelast, wl_t1 := t\<rparr>)) else retA l) (\<lambda>l.
        retA (Slept (if snd loc then adjusttime else diff), s, l))))))"

definition work_round :: "'d env \<Rightarrow> CFidTaskSchedule \<Rightarrow> work_locals
    \<Rightarrow> ('d, round_end \<times> CFidTaskSchedule \<times> work_locals) act" where
  "work_round E s l =
     bindA (work_tasks E (s_tasks s) (Some 0, False)) (\<lambda>(ts, loc). after_tasks E (s\<lparr>s_tasks := ts\<rparr>) l loc)"

definition work_start :: "'d env \<Rightarrow> ('d, work_locals) act" where
  "work_start E = bindA (read_clock E) (\<lambda>t1. retA \<lparr>wl_bktime = 0, wl_t1 = t1\<rparr>)"

text \<open>The loop: it goes round until \<open>onceRun\<close> ends it or an exception does.\<close>

partial_function (option) work_loop :: "'d env \<Rightarrow> CFidTaskSchedule \<Rightarrow> work_locals \<Rightarrow> 'd world
    \<Rightarrow> (CFidTaskSchedule res \<times> 'd world) option" where
  "work_loop E s l w =
     Option.bind (work_round E s l w) (\<lambda>(r, w). case r of
       Inl e \<Rightarrow> Some (Inl e, w)
     | Inr (Left, s, l) \<Rightarrow> Some (Inr s, w)
     | Inr (Slept ms, s, l) \<Rightarrow> work_loop E s l w)"

definition work :: "'d env \<Rightarrow> CFidTaskSchedule \<Rightarrow> ('d, CFidTaskSchedule) act" where
  "work E s = bindA (work_start E) (\<lambda>l. work_loop E s l)"

end
