(* ===== verification/Conversion.thy ===== *)
theory Conversion
  imports Handler
begin

section \<open>Blocks and transactions from their JSON objects\<close>

text \<open>
  The objects a node sends for a block and for a transaction, and what \<open>switchBk\<close> and \<open>switchTx\<close> make
  of them: the record the object was made from.
\<close>

subsection \<open>Blocks\<close>

definition block_object :: "CFidBlock \<Rightarrow> jobject" where
  "block_object b =
     [(''hash'', VStr (bk_hash b)),
      (''confirmations'', VInt (the (bk_confirmations b)) False),
      (''size'', VInt (scast (the (bk_size b))) False),
      (''height'', VInt (the (bk_height b)) False),
      (''version'', VInt (scast (the (bk_version b))) False),
      (''merkleroot'', VStr (bk_merkleroot b)),
      (''mint'', VReal (the (bk_mint b))),
      (''time'', VInt (the (bk_time b)) False),
      (''nonce'', VInt (scast (the (bk_nonce b))) False),
      (''bits'', VStr (bk_bits b)),
      (''difficulty'', VReal (the (bk_difficulty b))),
      (''blocktrust'', VStr (bk_blocktrust b)),
      (''chaintrust'', VStr (bk_chaintrust b)),
      (''previousblockhash'', VStr (bk_previousblockhash b))] @
     (if bk_nextblockhash b = '''' then [] else [(''nextblockhash'', VStr (bk_nextblockhash b))]) @
     [(''flags'', VStr (bk_flags b)),
      (''proofhash'', VStr (bk_proofhash b)),
      (''entropybit'', VInt (scast (the (bk_entropybit b))) False),
      (''modifier'', VStr (bk_modifier b)),
      (''tx'', VArr (map VStr (bk_vtx b)))]"

lemma block_object_members:
  "find_value (block_object b) ''hash'' = VStr (bk_hash b)"
  "find_value (block_object b) ''confirmations'' = VInt (the (bk_confirmations b)) False"
  "find_value (block_object b) ''size'' = VInt (scast (the (bk_size b))) False"
  "find_value (block_object b) ''height'' = VInt (the (bk_height b)) False"
  "find_value (block_object b) ''version'' = VInt (scast (the (bk_version b))) False"
  "find_value (block_object b) ''merkleroot'' = VStr (bk_merkleroot b)"
  "find_value (block_object b) ''mint'' = VReal (the (bk_mint b))"
  "find_value (block_object b) ''time'' = VInt (the (bk_time b)) False"
  "find_value (block_object b) ''nonce'' = VInt (scast (the (bk_nonce b))) False"
  "find_value (block_object b) ''bits'' = VStr (bk_bits b)"
  "find_value (block_object b) ''difficulty'' = VReal (the (bk_difficulty b))"
  "find_value (block_object b) ''blocktrust'' = VStr (bk_blocktrust b)"
  "find_value (block_object b) ''chaintrust'' = VStr (bk_chaintrust b)"
  "find_value (block_object b) ''previousblockhash'' = VStr (bk_previousblockhash b)"
  "find_value (block_object b) ''nextblockhash'' =
     (if bk_nextblockhash b = '''' then VNull else VStr (bk_nextblockhash b))"
  "find_value (block_object b) ''flags'' = VStr (bk_flags b)"
  "find_value (block_object b) ''proofhash'' = VStr (bk_proofhash b)"
  "find_value (block_object b) ''entropybit'' = VInt (scast (the (bk_entropybit b))) False"
  "find_value (block_object b) ''modifier'' = VStr (bk_modifier b)"
  "find_value (block_object b) ''tx'' = VArr (map VStr (bk_vtx b))"
  by (simp_all add: block_object_def)

lemma mapR_str: "mapR get_str (map VStr ss) = Inr ss"
  by (induction ss) (simp_all add: accessors_typed)

text \<open>What a handler makes of a block: its list of transactions is also kept as JSON text.\<close>

definition stored :: "CFidBlock \<Rightarrow> CFidBlock \<Rightarrow> CFidBlock" where
  "stored bk b = b\<lparr>bk_tx := json_text True 0 (VArr (map VStr (bk_vtx b))), bk_signature := bk_signature bk\<rparr>"

lemma determinate_some: "determinate b \<Longrightarrow> bk_confirmations b = Some (the (bk_confirmations b)) \<and>
    bk_size b = Some (the (bk_size b)) \<and> bk_height b = Some (the (bk_height b)) \<and>
    bk_version b = Some (the (bk_version b)) \<and> bk_mint b = Some (the (bk_mint b)) \<and>
    bk_time b = Some (the (bk_time b)) \<and> bk_nonce b = Some (the (bk_nonce b)) \<and>
    bk_difficulty b = Some (the (bk_difficulty b)) \<and> bk_entropybit b = Some (the (bk_entropybit b))"
  by (auto simp: determinate_def)

lemma switchBk_object:
  assumes "determinate b" and "bk_nextblockhash bk = ''''"
    and "find_value (t_reply task) ''result'' = VObj (block_object b)"
  shows "switchBk task bk = Inr (bk_vtx b, stored bk b)"
proof -
  have 1: "switch_bk_numbers (block_object b) bk' = Inr (bk'\<lparr>bk_confirmations := bk_confirmations b,
      bk_size := bk_size b, bk_height := bk_height b, bk_version := bk_version b, bk_time := bk_time b,
      bk_nonce := bk_nonce b, bk_entropybit := bk_entropybit b\<rparr>)" for bk'
    using determinate_some [OF assms(1)]
    by (simp add: switch_bk_numbers_def block_object_members accessors_typed)
  have 2: "switch_bk_texts (block_object b) bk' = Inr (bk'\<lparr>bk_merkleroot := bk_merkleroot b,
      bk_mint := bk_mint b, bk_bits := bk_bits b, bk_difficulty := bk_difficulty b,
      bk_blocktrust := bk_blocktrust b, bk_chaintrust := bk_chaintrust b,
      bk_previousblockhash := bk_previousblockhash b, bk_nextblockhash := bk_nextblockhash b,
      bk_flags := bk_flags b, bk_proofhash := bk_proofhash b, bk_modifier := bk_modifier b\<rparr>)"
    if "bk_nextblockhash bk' = ''''" for bk'
    using determinate_some [OF assms(1)] that
    by (simp add: switch_bk_texts_def str_or_def real_or_def block_object_members accessors_typed)
  show ?thesis
    unfolding switchBk_def assms(3)
    using assms(2)
    by (simp add: accessors_typed str_or_def block_object_members 1 2 switch_bk_tx_def
        write_string_json_text mapR_str stored_def Let_def)
qed
subsection \<open>Transactions\<close>

definition vin_object :: "CFidTxVin \<Rightarrow> jobject" where
  "vin_object v =
     (if vin_type v = Some (CHR ''W'')
      then [(''coinbase'', VStr (vin_txid v)), (''sequence'', VInt (the (vin_sequence v)) False)]
      else [(''txid'', VStr (vin_txid v)), (''vout'', VInt (scast (the (vin_vout v))) False),
        (''scriptSig'', VObj [(''asm'', VStr (sig_sasm (vin_scriptSig v))), (''hex'', VStr (sig_hex (vin_scriptSig v)))]),
        (''sequence'', VInt (the (vin_sequence v)) False)])"

definition vout_object :: "CFidTxVout \<Rightarrow> jobject" where
  "vout_object v =
     [(''value'', VReal (the (vout_value v))), (''n'', VInt (scast (the (vout_n v))) False),
      (''scriptPubKey'', VObj
        [(''asm'', VStr (pk_sasm (vout_scriptPubKey v))),
         (''reqSigs'', VInt (scast (the (pk_reqSigs (vout_scriptPubKey v)))) False),
         (''type'', VStr (pk_type (vout_scriptPubKey v))),
         (''addresses'', VArr [VStr (pk_addresses (vout_scriptPubKey v))])])]"

definition vin_array :: "CFidTransaction \<Rightarrow> jvalue" where
  "vin_array t = VArr (map (\<lambda>v. VObj (vin_object v)) (tx_vins t))"

definition vout_array :: "CFidTransaction \<Rightarrow> jvalue" where
  "vout_array t = VArr (map (\<lambda>v. VObj (vout_object v)) (tx_vouts t))"

definition tx_object :: "jvalue list \<Rightarrow> CFidTransaction \<Rightarrow> jobject" where
  "tx_object details t =
     [(''txid'', VStr (tx_txid t)), (''version'', VInt (scast (tx_version t)) False),
      (''time'', VInt (tx_time t) False), (''locktime'', VInt (tx_locktime t) False),
      (''vin'', vin_array t), (''vout'', vout_array t), (''amount'', VReal (tx_amount t)),
      (''confirmations'', VInt (tx_confirmations t) False), (''blockhash'', VStr (tx_blockhash t)),
      (''timereceived'', VInt (tx_timereceived t) False), (''details'', VArr details)]"

text \<open>
  Inputs and outputs as the handler keeps them: only the first input can be a coinbase, the value and
  the addresses of an input are not known, and an output is typed by its position and value.
\<close>

fun received_vin :: "nat \<times> CFidTxVin \<Rightarrow> bool" where
  "received_vin (i, v) \<longleftrightarrow> vin_sequence v \<noteq> None \<and> vin_value v = None \<and> vin_addresses v = '''' \<and>
     (i = 0 \<and> vin_type v = Some (CHR ''W'') \<and> vin_txid v \<noteq> '''' \<and> vin_vout v = None
        \<and> vin_scriptSig v = \<lparr>sig_sasm = '''', sig_hex = ''''\<rparr> \<or>
      vin_type v = Some (CHR ''S'') \<and> vin_vout v \<noteq> None)"

fun received_vout :: "nat \<times> CFidTxVout \<Rightarrow> bool" where
  "received_vout (j, v) \<longleftrightarrow> vout_value v \<noteq> None \<and> vout_n v \<noteq> None \<and>
     pk_reqSigs (vout_scriptPubKey v) \<noteq> None \<and> vout_type v = Some (vout_type_of j (the (vout_value v)))"

definition tx_kind :: "CFidTransaction \<Rightarrow> char" where
  "tx_kind t = (if map vin_type (tx_vins t) = [Some (CHR ''W'')] then CHR ''W'' else CHR ''S'')"

definition received :: "jvalue list \<Rightarrow> CFidTransaction \<Rightarrow> bool" where
  "received details t \<longleftrightarrow>
     (\<forall>iv \<in> set (enumerate 0 (tx_vins t)). received_vin iv) \<and>
     (\<forall>jv \<in> set (enumerate 0 (tx_vouts t)). received_vout jv) \<and> tx_vouts t \<noteq> [] \<and>
     tx_vin t = json_text True 0 (vin_array t) \<and> tx_vout t = json_text True 0 (vout_array t) \<and>
     tx_details t = json_text True 0 (VArr details) \<and> \<not> tx_generated t \<and> tx_blockindex t = - 1 \<and>
     tx_blocktime t = 0 \<and> tx_type t = tx_kind t"

lemma switch_vin_object:
  assumes "received_vin (i, v)"
  shows "switch_vin (i, VObj (vin_object v)) = Inr v"
proof -
  obtain sq where sq: "vin_sequence v = Some sq" using assms by auto
  show ?thesis
    using assms
    by (cases v)
      (auto simp: switch_vin_def vin_object_def accessors_typed getJson_fidint_def getJson_string_def
        switch_spend_def getJson_int_def getJson_obj_def Let_def new_vin_def)
qed

lemma switch_vout_object:
  assumes "received_vout (j, v)"
  shows "switch_vout (j, VObj (vout_object v)) = Inr v"
  using assms
  by (cases v; cases "vout_scriptPubKey v")
    (auto simp: switch_vout_def vout_object_def accessors_typed getJson_double_def getJson_string_def
      getJson_int_def getJson_obj_def getJson_array_def Let_def new_vout_def)

lemma mapR_enumerate:
  assumes "\<forall>iv \<in> set (enumerate n vs). f (fst iv, g (snd iv)) = Inr (snd iv)"
  shows "mapR f (enumerate n (map g vs)) = Inr vs"
  using assms by (induction vs arbitrary: n) simp_all

lemma switch_tx_type_kind:
  assumes "tx_vouts t \<noteq> []"
  shows "switch_tx_type t = Inr (t\<lparr>tx_type := tx_kind t\<rparr>)"
  using assms
  by (cases "tx_vins t"; cases "tl (tx_vins t)") (auto simp: switch_tx_type_def tx_kind_def Suc_le_eq)

lemma tx_object_members:
  "find_value (tx_object ds t) ''vin'' = vin_array t" "find_value (tx_object ds t) ''vout'' = vout_array t"
  by (simp_all add: tx_object_def)

lemma switch_tx_members_object:
  "switch_tx_members (tx_object ds t) tx = Inr (tx\<lparr>tx_txid := tx_txid t, tx_version := tx_version t,
     tx_time := tx_time t, tx_locktime := tx_locktime t, tx_amount := tx_amount t,
     tx_blockhash := tx_blockhash t, tx_confirmations := tx_confirmations t,
     tx_timereceived := tx_timereceived t, tx_details := json_text True 0 (VArr ds),
     tx_vin := json_text True 0 (vin_array t), tx_vout := json_text True 0 (vout_array t)\<rparr>)"
  by (simp add: switch_tx_members_def tx_object_def vin_array_def vout_array_def getJson_string_def
      getJson_int_def getJson_fidtime_def getJson_double_def getJson_fidint_def accessors_typed
      write_string_json_text)

lemma switchTx_object:
  assumes "received ds t" and "find_value (t_reply task) ''result'' = VObj (tx_object ds t)"
  shows "switchTx task new_tx = Inr (0, t)"
proof -
  have i: "\<forall>iv \<in> set (enumerate 0 (tx_vins t)). switch_vin (fst iv, VObj (vin_object (snd iv))) = Inr (snd iv)"
  proof
    fix iv assume iv: "iv \<in> set (enumerate 0 (tx_vins t))"
    then have "received_vin (fst iv, snd iv)" using assms(1) by (simp add: received_def)
    then show "switch_vin (fst iv, VObj (vin_object (snd iv))) = Inr (snd iv)" by (rule switch_vin_object)
  qed
  have j: "\<forall>jv \<in> set (enumerate 0 (tx_vouts t)). switch_vout (fst jv, VObj (vout_object (snd jv))) = Inr (snd jv)"
  proof
    fix jv assume jv: "jv \<in> set (enumerate 0 (tx_vouts t))"
    then have "received_vout (fst jv, snd jv)" using assms(1) by (simp add: received_def)
    then show "switch_vout (fst jv, VObj (vout_object (snd jv))) = Inr (snd jv)" by (rule switch_vout_object)
  qed
  have arr: "getJson_array (tx_object ds t) ''vin'' = Inr (map (\<lambda>v. VObj (vin_object v)) (tx_vins t))"
    "getJson_array (tx_object ds t) ''vout'' = Inr (map (\<lambda>v. VObj (vout_object v)) (tx_vouts t))"
    by (simp_all add: getJson_array_def tx_object_members vin_array_def vout_array_def accessors_typed)
  have ne: "tx_vouts t \<noteq> []" using assms(1) by (simp add: received_def)
  have "new_tx\<lparr>tx_txid := tx_txid t, tx_version := tx_version t,
     tx_time := tx_time t, tx_locktime := tx_locktime t, tx_amount := tx_amount t,
     tx_blockhash := tx_blockhash t, tx_confirmations := tx_confirmations t,
     tx_timereceived := tx_timereceived t, tx_details := json_text True 0 (VArr ds),
     tx_vin := json_text True 0 (vin_array t), tx_vout := json_text True 0 (vout_array t),
     tx_vins := tx_vins t, tx_vouts := tx_vouts t, tx_type := tx_kind t\<rparr> = t"
    using assms(1) by (cases t) (auto simp: received_def new_tx_def)
  then show ?thesis
    unfolding switchTx_def assms(2)
    using ne by (simp add: accessors_typed switch_tx_members_object arr mapR_enumerate [OF i]
        mapR_enumerate [OF j] switch_tx_type_kind tx_kind_def new_tx_def Let_def)
qed

text \<open>What comes out of \<open>switchTx\<close>, whatever the reply was.\<close>

lemma switch_spend_type: "switch_spend ob v = Inr v' \<Longrightarrow> vin_type v' = Some (CHR ''S'')"
  by (auto simp: switch_spend_def res_simps Let_def)

lemma switch_vin_type:
  assumes "switch_vin (i, jv) = Inr v"
  shows "vin_type v = Some (CHR ''S'') \<or> i = 0 \<and> vin_type v = Some (CHR ''W'') \<and> vin_txid v \<noteq> ''''"
  using assms by (auto simp: switch_vin_def res_simps Let_def dest: switch_spend_type split: if_splits)

lemma switch_vout_type:
  "switch_vout (j, jv) = Inr v \<Longrightarrow> \<exists>x. vout_value v = Some x \<and> vout_type v = Some (vout_type_of j x)"
  by (auto simp: switch_vout_def res_simps)

lemma switchTx_shape:
  assumes "switchTx task new_tx = Inr (0, t)"
  shows "tx_vouts t \<noteq> [] \<and> tx_type t = tx_kind t \<and>
    (\<forall>i < length (tx_vins t). vin_type (tx_vins t ! i) = Some (CHR ''S'') \<or>
       i = 0 \<and> vin_type (tx_vins t ! i) = Some (CHR ''W'') \<and> vin_txid (tx_vins t ! i) \<noteq> '''') \<and>
    (\<forall>j < length (tx_vouts t). \<exists>x. vout_value (tx_vouts t ! j) = Some x \<and>
       vout_type (tx_vouts t ! j) = Some (vout_type_of j x))"
proof -
  obtain ob tx1 va vo vins vouts where t1: "switch_tx_members ob new_tx = Inr tx1"
    and vi: "mapR switch_vin (enumerate 0 va) = Inr vins"
    and vo: "mapR switch_vout (enumerate 0 vo) = Inr vouts"
    and ty: "switch_tx_type (tx1\<lparr>tx_vins := tx_vins tx1 @ vins, tx_vouts := tx_vouts tx1 @ vouts\<rparr>) = Inr t"
    using assms by (auto simp: switchTx_def res_simps Let_def split: if_splits)
  have e: "tx_vins tx1 = []" "tx_vouts tx1 = []"
    using t1 by (auto simp: switch_tx_members_def res_simps new_tx_def)
  have ne: "vouts \<noteq> []" using ty e by (auto simp: switch_tx_type_def)
  then have t: "t = tx1\<lparr>tx_vins := vins, tx_vouts := vouts, tx_type := tx_kind (tx1\<lparr>tx_vins := vins, tx_vouts := vouts\<rparr>)\<rparr>"
    using ty switch_tx_type_kind [of "tx1\<lparr>tx_vins := vins, tx_vouts := vouts\<rparr>"] by (simp add: e)
  have "switch_vin (i, va ! i) = Inr (vins ! i)" if "i < length vins" for i
    using vi that by (auto simp: mapR_Inr_iff list_all2_conv_all_nth nth_enumerate_eq)
  moreover have "switch_vout (j, vo ! j) = Inr (vouts ! j)" if "j < length vouts" for j
    using vo that by (auto simp: mapR_Inr_iff list_all2_conv_all_nth nth_enumerate_eq)
  ultimately show ?thesis
    unfolding t using ne switch_vin_type switch_vout_type by (fastforce simp: tx_kind_def)
qed

subsection \<open>Properties\<close>

text \<open>
  C19: A block survives the node's JSON: from the object made of a block, with every number present,
  \<open>switchBk\<close> fills in exactly that block, on top of any block without a next block hash, returns its
  transaction ids in order, and keeps them as JSON text too.
\<close>

theorem block_object_read:
  assumes "determinate b" and "bk_nextblockhash bk = ''''"
    and "find_value (t_reply task) ''result'' = VObj (block_object b)"
  shows "switchBk task bk = Inr (bk_vtx b,
    b\<lparr>bk_tx := json_text True 0 (VArr (map VStr (bk_vtx b))), bk_signature := bk_signature bk\<rparr>)"
  using switchBk_object [OF assms] by (simp add: stored_def)

definition example_block :: CFidBlock where
  "example_block = (bk_clear new_block)\<lparr>bk_hash := ''00ff'', bk_height := Some 7, bk_time := Some 1499935269,
     bk_flags := ''proof-of-work'', bk_vtx := [''ab'']\<rparr>"

theorem block_object_read_witness:
  "\<exists>bk. switchBk (new_task\<lparr>t_reply := [(''result'', VObj (block_object example_block))]\<rparr>) new_block
     = Inr ([''ab''], bk) \<and> bk_height bk = Some 7"
proof -
  have "determinate example_block" by (simp add: determinate_def example_block_def bk_clear_def)
  then show ?thesis
    using block_object_read [of example_block new_block
        "new_task\<lparr>t_reply := [(''result'', VObj (block_object example_block))]\<rparr>"]
    by (simp add: new_block_def example_block_def)
qed

text \<open>
  C10: A transaction survives the node's JSON: from the object made of a transaction, \<open>switchTx\<close> builds
  exactly that transaction with all inputs and outputs in order and returns 0.
\<close>

theorem tx_object_read:
  assumes "received ds t" and "find_value (t_reply task) ''result'' = VObj (tx_object ds t)"
  shows "switchTx task new_tx = Inr (0, t)"
  using assms by (rule switchTx_object)

definition received_tx :: "CFidTxVin list \<Rightarrow> CFidTxVout list \<Rightarrow> CFidTransaction" where
  "received_tx vins vouts =
     (let t = new_tx\<lparr>tx_txid := ''ab'', tx_vins := vins, tx_vouts := vouts\<rparr> in
      t\<lparr>tx_vin := json_text True 0 (vin_array t), tx_vout := json_text True 0 (vout_array t),
        tx_details := json_text True 0 (VArr []), tx_type := tx_kind t\<rparr>)"

definition coinbase_vin :: CFidTxVin where
  "coinbase_vin = new_vin\<lparr>vin_type := Some (CHR ''W''), vin_txid := ''03ff'', vin_sequence := Some 4294967295\<rparr>"

definition plain_vout :: CFidTxVout where
  "plain_vout = new_vout\<lparr>vout_type := Some (CHR ''T''), vout_value := Some (DFin False 1 0), vout_n := Some 0,
     vout_scriptPubKey := \<lparr>pk_sasm = ''OP_DUP'', pk_reqSigs = Some 1, pk_type = ''pubkeyhash'', pk_addresses = ''F1''\<rparr>\<rparr>"

lemma received_example: "received [] (received_tx [coinbase_vin] [plain_vout])"
  by (simp add: received_def received_tx_def Let_def vin_array_def vout_array_def tx_kind_def coinbase_vin_def
      plain_vout_def new_vin_def new_vout_def vout_type_of_def zero_double_def new_tx_def del: json_text.simps)

theorem tx_object_read_witness:
  "switchTx (new_task\<lparr>t_reply := [(''result'', VObj (tx_object [] (received_tx [coinbase_vin] [plain_vout])))]\<rparr>) new_tx
     = Inr (0, received_tx [coinbase_vin] [plain_vout])"
  by (rule tx_object_read [OF received_example]) simp

text \<open>
  C21: Whatever the node replies, a transaction that \<open>switchTx\<close> accepts is typed consistently: it has
  an output; it is of type W exactly if its only input is a coinbase, and of type S otherwise; only
  the first input can be a coinbase, and then it has a text; every output has a value, and its type
  follows from its position and value.
\<close>

theorem tx_types:
  assumes "switchTx task new_tx = Inr (0, t)"
  shows "tx_vouts t \<noteq> [] \<and>
    tx_type t = (if map vin_type (tx_vins t) = [Some (CHR ''W'')] then CHR ''W'' else CHR ''S'') \<and>
    (\<forall>i < length (tx_vins t). vin_type (tx_vins t ! i) = Some (CHR ''S'') \<or>
       i = 0 \<and> vin_type (tx_vins t ! i) = Some (CHR ''W'') \<and> vin_txid (tx_vins t ! i) \<noteq> '''') \<and>
    (\<forall>j < length (tx_vouts t). \<exists>x. vout_value (tx_vouts t ! j) = Some x \<and>
       vout_type (tx_vouts t ! j) = Some (vout_type_of j x))"
  using switchTx_shape [OF assms] unfolding tx_kind_def .

theorem tx_types_witness: "tx_type (received_tx [coinbase_vin] [plain_vout]) = CHR ''W''"
proof -
  let ?t = "received_tx [coinbase_vin] [plain_vout]"
  have "switchTx (new_task\<lparr>t_reply := [(''result'', VObj (tx_object [] ?t))]\<rparr>) new_tx = Inr (0, ?t)"
    by (rule switchTx_object [OF received_example]) simp
  from tx_types [OF this] show ?thesis by (simp add: received_tx_def Let_def coinbase_vin_def)
qed

end
