(* ===== verification/Node.thy ===== *)
theory Node
  imports TaskSchedule Conversion
begin

section \<open>The program and its node\<close>

text \<open>
  The node the program asks, as an interface: at call \<open>k\<close> its chain has the blocks 0 to \<open>best k\<close>. It
  can be connected to, and to the request of the program it sends back the reply with a count, the
  object of a block of the chain, or the object of a transaction of such a block. Inside the locale
  every operation of the handler and of the tasks has its result.
\<close>

definition answer :: "jvalue \<Rightarrow> jobject" where
  "answer result = JSONRPCReplyObj result VNull (VInt 1 False)"

lemma answer_members [simp]:
  "find_value (answer v) ''result'' = v" "find_value (answer v) ''error'' = VNull"
  by (simp_all add: answer_def JSONRPCReplyObj_def obj_add_def)

text \<open>
  The bytes a peer sends for a request as \<open>CallRPC\<close> posts it: a reply with a result and an error, both of
  which JSON carries unchanged. A node answers with status 200 and no error.
\<close>

definition replies :: "(double \<Rightarrow> double) \<Rightarrow> args \<Rightarrow> rpc_env \<Rightarrow> string \<Rightarrow> jvalue list \<Rightarrow> int32 \<Rightarrow> jvalue \<Rightarrow> jvalue \<Rightarrow> bool" where
  "replies rd m R strMethod params nStatus result error \<longleftrightarrow>
     writable result \<and> reread rd result = result \<and> writable error \<and> reread rd error = error \<and>
     nStatus \<in> {HTTP_OK, HTTP_BAD_REQUEST, HTTP_NOT_FOUND, HTTP_INTERNAL_SERVER_ERROR} \<and>
     (\<exists>post date body keepalive. request_post (fst (request_headers m)) strMethod params = Inr post \<and>
        CHR 0x0A \<notin> set date \<and> JSONRPCReply result error (VInt 1 False) = Inr body \<and> int (length body) \<le> MAX_SIZE \<and>
        HTTPReply date nStatus body keepalive = Inr (env_serve R post))"

definition serves :: "(double \<Rightarrow> double) \<Rightarrow> args \<Rightarrow> rpc_env \<Rightarrow> string \<Rightarrow> jvalue list \<Rightarrow> jvalue \<Rightarrow> bool" where
  "serves rd m R strMethod params v \<longleftrightarrow> replies rd m R strMethod params HTTP_OK v VNull"

lemma replies_call:
  assumes "boost_strings (env_split R) (env_trim R) (env_lower R)"
    and "json_prims (env_parse R) real_p int_p uint_p string_p rd"
    and "GetArg m ''-rpcuser'' '''' \<noteq> ''''"
    and "connect_loop R m (GetBoolArg m ''-rpcwait'' False) 0 = Some (Inr ())"
    and "replies rd m R strMethod params nStatus result error"
  shows "CallRPC R strMethod params m =
    Some (Inr (JSONRPCReplyObj result error (VInt 1 False)), snd (request_headers m))"
proof -
  obtain post date body keepalive where p: "request_post (fst (request_headers m)) strMethod params = Inr post"
    "CHR 0x0A \<notin> set date" "JSONRPCReply result error (VInt 1 False) = Inr body" "int (length body) \<le> MAX_SIZE"
    "HTTPReply date nStatus body keepalive = Inr (env_serve R post)" "writable result" "writable error"
    "nStatus \<in> {HTTP_OK, HTTP_BAD_REQUEST, HTTP_NOT_FOUND, HTTP_INTERNAL_SERVER_ERROR}"
    and r: "reread rd result = result" "reread rd error = error"
    using assms(5) unfolding replies_def by blast
  have "receive_reply R (env_serve R post) = Some (Inr (JSONRPCReplyObj (reread rd result) (reread rd error)
      (reread rd (VInt 1 False))))"
    by (rule reply_received [OF assms(1,2) p(6,7) _ p(2,8,3,4,5)]) simp
  then show ?thesis using CallRPC_sent [OF assms(3,4) p(1)] r by simp
qed

text \<open>Credentials that are set are read without adding an entry.\<close>

lemma request_headers_keep:
  assumes "map_find m ''-rpcuser'' = Some u" and "map_find m ''-rpcpassword'' = Some p"
  shows "snd (request_headers m) = m"
  using assms by (simp add: request_headers_def map_index_def)

text \<open>The statements that store a transaction and a block completely.\<close>

definition rows_of_tx :: "'d db_ops \<Rightarrow> CFidTransaction \<Rightarrow> statement list" where
  "rows_of_tx D tx =
     insertTx_statement (date_text D (tx_time tx), date_text D (tx_locktime tx + 1)) tx # map (insertTxVout_statement tx) (tx_vouts tx) @
     concat (map (\<lambda>v. [insertTxVin_statement tx v, update_statement tx v]) (tx_vins tx))"

definition row_of_block :: "'d db_ops \<Rightarrow> CFidBlock \<Rightarrow> statement" where
  "row_of_block D b = insertBlock_statement (date_text D (the (bk_time b))) b"

definition rows_of_block :: "'d db_ops \<Rightarrow> (int \<Rightarrow> CFidBlock) \<Rightarrow> (string \<Rightarrow> CFidTransaction) \<Rightarrow> int \<Rightarrow> statement list"
  where
  "rows_of_block D chain txs n =
     row_of_block D (chain n) # concat (map (rows_of_tx D \<circ> txs) (bk_vtx (chain n)))"

text \<open>A peer that can be connected to, and understands and is understood.\<close>

locale peer =
  fixes E :: "'d env" and args0 :: args and rd :: "double \<Rightarrow> double"
  assumes strings: "boost_strings (env_split (e_rpc E k)) (env_trim (e_rpc E k)) (env_lower (e_rpc E k))"
    and json: "\<exists>real_p int_p uint_p string_p. json_prims (env_parse (e_rpc E k)) real_p int_p uint_p string_p rd"
    and credentials: "\<exists>u p. map_find args0 ''-rpcuser'' = Some u \<and> u \<noteq> '''' \<and> map_find args0 ''-rpcpassword'' = Some p"
    and connects: "connect (e_rpc E k) (GetArg args0 ''-rpcconnect'' ''127.0.0.1'')
      (GetArg args0 ''-rpcport'' ''19772'') 0 = Inr True"
begin

text \<open>The calls get these answers.\<close>

lemma replied_answer:
  assumes "replies rd args0 (e_rpc E k) strMethod params nStatus result error"
  shows "CallRPC (e_rpc E k) strMethod params args0 =
    Some (Inr (JSONRPCReplyObj result error (VInt 1 False)), args0)"
proof -
  obtain real_p int_p uint_p string_p where j: "json_prims (env_parse (e_rpc E k)) real_p int_p uint_p string_p rd"
    using json by blast
  obtain u p where c: "map_find args0 ''-rpcuser'' = Some u" "u \<noteq> ''''" "map_find args0 ''-rpcpassword'' = Some p"
    using credentials by blast
  have u: "GetArg args0 ''-rpcuser'' '''' \<noteq> ''''" using c by (simp add: GetArg_find)
  have l: "connect_loop (e_rpc E k) args0 w 0 = Some (Inr ())" for w
    using connects [of k] by (subst connect_loop_step) simp
  show ?thesis
    using replies_call [OF strings j u l assms] request_headers_keep [OF c(1,3)] by simp
qed

lemma served_answer:
  "serves rd args0 (e_rpc E k) strMethod params v \<Longrightarrow>
    CallRPC (e_rpc E k) strMethod params args0 = Some (Inr (answer v), args0)"
  unfolding serves_def answer_def by (rule replied_answer)

text \<open>The arguments are as configured and the database is connected.\<close>

definition ready :: "'d world \<Rightarrow> bool" where
  "ready w \<longleftrightarrow> w_args w = args0 \<and> (\<exists>c. w_mp w = Some c \<and> inited c \<noteq> 0)"

definition after_calls :: "nat \<Rightarrow> 'd world \<Rightarrow> 'd world" where
  "after_calls n w = w\<lparr>w_calls := w_calls w + n\<rparr>"

lemma ready_args: "ready w \<Longrightarrow> w_args w = args0"
  by (simp add: ready_def)

lemma ready_calls [simp]: "ready (after_calls n w) = ready w"
  by (simp add: ready_def after_calls_def)

lemma after_calls_simps [simp]:
  "w_calls (after_calls n w) = w_calls w + n" "w_db (after_calls n w) = w_db w"
  "w_args (after_calls n w) = w_args w"
  "after_calls m (after_calls n w) = after_calls (m + n) w" "after_calls 0 w = w"
  by (simp_all add: after_calls_def)

lemma split_words_eq [simp]: "split_words E s w = Some (Inr (words s), w)"
  by (simp add: split_words_def next_rpc_def boost_strings.split_eq [OF strings] retA_def)

lemma call_rpc_eq:
  assumes "w_args w = args0" and "CallRPC (e_rpc E (w_calls w)) m ps args0 = Some (Inr r, args0)"
  shows "call_rpc E m ps w = Some (Inr r, after_calls 1 w)"
  using assms by (simp add: call_rpc_def next_rpc_def after_calls_def)

lemma convert_int: "convert_params E ''getblockbynumber'' [dec_int (sint i)] w = Some (Inr [VInt i False], w)"
proof -
  obtain real_p int_p uint_p string_p where
    j: "json_prims (env_parse (e_rpc E (w_calls w))) real_p int_p uint_p string_p rd" using json by blast
  show ?thesis
    using read_int_text [OF j, of i VNull]
    by (simp add: convert_params_def next_rpc_def liftO_def RPCConvertValues_def convert_value_def convert_table)
qed

lemma convert_text: "convert_params E ''gettransaction'' [s] w = Some (Inr [VStr s], w)"
  by (simp add: convert_params_def liftO_def RPCConvertValues_def convert_value_def convert_table)

lemma convert_none: "convert_params E m [] w = Some (Inr [], w)"
  by (simp add: convert_params_def liftO_def RPCConvertValues_def)

text \<open>A command with its parameters, called.\<close>

lemma call_command_eq:
  assumes "w_args w = args0" and "words cmd = m # ss" and "m \<noteq> ''''"
    and "convert_params E m ss w = Some (Inr ps, w)"
    and "CallRPC (e_rpc E (w_calls w)) m ps args0 = Some (Inr r, args0)"
    and "reply_message r = Inr (code, msg)"
  shows "\<exists>task. call_command E cmd w = Some (Inr (code, msg, task), after_calls 1 w) \<and> t_reply task = r"
  using assms call_rpc_eq [OF assms(1,5)]
  by (simp add: call_command_def switchParams_def new_task_for_def callRPC_def bindA_def liftR_def retA_def Let_def)

lemma int_message:
  assumes "- (2 ^ 31) \<le> i" and "i < 2 ^ 31"
  shows "reply_message (answer (VInt (word_of_int i) False)) = Inr (0, dec_int i)"
proof -
  have "sint (scast (word_of_int i :: int64) :: int32) = i"
  proof -
    have "scast (word_of_int i :: int64) = (word_of_int i :: int32)"
      by (rule bit_word_eqI) (auto simp: bit_simps)
    then show ?thesis using assms by (simp add: sint32_of_int)
  qed
  then show ?thesis
    by (simp add: reply_message_def Let_def accessors_typed strprintf_d)
qed

lemma object_message: "reply_message (answer (VObj ob)) = Inr (0, json_text True 0 (VObj ob))"
  by (simp add: reply_message_def Let_def write_string_json_text)

text \<open>A count that is served is read.\<close>

lemma getBlockCount_served:
  assumes "w_args w = args0" and "- (2 ^ 31) \<le> b" and "b < 2 ^ 31"
    and "serves rd args0 (e_rpc E (w_calls w)) ''getblockcount'' [] (VInt (word_of_int b) False)"
  shows "getBlockCount E h w = Some (Inr (word_of_int b, h\<lparr>h_height := word_of_int b\<rparr>), after_calls 1 w)"
proof -
  have cmd: "words ''getblockcount'' = [''getblockcount'']" by (rule words_word) simp
  obtain task where "call_command E ''getblockcount'' w = Some (Inr (0, dec_int b, task), after_calls 1 w)"
    using call_command_eq [OF assms(1) cmd _ convert_none served_answer [OF assms(4)] int_message [OF assms(2,3)]]
    by auto
  moreover have "atoi64 (dec_int b) = word_of_int b"
  proof -
    have "sint (word_of_int b :: int64) = b" using assms(2,3) by (intro sint64_of_int) simp_all
    then show ?thesis using atoi64_dec [of "word_of_int b"] by simp
  qed
  ultimately show ?thesis by (simp add: getBlockCount_def bindA_def retA_def Let_def)
qed

text \<open>The command for a block.\<close>

lemma block_command:
  assumes "sint (i :: int32) = n"
  shows "strprintf ''%d'' [ArgInt i] = Inr (dec_int n)"
    and "words (''getblockbynumber '' @ dec_int n) = [''getblockbynumber'', dec_int n]"
    and "convert_params E ''getblockbynumber'' [dec_int n] w = Some (Inr [VInt (word_of_int n) False], w)"
proof -
  show "strprintf ''%d'' [ArgInt i] = Inr (dec_int n)" using assms by (simp add: strprintf_d)
  show "words (''getblockbynumber '' @ dec_int n) = [''getblockbynumber'', dec_int n]"
    using words_append [of "''getblockbynumber''" "dec_int n"] words_word [OF dec_int_no_blank [of n]] by simp
  have "sint (word_of_int n :: int64) = n"
    using assms sint32_bounds [of i] by (intro sint64_of_int) simp_all
  then show "convert_params E ''getblockbynumber'' [dec_int n] w = Some (Inr [VInt (word_of_int n) False], w)"
    using convert_int [of "word_of_int n" w] by simp
qed

end

text \<open>The node: its chain, what it serves, and a database that works. The times of its blocks and transactions are
  dates that can be written.\<close>

locale node = working_db "e_db E" trace + peer E args0 rd
  for E :: "'d env" and trace :: "'d \<Rightarrow> statement list" and chain :: "int \<Rightarrow> CFidBlock"
    and txs :: "string \<Rightarrow> CFidTransaction" and details :: "string \<Rightarrow> jvalue list" and best :: "nat \<Rightarrow> int"
    and args0 :: args and rd :: "double \<Rightarrow> double" +
  assumes count_served: "serves rd args0 (e_rpc E k) ''getblockcount'' [] (VInt (word_of_int (best k)) False)"
    and block_served: "0 \<le> n \<Longrightarrow> n \<le> best k \<Longrightarrow>
      serves rd args0 (e_rpc E k) ''getblockbynumber'' [VInt (word_of_int n) False] (VObj (block_object (chain n)))"
    and tx_served: "0 \<le> n \<Longrightarrow> n \<le> best k \<Longrightarrow> txid \<in> set (bk_vtx (chain n)) \<Longrightarrow>
      serves rd args0 (e_rpc E k) ''gettransaction'' [VStr txid] (VObj (tx_object (details txid) (txs txid)))"
    and best_range: "0 \<le> best k \<and> best k < 2 ^ 31 - 2"
    and best_mono: "best k \<le> best (Suc k)"
    and block_ok: "0 \<le> n \<Longrightarrow> n \<le> best k \<Longrightarrow> determinate (chain n) \<and> bk_hash (chain n) \<noteq> '''' \<and>
      datable (the (bk_time (chain n)))"
    and tx_ok: "0 \<le> n \<Longrightarrow> n \<le> best k \<Longrightarrow> txid \<in> set (bk_vtx (chain n)) \<Longrightarrow>
      received (details txid) (txs txid) \<and> tx_txid (txs txid) \<noteq> '''' \<and> CHR '' '' \<notin> set txid \<and>
      tx_datable (txs txid)"
begin

lemma count_answer: "CallRPC (e_rpc E k) ''getblockcount'' [] args0 =
    Some (Inr (answer (VInt (word_of_int (best k)) False)), args0)"
  by (rule served_answer) (rule count_served)

lemma block_answer: "0 \<le> n \<Longrightarrow> n \<le> best k \<Longrightarrow>
    CallRPC (e_rpc E k) ''getblockbynumber'' [VInt (word_of_int n) False] args0 =
    Some (Inr (answer (VObj (block_object (chain n)))), args0)"
  by (rule served_answer) (rule block_served)

lemma tx_answer: "0 \<le> n \<Longrightarrow> n \<le> best k \<Longrightarrow> txid \<in> set (bk_vtx (chain n)) \<Longrightarrow>
    CallRPC (e_rpc E k) ''gettransaction'' [VStr txid] args0 =
    Some (Inr (answer (VObj (tx_object (details txid) (txs txid)))), args0)"
  by (rule served_answer) (rule tx_served)

lemma getBlockCount_eq:
  assumes "ready w"
  shows "getBlockCount E h w = Some (Inr (word_of_int (best (w_calls w)),
    h\<lparr>h_height := word_of_int (best (w_calls w))\<rparr>), after_calls 1 w)"
  using best_range [of "w_calls w"] by (intro getBlockCount_served ready_args [OF assms] count_served) auto

lemma getBlockByNumber_eq:
  assumes "ready w" and "0 \<le> n" and "n \<le> best (w_calls w)" and "bk_nextblockhash (h_block h) = ''''"
  shows "getBlockByNumber E (word_of_int n) h w = Some (Inr (bk_vtx (chain n),
    h\<lparr>h_block := stored (h_block h) (chain n)\<rparr>), after_calls 1 w)"
proof -
  have "sint (word_of_int n :: int32) = n"
    using assms(2,3) best_range [of "w_calls w"] by (simp add: sint32_of_int)
  note cmd = block_command [OF this]
  obtain task where t: "call_command E (''getblockbynumber '' @ dec_int n) w = Some (Inr (0,
      json_text True 0 (VObj (block_object (chain n))), task), after_calls 1 w)"
    "t_reply task = answer (VObj (block_object (chain n)))"
    using call_command_eq [OF ready_args [OF assms(1)] cmd(2) _ cmd(3) block_answer [OF assms(2,3)] object_message] by auto
  have "switchBk task (h_block h) = Inr (bk_vtx (chain n), stored (h_block h) (chain n))"
    using block_ok [OF assms(2,3)] assms(4) t(2) by (intro switchBk_object) simp_all
  then show ?thesis by (simp add: getBlockByNumber_def cmd(1) bindA_def t(1) [simplified] liftR_def retA_def)
qed

lemma getTransaction_eq:
  assumes "ready w" and "0 \<le> n" and "n \<le> best (w_calls w)" and "txid \<in> set (bk_vtx (chain n))"
  shows "getTransaction E txid h w =
    Some (Inr (0, h\<lparr>h_vtx := h_vtx h @ [txs txid]\<rparr>), after_calls 1 w)"
proof -
  note ok = tx_ok [OF assms(2-4)]
  have cmd: "words (''gettransaction '' @ txid) = [''gettransaction'', txid]"
    using words_append [of "''gettransaction''" txid] words_word [of txid] ok by simp
  obtain task where t: "call_command E (''gettransaction '' @ txid) w = Some (Inr (0,
      json_text True 0 (VObj (tx_object (details txid) (txs txid))), task), after_calls 1 w)"
    "t_reply task = answer (VObj (tx_object (details txid) (txs txid)))"
    using call_command_eq [OF ready_args [OF assms(1)] cmd _ convert_text tx_answer [OF assms(2-4)] object_message] by auto
  have "switchTx task new_tx = Inr (0, txs txid)"
    using ok t(2) by (intro switchTx_object) auto
  then show ?thesis by (simp add: getTransaction_def bindA_def t(1) [simplified] liftR_def retA_def strprintf_d)
qed

lemma best_later: "best k \<le> best (k + j)"
  by (induction j) (use best_mono order_trans in \<open>force+\<close>)

lemma get_transactions_eq:
  assumes "ready w" and "0 \<le> n" and "n \<le> best (w_calls w)" and "set ids \<subseteq> set (bk_vtx (chain n))"
  shows "get_transactions E ids h w =
    Some (Inr (h\<lparr>h_vtx := h_vtx h @ map txs ids\<rparr>), after_calls (length ids) w)"
  using assms
proof (induction ids arbitrary: h w)
  case Nil
  then show ?case by (simp add: get_transactions_def retA_def)
next
  case (Cons txid ids)
  have g: "getTransaction E txid h w = Some (Inr (0, h\<lparr>h_vtx := h_vtx h @ [txs txid]\<rparr>), after_calls 1 w)"
    using Cons.prems by (intro getTransaction_eq) auto
  have "n \<le> best (w_calls (after_calls 1 w))" using Cons.prems(3) best_later [of "w_calls w" 1] by simp
  then have "get_transactions E ids (h\<lparr>h_vtx := h_vtx h @ [txs txid]\<rparr>) (after_calls 1 w) =
      Some (Inr (h\<lparr>h_vtx := h_vtx h @ map txs (txid # ids)\<rparr>), after_calls (length (txid # ids)) w)"
    using Cons.IH [of "after_calls 1 w" "h\<lparr>h_vtx := h_vtx h @ [txs txid]\<rparr>"] Cons.prems by simp
  then show ?case by (simp add: get_transactions_def bindA_def g retA_def)
qed

subsection \<open>Insertion\<close>

abbreviation tx_rows :: "CFidTransaction \<Rightarrow> statement list" where
  "tx_rows \<equiv> rows_of_tx (e_db E)"

abbreviation block_rows :: "int \<Rightarrow> statement list" where
  "block_rows \<equiv> rows_of_block (e_db E) chain txs"

lemma stored_statement: "row_of_block (e_db E) (stored bk b) = row_of_block (e_db E) b"
  by (simp add: row_of_block_def insertBlock_statement_def stored_def)

lemma ready_db: "ready w \<Longrightarrow> ready (w\<lparr>w_mp := Some (getinitance (w_mp w)), w_db := d\<rparr>)"
  by (auto simp: ready_def getinitance_def)

lemma insertDBBlock_eq:
  assumes "ready w" and "bk_hash (h_block h) \<noteq> ''''"
    and "bk_time (h_block h) \<noteq> None" and "datable (the (bk_time (h_block h)))"
  shows "\<exists>w'. insertDBBlock E h w = Some (Inr 0, w') \<and> ready w' \<and> w_calls w' = w_calls w \<and>
    trace (w_db w') = trace (w_db w) @ [row_of_block (e_db E) (h_block h)]"
proof -
  obtain c where c: "w_mp w = Some c" "inited c \<noteq> 0" using assms(1) by (auto simp: ready_def)
  have t: "block_date (e_db E) (h_block h) = Inr (date_text (e_db E) (the (bk_time (h_block h))))"
    using assms(3,4) by (auto intro: block_dated)
  obtain d where d: "insertBlock (e_db E) (h_block h) (w_db w) = (Inr 0, d)"
    using insertBlock_ok [OF t, of "w_db w"] by (metis prod.collapse)
  have "trace d = trace (w_db w) @ [row_of_block (e_db E) (h_block h)]"
    using insertBlock_trace [OF t, of "w_db w"] d by (simp add: row_of_block_def)
  then show ?thesis
    using assms c d by (simp add: insertDBBlock_def bk_checkValidy_def db_insertBk_def with_db_def
        getinitance_def initDb_with_def ready_def)
qed

lemma insert_one_eq:
  assumes "ready w" and "tx_txid tx \<noteq> ''''" and "tx_datable tx"
  shows "\<exists>w'. insert_one E tx r w = Some (Inr r, w') \<and> ready w' \<and> w_calls w' = w_calls w \<and>
    trace (w_db w') = trace (w_db w) @ tx_rows tx"
proof -
  obtain c where c: "w_mp w = Some c" "inited c \<noteq> 0" using assms(1) by (auto simp: ready_def)
  note t = tx_dated [OF assms(3)]
  obtain d where d: "insertTx (e_db E) tx (w_db w) = (Inr 0, d)"
    using insertTx_ok [OF t, of "w_db w"] by (metis prod.collapse)
  have "trace d = trace (w_db w) @ tx_rows tx"
    using insertTx_complete [OF t, of "w_db w"] d by (simp add: rows_of_tx_def)
  then show ?thesis
    using assms c d by (simp add: insert_one_def tx_checkValidy_def db_insertTx_def with_db_def
        getinitance_def initDb_def ready_def bindA_def retA_def)
qed

lemma insertDBTrans_eq:
  assumes "ready w" and "\<forall>tx \<in> set (h_vtx h). tx_txid tx \<noteq> '''' \<and> tx_datable tx"
  shows "\<exists>w'. insertDBTrans E h w = Some (Inr 0, w') \<and> ready w' \<and> w_calls w' = w_calls w \<and>
    trace (w_db w') = trace (w_db w) @ concat (map tx_rows (h_vtx h))"
proof -
  have "\<exists>w'. foldA (insert_one E) ts r w = Some (Inr r, w') \<and> ready w' \<and> w_calls w' = w_calls w \<and>
      trace (w_db w') = trace (w_db w) @ concat (map tx_rows ts)"
    if "ready w" "\<forall>tx \<in> set ts. tx_txid tx \<noteq> '''' \<and> tx_datable tx" for ts r w
    using that
  proof (induction ts arbitrary: w)
    case Nil
    then show ?case by (simp add: retA_def)
  next
    case (Cons tx ts)
    obtain w1 where 1: "insert_one E tx r w = Some (Inr r, w1)" "ready w1" "w_calls w1 = w_calls w"
      "trace (w_db w1) = trace (w_db w) @ tx_rows tx"
      using insert_one_eq [of w tx r] Cons.prems by auto
    show ?case using Cons.IH [OF 1(2)] Cons.prems(2) 1 by (auto simp: bindA_def)
  qed
  then show ?thesis unfolding insertDBTrans_def using assms by blast
qed

end

end
