(* ===== verification/Following.thy ===== *)
theory Following
  imports Node
begin

section \<open>Following the chain\<close>

text \<open>
  What the tasks do with a node that answers: the first run stores the whole chain in order, and the
  schedule's thread then stores every new block once, in order, for ever.
\<close>

text \<open>The block a task asks for next.\<close>

definition wanted :: "CFidTask \<Rightarrow> int64" where
  "wanted task = (if t_height task \<noteq> - 1 then scast (t_height task) else atoi64 (t_command task))"

subsection \<open>The first run\<close>

context node
begin

lemma gensis_block_eq:
  assumes "ready w" and "0 \<le> i" and "i \<le> best (w_calls w)"
  shows "\<exists>hand' w'. gensis_block E i hand w = Some (Inr hand', w') \<and> ready w' \<and>
    w_calls w \<le> w_calls w' \<and> trace (w_db w') = trace (w_db w) @ block_rows i"
proof -
  define h0 where "h0 = handler_reset hand"
  have h0: "bk_nextblockhash (h_block h0) = ''''" "h_vtx h0 = []"
    by (simp_all add: h0_def handler_reset_def bk_clear_def)
  let ?h1 = "h0\<lparr>h_block := stored (h_block h0) (chain i)\<rparr>"
  let ?w1 = "after_calls 1 w"
  have 1: "getBlockByNumber E (word_of_int i) h0 w = Some (Inr (bk_vtx (chain i), ?h1), ?w1)"
    using assms h0 by (intro getBlockByNumber_eq) simp_all
  have "bk_hash (h_block ?h1) \<noteq> ''''" "bk_time (h_block ?h1) \<noteq> None" "datable (the (bk_time (h_block ?h1)))"
    using block_ok [OF assms(2,3)] by (auto simp: stored_def determinate_def)
  then obtain w2 where 2: "insertDBBlock E ?h1 ?w1 = Some (Inr 0, w2)" "ready w2" "w_calls w2 = Suc (w_calls w)"
    "trace (w_db w2) = trace (w_db w) @ [row_of_block (e_db E) (chain i)]"
    using insertDBBlock_eq [of ?w1 ?h1] assms(1) by (auto simp: stored_statement)
  have b2: "i \<le> best (w_calls w2)" using assms(3) best_later [of "w_calls w" 1] 2(3) by simp
  let ?h3 = "?h1\<lparr>h_vtx := h_vtx ?h1 @ map txs (bk_vtx (chain i))\<rparr>"
  have 3: "get_transactions E (bk_vtx (chain i)) ?h1 w2 =
      Some (Inr ?h3, after_calls (length (bk_vtx (chain i))) w2)"
    using get_transactions_eq [OF 2(2) assms(2) b2, of "bk_vtx (chain i)" ?h1] by simp
  have "\<forall>tx \<in> set (h_vtx ?h3). tx_txid tx \<noteq> '''' \<and> tx_datable tx" using tx_ok [OF assms(2,3)] h0 by auto
  then obtain w4 where 4: "insertDBTrans E ?h3 (after_calls (length (bk_vtx (chain i))) w2) = Some (Inr 0, w4)"
    "ready w4" "w_calls w4 = w_calls w2 + length (bk_vtx (chain i))"
    "trace (w_db w4) = trace (w_db w2) @ concat (map tx_rows (h_vtx ?h3))"
    using insertDBTrans_eq [of "after_calls (length (bk_vtx (chain i))) w2" ?h3] 2(2) by auto
  have "gensis_block E i hand w = Some (Inr ?h3, w4)"
    unfolding gensis_block_def h0_def [symmetric]
    by (simp add: bindA_def 1 [simplified] 2(1) [simplified] 3 4(1) [simplified] retA_def)
  then show ?thesis using 4(2-4) 2(3,4) h0(2) by (auto simp: rows_of_block_def comp_def)
qed

lemma gensis_loop_eq:
  assumes "ready w" and "0 \<le> a" and "H \<le> best (w_calls w)"
  shows "\<exists>hand' w'. foldA (gensis_block E) [a..H] hand w = Some (Inr hand', w') \<and> ready w' \<and>
    w_calls w \<le> w_calls w' \<and> trace (w_db w') = trace (w_db w) @ concat (map block_rows [a..H])"
  using assms
proof (induction "nat (H + 1 - a)" arbitrary: a w hand)
  case 0
  then have "[a..H] = []" by simp
  then show ?case using 0(2) by (simp add: retA_def)
next
  case (Suc j)
  then have aH: "[a..H] = a # [a + 1..H]" by (simp add: upto_rec1)
  have ab: "a \<le> best (w_calls w)" using Suc.hyps(2) Suc.prems(3) by simp
  obtain h1 w1 where 1: "gensis_block E a hand w = Some (Inr h1, w1)" "ready w1" "w_calls w \<le> w_calls w1"
    "trace (w_db w1) = trace (w_db w) @ block_rows a"
    using gensis_block_eq [OF Suc.prems(1,2) ab, of hand] by blast
  have "H \<le> best (w_calls w1)"
    using Suc.prems(3) best_later [of "w_calls w" "w_calls w1 - w_calls w"] 1(3) by simp
  moreover have j: "j = nat (H + 1 - (a + 1))" using Suc.hyps(2) by linarith
  ultimately obtain h2 w2 where 2: "foldA (gensis_block E) [a + 1..H] h1 w1 = Some (Inr h2, w2)" "ready w2"
    "w_calls w1 \<le> w_calls w2" "trace (w_db w2) = trace (w_db w1) @ concat (map block_rows [a + 1..H])"
    using Suc.hyps(1) [of "a + 1" w1 h1, OF j 1(2)] Suc.prems(2) by auto
  then show ?case unfolding aH using 1 by (auto simp: bindA_def)
qed

lemma call_gensis_eq:
  assumes "ready w" and "sint (atoi64 (t_command task)) \<le> 0"
  shows "\<exists>w'. call_gensis E task w =
      Some (Inr (0, task\<lparr>t_height := word_of_int (best (w_calls w))\<rparr>), w') \<and> ready w' \<and>
    trace (w_db w') = trace (w_db w) @ concat (map block_rows [0..best (w_calls w)])"
proof -
  let ?b = "best (w_calls w)"
  have s: "sint (word_of_int ?b :: int64) = ?b"
    using best_range [of "w_calls w"] by (intro sint64_of_int) simp_all
  have n: "scast (word_of_int ?b :: int64) = (word_of_int ?b :: int32)"
    by (rule bit_word_eqI) (auto simp: bit_simps)
  let ?h = "(new_handler task)\<lparr>h_height := word_of_int ?b\<rparr>"
  have b: "?b \<noteq> 2 ^ 63 - 1" using best_range [of "w_calls w"] by simp
  have "?b \<le> best (w_calls (after_calls 1 w))" using best_later [of "w_calls w" 1] by simp
  then obtain h' w' where "foldA (gensis_block E) [0..?b] ?h (after_calls 1 w) = Some (Inr h', w')" "ready w'"
    "trace (w_db w') = trace (w_db w) @ concat (map block_rows [0..?b])"
    using gensis_loop_eq [of "after_calls 1 w" 0 ?b ?h] assms(1) by auto
  then show ?thesis
    using getBlockCount_eq [OF assms(1), of "new_handler task"] assms(2) b
    by (simp add: call_gensis_def Let_def bindA_def retA_def s n)
qed

subsection \<open>One block\<close>

lemma call_block_or_trans_late:
  assumes "ready w" and "wanted task = word_of_int n" and "best (w_calls w) < n" and "n < 2 ^ 31"
  shows "call_block_or_trans E task w = Some (Inr (0, task\<lparr>t_status := 0\<rparr>), after_calls 1 w)"
proof -
  have n: "sint (wanted task) = n" "sint (word_of_int (best (w_calls w)) :: int64) = best (w_calls w)" "0 < n"
    using assms(2-4) best_range [of "w_calls w"] by (simp_all add: sint64_of_int)
  then show ?thesis
    using getBlockCount_eq [OF assms(1), of "new_handler task"] assms(3)
    unfolding call_block_or_trans_def wanted_def [symmetric]
    by (simp add: Let_def bindA_def retA_def)
qed

lemma call_block_or_trans_eq:
  assumes "ready w" and "wanted task = word_of_int n" and "1 \<le> n" and "n \<le> best (w_calls w)"
  shows "\<exists>w'. call_block_or_trans E task w = Some (Inr (0, task\<lparr>t_height := word_of_int n, t_status := 1,
      t_bktime := map_option scast (bk_time (chain n))\<rparr>), w') \<and>
    ready w' \<and> w_calls w \<le> w_calls w' \<and> trace (w_db w') = trace (w_db w) @ block_rows n"
proof -
  let ?k = "w_calls w"
  have n: "sint (wanted task) = n" "sint (word_of_int (best ?k) :: int64) = best ?k"
    using assms(2-4) best_range [of ?k] by (simp_all add: sint64_of_int)
  let ?h0 = "(new_handler task)\<lparr>h_height := word_of_int (best ?k)\<rparr>"
  let ?w1 = "after_calls 1 w"
  have b1: "n \<le> best (w_calls ?w1)" using assms(4) best_later [of ?k 1] by simp
  have h0: "bk_nextblockhash (h_block ?h0) = ''''" "h_vtx ?h0 = []" by (simp_all add: new_handler_def new_block_def)
  let ?h1 = "?h0\<lparr>h_block := stored (h_block ?h0) (chain n)\<rparr>"
  let ?ids = "bk_vtx (chain n)"
  have 1: "getBlockByNumber E (word_of_int n) ?h0 ?w1 = Some (Inr (?ids, ?h1), after_calls 2 w)"
    using getBlockByNumber_eq [OF _ _ b1 h0(1)] assms(1,3) by (simp add: numeral_2_eq_2)
  let ?h3 = "?h1\<lparr>h_vtx := h_vtx ?h1 @ map txs ?ids\<rparr>"
  let ?w3 = "after_calls (length ?ids) (after_calls 2 w)"
  have b2: "n \<le> best (w_calls (after_calls 2 w))" using assms(4) best_later [of ?k 2] by simp
  have 3: "get_transactions E ?ids ?h1 (after_calls 2 w) = Some (Inr ?h3, ?w3)"
    using get_transactions_eq [OF _ _ b2, of ?ids ?h1] assms(1,3) by simp
  have ok: "0 \<le> n" "n \<le> best ?k" using assms(3,4) by simp_all
  have "bk_hash (h_block ?h3) \<noteq> ''''" "bk_time (h_block ?h3) \<noteq> None" "datable (the (bk_time (h_block ?h3)))"
    using block_ok [OF ok] by (auto simp: stored_def determinate_def)
  then obtain w4 where 4: "insertDBBlock E ?h3 ?w3 = Some (Inr 0, w4)" "ready w4" "w_calls w4 = w_calls ?w3"
    "trace (w_db w4) = trace (w_db w) @ [row_of_block (e_db E) (chain n)]"
    using insertDBBlock_eq [of ?w3 ?h3] assms(1) by (auto simp: stored_statement)
  have "\<forall>tx \<in> set (h_vtx ?h3). tx_txid tx \<noteq> '''' \<and> tx_datable tx" using tx_ok [OF ok] h0 by auto
  then obtain w5 where 5: "insertDBTrans E ?h3 w4 = Some (Inr 0, w5)" "ready w5" "w_calls w5 = w_calls w4"
    "trace (w_db w5) = trace (w_db w4) @ concat (map tx_rows (h_vtx ?h3))"
    using insertDBTrans_eq [OF 4(2), of ?h3] by auto
  have i: "insertDBBlockTrans E ?h3 ?w3 = Some (Inr 0, w5)"
    using 4(1) 5(1) by (simp add: insertDBBlockTrans_def bindA_def retA_def)
  have bt: "getBkTime ?h3 = map_option scast (bk_time (chain n))" by (simp add: getBkTime_def stored_def)
  have sc: "scast (wanted task) = (word_of_int n :: int32)"
    unfolding assms(2) by (rule bit_word_eqI) (auto simp: bit_simps)
  have "call_block_or_trans E task w = Some (Inr (0, task\<lparr>t_height := word_of_int n, t_status := 1,
      t_bktime := map_option scast (bk_time (chain n))\<rparr>), w5)"
    unfolding call_block_or_trans_def wanted_def [symmetric] Let_def
    using assms(3,4) n getBlockCount_eq [OF assms(1), of "new_handler task"] 1 3 i bt
    by (simp add: bindA_def retA_def sc)
  then show ?thesis using 5 4 h0(2) by (auto simp: rows_of_block_def comp_def)
qed

end

subsection \<open>The time to sleep\<close>

text \<open>The simple rule: 800 ms for every second since the last block was stored, at most as many seconds
  as the last two blocks are apart (64 if that is negative); else one second.\<close>

definition sleep_rule :: "int \<Rightarrow> int \<Rightarrow> int32" where
  "sleep_rule bkdiff diff = (if diff < 0 \<or> diff > bkdiff then adjusttime else word_of_int ((bkdiff - diff) * 800))"

lemma sleep_diff_rule:
  assumes "cur \<noteq> 0 \<longrightarrow> prev \<noteq> 0 \<longrightarrow> \<bar>sint cur - sint prev\<bar> \<le> 500000"
  shows "sleep_diff cur prev t1 t2 = Inr
    (if cur \<noteq> 0 \<and> prev \<noteq> 0 then
       (let bkdiff = (if sint cur < sint prev then 64 else sint cur - sint prev)
        in sleep_rule bkdiff (sint (word_of_int (bkdiff - sint (t2 - t1)) :: int32)))
     else adjusttime)"
proof (cases "cur \<noteq> 0 \<and> prev \<noteq> 0")
  case True
  then have le: "\<bar>sint cur - sint prev\<bar> \<le> 500000" using assms by blast
  have a: "int_arith (sint cur - sint prev) = Inr (sint cur - sint prev)"
    using le by (auto simp: int_arith_def abs_le_iff)
  have b: "bindR (int_arith ((bk - d) * 1000)) (\<lambda>x. bindR (int_arith (x * 4)) (\<lambda>y. Inr (word_of_int (y div 5) :: int32)))
      = Inr (word_of_int ((bk - d) * 800))" if "0 \<le> d" "d \<le> bk" "bk \<le> 500000" for bk d :: int
  proof -
    have "(bk - d) * 1000 * 4 = (bk - d) * 800 * 5" by simp
    then have "(bk - d) * 1000 * 4 div 5 = (bk - d) * 800" by (simp only: nonzero_mult_div_cancel_right)
    then show ?thesis using that by (simp add: int_arith_def)
  qed
  show ?thesis
    using b [of _ 64] b [of _ "sint cur - sint prev"] le True
    by (auto simp: sleep_diff_def a Let_def sleep_rule_def)
next
  case False
  show ?thesis unfolding sleep_diff_def if_not_P [OF False] by (rule refl)
qed

lemma sleep_diff_bounds:
  assumes "cur \<noteq> 0 \<longrightarrow> prev \<noteq> 0 \<longrightarrow> \<bar>sint cur - sint prev\<bar> \<le> 500000"
  shows "\<exists>ms. sleep_diff cur prev t1 t2 = Inr ms \<and> 0 \<le> sint ms \<and>
    (ms = adjusttime \<or> sint ms \<le> 800 * max 64 (sint cur - sint prev))"
proof (cases "cur \<noteq> 0 \<and> prev \<noteq> 0")
  case True
  then have le: "\<bar>sint cur - sint prev\<bar> \<le> 500000" using assms by blast
  define bkdiff where "bkdiff = (if sint cur < sint prev then 64 else sint cur - sint prev)"
  define diff where "diff = sint (word_of_int (bkdiff - sint (t2 - t1)) :: int32)"
  have bk: "0 \<le> bkdiff" "bkdiff \<le> 500000" "bkdiff \<le> max 64 (sint cur - sint prev)"
    using le by (auto simp: bkdiff_def abs_le_iff)
  have r: "0 \<le> sint (sleep_rule bkdiff diff) \<and>
      (sleep_rule bkdiff diff = adjusttime \<or> sint (sleep_rule bkdiff diff) \<le> 800 * bkdiff)"
  proof (cases "diff < 0 \<or> diff > bkdiff")
    case True
    then show ?thesis by (simp add: sleep_rule_def adjusttime_def)
  next
    case False
    then have "sint (word_of_int ((bkdiff - diff) * 800) :: int32) = (bkdiff - diff) * 800"
      using bk by (intro sint32_of_int) auto
    then show ?thesis using False by (simp add: sleep_rule_def)
  qed
  show ?thesis
    using sleep_diff_rule [OF assms, of t1 t2] r bk(3) True
    unfolding Let_def bkdiff_def [symmetric] diff_def [symmetric] by auto
next
  case False
  show ?thesis unfolding sleep_diff_def if_not_P [OF False] by (simp add: adjusttime_def)
qed

subsection \<open>A round\<close>

lemma work_tasks_one:
  assumes "work_task E t loc w = Some (Inr (t', loc'), w')"
  shows "work_tasks E [t] loc w = Some (Inr ([t'], loc'), w')"
  using assms by (cases loc') (simp add: bindA_def retA_def)

lemma work_round_one:
  assumes "work_task E t (Some 0, False) w = Some (Inr (t', Some cur, c), w')"
    and "s_tasks s = [t]" and "s_onceRun s = 0"
    and "cur \<noteq> 0 \<longrightarrow> wl_bktime l \<noteq> 0 \<longrightarrow> \<bar>sint cur - sint (wl_bktime l)\<bar> \<le> 500000"
  shows "\<exists>ms l' w''. work_round E s l w = Some (Inr (Slept ms, s\<lparr>s_tasks := [t']\<rparr>, l'), w'') \<and> 0 \<le> sint ms \<and>
    wl_bktime l' = (if cur \<noteq> 0 then cur else wl_bktime l) \<and>
    w_args w'' = w_args w' \<and> w_mp w'' = w_mp w' \<and> w_db w'' = w_db w' \<and> w_calls w'' = w_calls w'"
proof -
  have ts: "work_tasks E [t] (Some 0, False) w = Some (Inr ([t'], Some cur, c), w')"
    by (rule work_tasks_one [OF assms(1)])
  obtain t2 w2 where t2: "read_clock E w' = Some (Inr t2, w2)" "w_args w2 = w_args w'" "w_mp w2 = w_mp w'"
    "w_db w2 = w_db w'" "w_calls w2 = w_calls w'" by (auto simp: read_clock_def retA_def)
  obtain ms where ms: "sleep_diff cur (wl_bktime l) (wl_t1 l) t2 = Inr ms" "0 \<le> sint ms"
    using sleep_diff_bounds [OF assms(4), of "wl_t1 l" t2] by blast
  have adj: "0 \<le> sint adjusttime" by (simp add: adjusttime_def)
  show ?thesis
  proof (cases "cur = 0")
    case True
    then show ?thesis
      using ts t2 ms assms(2,3) adj
      by (simp add: work_round_def after_tasks_def bindA_def retA_def liftR_def determined_def)
  next
    case False
    obtain t3 w3 where "read_clock E w2 = Some (Inr t3, w3)" "w_args w3 = w_args w2" "w_mp w3 = w_mp w2"
      "w_db w3 = w_db w2" "w_calls w3 = w_calls w2" by (auto simp: read_clock_def retA_def)
    then show ?thesis
      using False ts t2 ms assms(2,3) adj
      by (simp add: work_round_def after_tasks_def bindA_def retA_def liftR_def determined_def)
  qed
qed

subsection \<open>The thread as a step relation\<close>

type_synonym 'd config = "CFidTaskSchedule \<times> work_locals \<times> 'd world"

text \<open>A step is a round that ends in a sleep.\<close>

inductive work_step :: "'d env \<Rightarrow> 'd config \<Rightarrow> 'd config \<Rightarrow> bool" for E where
  round: "work_round E s l w = Some (Inr (Slept ms, s', l'), w') \<Longrightarrow> work_step E (s, l, w) (s', l', w')"

inductive_cases work_stepE: "work_step E (s, l, w) c"

inductive_simps work_step_iff: "work_step E (s, l, w) (s', l', w')"

text \<open>A step is a turn of the loop.\<close>

lemma work_loop_step: "work_step E (s, l, w) (s', l', w') \<Longrightarrow> work_loop E s l w = work_loop E s' l' w'"
  by (subst work_loop.simps) (auto simp: work_step_iff)

lemma wanted_height:
  assumes "0 \<le> n" and "n < 2 ^ 31"
  shows "wanted (t\<lparr>t_height := word_of_int n\<rparr>) = word_of_int n"
proof -
  have s: "sint (word_of_int n :: int32) = n" using assms by (simp add: sint32_of_int)
  have "(word_of_int n :: int32) \<noteq> - 1"
  proof
    assume "(word_of_int n :: int32) = - 1"
    then have "sint (word_of_int n :: int32) = - 1" by simp
    then show False using s assms(1) by simp
  qed
  moreover have "scast (word_of_int n :: int32) = (word_of_int (sint (word_of_int n :: int32)) :: int64)"
    by (rule bit_word_eqI) (auto simp: bit_simps)
  ultimately show ?thesis by (simp add: wanted_def s)
qed

text \<open>Block times: they are positive and fit an \<open>int\<close>, and neighbours are less than six days apart.\<close>

locale steady_node = node +
  assumes block_time: "0 \<le> n \<Longrightarrow> n \<le> best k \<Longrightarrow>
      0 < sint (the (bk_time (chain n))) \<and> sint (the (bk_time (chain n))) < 2 ^ 31"
    and block_times: "0 \<le> n \<Longrightarrow> n + 1 \<le> best k \<Longrightarrow>
      \<bar>sint (the (bk_time (chain (n + 1)))) - sint (the (bk_time (chain n)))\<bar> \<le> 500000"
begin

definition int_time :: "int \<Rightarrow> int32" where
  "int_time n = scast (the (bk_time (chain n)))"

lemma int_time_sint:
  assumes "0 \<le> n" and "n \<le> best k"
  shows "sint (int_time n) = sint (the (bk_time (chain n)))"
proof -
  have e: "int_time n = word_of_int (sint (the (bk_time (chain n))))"
    unfolding int_time_def by (rule bit_word_eqI) (auto simp: bit_simps)
  show ?thesis unfolding e using block_time [OF assms] by (intro sint32_of_int) auto
qed

text \<open>
  Where the thread stands after it started at block \<open>n0\<close> with the statements \<open>ss\<close> already executed:
  its task asks for block \<open>n\<close>, and exactly the blocks before it have been stored.
\<close>

definition stands :: "int \<Rightarrow> statement list \<Rightarrow> int \<Rightarrow> 'a config \<Rightarrow> bool" where
  "stands n0 ss n c \<longleftrightarrow> (case c of (s, l, w) \<Rightarrow>
     (\<exists>t. s_tasks s = [t] \<and> t_type t = TASK_BLOCK_OR_TRANS \<and> wanted t = word_of_int n) \<and>
     s_onceRun s = 0 \<and> ready w \<and> 1 \<le> n0 \<and> n0 \<le> n \<and> n < 2 ^ 31 - 1 \<and>
     (n = n0 \<or> n - 1 \<le> best (w_calls w)) \<and>
     (wl_bktime l = 0 \<or> n0 < n \<and> wl_bktime l = int_time (n - 1)) \<and>
     trace (w_db w) = ss @ concat (map block_rows [n0..n - 1]))"

lemma work_task_late:
  assumes "ready w" and "t_type t = TASK_BLOCK_OR_TRANS" and "wanted t = word_of_int n"
    and "best (w_calls w) < n" and "n < 2 ^ 31"
  shows "work_task E t loc w = Some (Inr (t, fst loc, True), after_calls 1 w)"
  using call_block_or_trans_late [OF assms(1,3-5)] assms(2)
  by (simp add: work_task_def write_back_def task_call.simps bindA_def retA_def liftR_def)

lemma work_task_stored:
  assumes "ready w" and "t_type t = TASK_BLOCK_OR_TRANS" and "wanted t = word_of_int n"
    and "1 \<le> n" and "n \<le> best (w_calls w)"
  shows "\<exists>w'. work_task E t loc w =
      Some (Inr (t\<lparr>t_height := word_of_int (n + 1)\<rparr>, Some (int_time n), False), w') \<and>
    ready w' \<and> w_calls w \<le> w_calls w' \<and> trace (w_db w') = trace (w_db w) @ block_rows n"
proof -
  have ok: "0 \<le> n" using assms(4) by simp
  have n: "sint (word_of_int n :: int32) = n" "n + 1 < 2 ^ 31"
    using assms(4,5) best_range [of "w_calls w"] by (simp_all add: sint32_of_int)
  have bt: "map_option scast (bk_time (chain n)) = Some (int_time n)"
    using block_ok [OF ok assms(5)] by (auto simp: int_time_def determinate_def)
  have h: "succ_height (word_of_int n) = Inr (word_of_int (n + 1))"
    using n assms(4) by (simp add: succ_height_def int_arith_def)
  show ?thesis
    using call_block_or_trans_eq [OF assms(1,3-5)] assms(2) h bt
    by (auto simp: work_task_def write_back_def task_call.simps bindA_def retA_def liftR_def)
qed

text \<open>A round never gets stuck: a new block is stored, and otherwise nothing is.\<close>

lemma stands_round:
  assumes "stands n0 ss n (s, l, w)"
  shows "\<exists>ms s' l' w'. work_round E s l w = Some (Inr (Slept ms, s', l'), w') \<and> 0 \<le> sint ms \<and>
    w_calls w \<le> w_calls w' \<and>
    stands n0 ss (if n \<le> best (w_calls w) then n + 1 else n) (s', l', w')"
proof -
  obtain t where t: "s_tasks s = [t]" "t_type t = TASK_BLOCK_OR_TRANS" "wanted t = word_of_int n"
    and r: "s_onceRun s = 0" "ready w" "1 \<le> n0" "n0 \<le> n" "n < 2 ^ 31 - 1"
      "n = n0 \<or> n - 1 \<le> best (w_calls w)" "wl_bktime l = 0 \<or> n0 < n \<and> wl_bktime l = int_time (n - 1)"
    and tr: "trace (w_db w) = ss @ concat (map block_rows [n0..n - 1])"
    using assms by (auto simp: stands_def)
  have ready_eq: "ready w2" if "ready w1" "w_args w2 = w_args w1" "w_mp w2 = w_mp w1" for w1 w2 :: "'a world"
    using that by (simp add: ready_def)
  show ?thesis
  proof (cases "n \<le> best (w_calls w)")
    case True
    have n1: "1 \<le> n" using r by simp
    obtain w1 where w1: "work_task E t (Some 0, False) w =
        Some (Inr (t\<lparr>t_height := word_of_int (n + 1)\<rparr>, Some (int_time n), False), w1)"
      "ready w1" "w_calls w \<le> w_calls w1" "trace (w_db w1) = trace (w_db w) @ block_rows n"
      using work_task_stored [OF r(2) t(2,3) n1 True] by blast
    have "\<bar>sint (int_time n) - sint (wl_bktime l)\<bar> \<le> 500000" if nz: "wl_bktime l \<noteq> 0"
    proof -
      have p: "0 \<le> n - 1" "n - 1 \<le> best (w_calls w)" "0 \<le> n" "n - 1 + 1 \<le> best (w_calls w)"
        using n1 True by simp_all
      have "wl_bktime l = int_time (n - 1)" using r(7) nz by blast
      then show ?thesis
        using block_times [OF p(1,4)] int_time_sint [OF p(1,2)] int_time_sint [OF p(3) True] by simp
    qed
    then obtain ms l' w' where w': "work_round E s l w =
        Some (Inr (Slept ms, s\<lparr>s_tasks := [t\<lparr>t_height := word_of_int (n + 1)\<rparr>]\<rparr>, l'), w')" "0 \<le> sint ms"
      "wl_bktime l' = (if int_time n \<noteq> 0 then int_time n else wl_bktime l)"
      "w_args w' = w_args w1" "w_mp w' = w_mp w1" "w_db w' = w_db w1" "w_calls w' = w_calls w1"
      using work_round_one [OF w1(1) t(1) r(1), of l] by blast
    have nz: "int_time n \<noteq> 0"
    proof
      assume "int_time n = 0"
      moreover have "sint (int_time n) > 0"
        using int_time_sint [of n "w_calls w"] block_time [of n "w_calls w"] n1 True by simp
      ultimately show False by simp
    qed
    have b: "best (w_calls w) \<le> best (w_calls w')"
      using best_later [of "w_calls w" "w_calls w1 - w_calls w"] w1(3) w'(7) by simp
    have room: "n + 1 < 2 ^ 31 - 1" using True best_range [of "w_calls w"] by simp
    then have wn: "wanted (t\<lparr>t_height := word_of_int (n + 1)\<rparr>) = word_of_int (n + 1)"
      using n1 by (intro wanted_height) simp_all
    have rows: "[n0..n] = [n0..n - 1] @ [n]" using r(4) by (simp add: upto_rec2)
    have "stands n0 ss (n + 1) (s\<lparr>s_tasks := [t\<lparr>t_height := word_of_int (n + 1)\<rparr>]\<rparr>, l', w')"
      unfolding stands_def prod.case
    proof (intro conjI)
      show "\<exists>t'. s_tasks (s\<lparr>s_tasks := [t\<lparr>t_height := word_of_int (n + 1)\<rparr>]\<rparr>) = [t'] \<and>
          t_type t' = TASK_BLOCK_OR_TRANS \<and> wanted t' = word_of_int (n + 1)"
        using t(2) wn by simp
      show "n + 1 < 2 ^ 31 - 1" "n + 1 = n0 \<or> n + 1 - 1 \<le> best (w_calls w')"
        using True b room by simp_all
      show "wl_bktime l' = 0 \<or> n0 < n + 1 \<and> wl_bktime l' = int_time (n + 1 - 1)"
        using w'(3) nz r(4) by simp
      show "trace (w_db w') = ss @ concat (map block_rows [n0..n + 1 - 1])"
        using w1(4) tr w'(6) rows by simp
      show "ready w'" by (rule ready_eq [OF w1(2) w'(4,5)])
    qed (use r in simp_all)
    then show ?thesis using True w'(1,2,7) w1(3) by auto
  next
    case False
    then have "n < 2 ^ 31" "best (w_calls w) < n" using r(5) by simp_all
    then have "work_task E t (Some 0, False) w = Some (Inr (t, Some 0, True), after_calls 1 w)"
      using work_task_late [OF r(2) t(2,3)] by simp
    from work_round_one [OF this t(1) r(1), of l]
    obtain ms l' w' where w': "work_round E s l w = Some (Inr (Slept ms, s\<lparr>s_tasks := [t]\<rparr>, l'), w')"
      "0 \<le> sint ms" "wl_bktime l' = wl_bktime l" "w_args w' = w_args (after_calls 1 w)"
      "w_mp w' = w_mp (after_calls 1 w)" "w_db w' = w_db w" "w_calls w' = Suc (w_calls w)"
      by auto
    have b: "best (w_calls w) \<le> best (w_calls w')" using best_mono by (simp add: w'(7))
    have "ready w'" using ready_eq [OF _ w'(4,5)] r(2) by simp
    then have "stands n0 ss n (s\<lparr>s_tasks := [t]\<rparr>, l', w')"
      using t r tr w' b by (auto simp: stands_def)
    then show ?thesis using False w'(1,2,7) by auto
  qed
qed

lemma stands_step:
  assumes "stands n0 ss n c" and "work_step E c c'"
  shows "stands n0 ss (if n \<le> best (w_calls (snd (snd c))) then n + 1 else n) c'"
proof -
  obtain s l w s' l' w' where c: "c = (s, l, w)" "c' = (s', l', w')" by (metis prod_cases3)
  obtain ms where "work_round E s l w = Some (Inr (Slept ms, s', l'), w')"
    using assms(2) unfolding c by (auto simp: work_step_iff)
  then show ?thesis using stands_round [of n0 ss n s l w] assms(1) unfolding c by auto
qed

lemma stands_reachable:
  assumes "(work_step E)\<^sup>*\<^sup>* c c'" and "stands n0 ss n c"
  shows "\<exists>n' \<ge> n. stands n0 ss n' c'"
  using assms
proof (induction rule: rtranclp_induct)
  case base
  then show ?case by blast
next
  case (step c1 c2)
  then obtain n1 where n1: "n1 \<ge> n" "stands n0 ss n1 c1" by blast
  from stands_step [OF n1(2) step(2)] n1(1) show ?case by (metis (full_types) add_increasing2 zero_le_one order_trans le_add_same_cancel1)
qed

end

text \<open>The loop of the thread does not end.\<close>

context steady_node
begin

lemma work_loop_runs:
  assumes "stands n0 ss n (s, l, w)"
  shows "work_loop E s l w = None"
proof (rule ccontr)
  assume "work_loop E s l w \<noteq> None"
  then obtain r where r: "work_loop E s l w = Some r" by auto
  have "\<forall>n. E = E \<longrightarrow> \<not> stands n0 ss n (s, l, w)"
  proof (rule work_loop.raw_induct [OF _ r, where P = "\<lambda>E' s l w r. \<forall>n. E' = E \<longrightarrow> \<not> stands n0 ss n (s, l, w)"])
    fix rec E' s l w r
    assume IH: "\<And>E' s l w r. rec E' s l w = Some r \<Longrightarrow> \<forall>n. E' = E \<longrightarrow> \<not> stands n0 ss n (s, l, w)"
      and eq: "Option.bind (work_round E' s l w) (\<lambda>(r, w). case r of
         Inl e \<Rightarrow> Some (Inl e, w)
       | Inr (Left, s, l) \<Rightarrow> Some (Inr s, w)
       | Inr (Slept ms, s, l) \<Rightarrow> rec E' s l w) = Some r"
    show "\<forall>n. E' = E \<longrightarrow> \<not> stands n0 ss n (s, l, w)"
    proof (intro allI impI notI)
      fix n assume E': "E' = E" and st: "stands n0 ss n (s, l, w)"
      from stands_round [OF st] obtain ms s' l' w' m where 1: "work_round E s l w = Some (Inr (Slept ms, s', l'), w')"
        "stands n0 ss m (s', l', w')" by blast
      then have "rec E s' l' w' = Some r" using eq E' by simp
      then show False using IH 1(2) by blast
    qed
  qed
  then show False using assms by blast
qed

end

subsection \<open>Properties\<close>

text \<open>
  C15: The first run stores the whole chain: with a node that answers, whose times are dates from 1970 to 9999, and a
  database that works, a task
  \<open>TASK_BLOCKGENSIS\<close> whose command is no positive number executes the statements of block 0, block 1
  and so on up to the best block at its start, each block with all its transactions, in this order
  and nothing else, and its height is then that best height.
\<close>

theorem first_run_stores:
  assumes "node E trace chain txs details best args0 rd"
    and "t_type task = TASK_BLOCKGENSIS" and "sint (atoi64 (t_command task)) \<le> 0"
    and "w_args w = args0" and "w_mp w = Some c" and "inited c \<noteq> 0"
  shows "\<exists>w'. task_call E task w =
      Some (Inr (0, task\<lparr>t_height := word_of_int (best (w_calls w))\<rparr>), w') \<and>
    trace (w_db w') = trace (w_db w) @
      concat (map (rows_of_block (e_db E) chain txs) [0..best (w_calls w)])"
proof -
  have "peer.ready args0 w" using assms(4-6) by (simp add: peer.ready_def [OF node.axioms(2) [OF assms(1)]])
  from node.call_gensis_eq [OF assms(1) this assms(3)] show ?thesis
    using assms(2) by (auto simp: task_call.simps)
qed

text \<open>
  C1: The thread follows the chain: started with one task for block \<open>n0\<close>, after any number of rounds
  there is an \<open>n\<close> such that exactly the blocks from \<open>n0\<close> to \<open>n - 1\<close> have been stored since the start,
  each once and completely, in order, and nothing else; the task asks for block \<open>n\<close> next, and no block
  was stored before the node had it. The node is as in \<open>steady_node\<close>: its chain only grows, its blocks are at most
  500000 seconds apart, and all times of blocks and transactions are dates from 1970 to 9999.
\<close>

theorem chain_followed:
  assumes "steady_node E trace chain txs details best args0 rd"
    and "s_tasks s = [t]" and "s_onceRun s = 0" and "t_type t = TASK_BLOCK_OR_TRANS"
    and "wanted t = word_of_int n0" and "1 \<le> n0" and "n0 < 2 ^ 31 - 1" and "wl_bktime l = 0"
    and "w_args w = args0" and "w_mp w = Some c" and "inited c \<noteq> 0"
    and "(work_step E)\<^sup>*\<^sup>* (s, l, w) (s', l', w')"
  shows "\<exists>n t'. n0 \<le> n \<and> (n = n0 \<or> n - 1 \<le> best (w_calls w')) \<and>
    s_tasks s' = [t'] \<and> wanted t' = word_of_int n \<and>
    trace (w_db w') = trace (w_db w) @ concat (map (rows_of_block (e_db E) chain txs) [n0..n - 1])"
proof -
  note nd = steady_node.axioms(1) [OF assms(1)]
  have "steady_node.stands E trace chain txs best args0 n0 (trace (w_db w)) n0 (s, l, w)"
    using assms(2-11) by (simp add: steady_node.stands_def [OF assms(1)] peer.ready_def [OF node.axioms(2) [OF nd]])
  from steady_node.stands_reachable [OF assms(1,12) this] obtain n where
    "n0 \<le> n" "steady_node.stands E trace chain txs best args0 n0 (trace (w_db w)) n (s', l', w')" by blast
  then show ?thesis by (auto simp: steady_node.stands_def [OF assms(1)])
qed

text \<open>
  C6: The thread makes progress and never stops: from every configuration it can get to, the next
  round ends in a sleep of at least zero milliseconds without an exception or undefined behaviour,
  and if the node has the next block, that round stores it; the loop never returns. The node is as in
  \<open>steady_node\<close>, with dates that can be written. Output is left out, and with it that of an indeterminate
  \<open>bktime\<close> in a first round that finds no block.
\<close>

theorem chain_progress:
  assumes "steady_node E trace chain txs details best args0 rd"
    and "s_tasks s = [t]" and "s_onceRun s = 0" and "t_type t = TASK_BLOCK_OR_TRANS"
    and "wanted t = word_of_int n0" and "1 \<le> n0" and "n0 < 2 ^ 31 - 1" and "wl_bktime l = 0"
    and "w_args w = args0" and "w_mp w = Some c" and "inited c \<noteq> 0"
    and "(work_step E)\<^sup>*\<^sup>* (s, l, w) (s', l', w')"
  shows "work_loop E s l w = None \<and>
    (\<exists>n t' ms s'' l'' w''. s_tasks s' = [t'] \<and> wanted t' = word_of_int n \<and>
      work_round E s' l' w' = Some (Inr (Slept ms, s'', l''), w'') \<and> 0 \<le> sint ms \<and>
      trace (w_db w'') = trace (w_db w') @
        (if n \<le> best (w_calls w') then rows_of_block (e_db E) chain txs n else []))"
proof -
  note nd = steady_node.axioms(1) [OF assms(1)]
  have st: "steady_node.stands E trace chain txs best args0 n0 (trace (w_db w)) n0 (s, l, w)"
    using assms(2-11) by (simp add: steady_node.stands_def [OF assms(1)] peer.ready_def [OF node.axioms(2) [OF nd]])
  from steady_node.stands_reachable [OF assms(1,12) st] obtain n where n: "n0 \<le> n"
    "steady_node.stands E trace chain txs best args0 n0 (trace (w_db w)) n (s', l', w')" by blast
  from steady_node.stands_round [OF assms(1) n(2)] obtain ms s'' l'' w'' where 1:
    "work_round E s' l' w' = Some (Inr (Slept ms, s'', l''), w'')" "0 \<le> sint ms"
    "steady_node.stands E trace chain txs best args0 n0 (trace (w_db w))
       (if n \<le> best (w_calls w') then n + 1 else n) (s'', l'', w'')" by blast
  have rows: "[n0..n] = [n0..n - 1] @ [n]" using n(1) by (simp add: upto_rec2)
  have "trace (w_db w'') = trace (w_db w') @
      (if n \<le> best (w_calls w') then rows_of_block (e_db E) chain txs n else [])"
    using 1(3) n(2) rows by (auto simp: steady_node.stands_def [OF assms(1)] split: if_splits)
  then show ?thesis
    using steady_node.work_loop_runs [OF assms(1) st] 1(1,2) n(2)
    by (auto simp: steady_node.stands_def [OF assms(1)])
qed

text \<open>
  C32: The sleep is bounded: for block times at most 500000 seconds apart, whatever the clock says, the
  computation has no overflow, and its result is not negative and is one second or at most 800 ms
  for every second between the blocks (64 seconds if that is less).
\<close>

theorem sleep_bounds:
  assumes "cur \<noteq> 0 \<longrightarrow> prev \<noteq> 0 \<longrightarrow> \<bar>sint cur - sint prev\<bar> \<le> 500000"
  shows "\<exists>ms. sleep_diff cur prev t1 t2 = Inr ms \<and> 0 \<le> sint ms \<and>
    (ms = 1000 \<or> sint ms \<le> 800 * max 64 (sint cur - sint prev))"
  using sleep_diff_bounds [OF assms] by (simp add: adjusttime_def)

theorem sleep_bounds_witness: "\<exists>ms. sleep_diff 1500000128 1500000000 10 40 = Inr ms \<and> sint ms \<le> 102400"
proof -
  have "\<exists>ms. sleep_diff 1500000128 1500000000 10 40 = Inr ms \<and> 0 \<le> sint ms \<and>
      (ms = 1000 \<or> sint ms \<le> 800 * max 64 (sint (1500000128 :: int32) - sint (1500000000 :: int32)))"
    by (rule sleep_bounds) simp
  then show ?thesis by auto
qed

end
