(* ===== verification/Unseen.thy ===== *)
theory Unseen
  imports Following
begin

section \<open>What the schedule sees of the database\<close>

text \<open>
  Two runs with the same peers, clock and calendar, on two databases, which may be anything: connected
  once, the database is not seen by the schedule. Every operation has the same result for the
  tasks on both, for the results of the insertions are dropped.
\<close>

definition connected :: "'d world \<Rightarrow> bool" where
  "connected w \<longleftrightarrow> (\<exists>c. w_mp w = Some c \<and> inited c \<noteq> 0)"

definition seen :: "'d world \<Rightarrow> 'e world \<Rightarrow> bool" where
  "seen w v \<longleftrightarrow> w_args v = w_args w \<and> w_calls v = w_calls w \<and> w_ticks v = w_ticks w \<and>
     w_sequence v = w_sequence w \<and> connected w \<and> connected v"

definition same_peers :: "'d env \<Rightarrow> 'e env \<Rightarrow> bool" where
  "same_peers E F \<longleftrightarrow> e_rpc F = e_rpc E \<and> e_clock F = e_clock E \<and> db_date (e_db F) = db_date (e_db E)"

lemma same_peers_sym: "same_peers E F \<Longrightarrow> same_peers F E"
  by (simp add: same_peers_def)

lemma seen_sym: "seen w v \<Longrightarrow> seen v w"
  by (simp add: seen_def)

text \<open>Actions with related results.\<close>

definition alike :: "('a \<Rightarrow> 'b \<Rightarrow> bool) \<Rightarrow> ('d, 'a) act \<Rightarrow> ('e, 'b) act \<Rightarrow> bool" where
  "alike R m n \<longleftrightarrow> (\<forall>w v. seen w v \<longrightarrow> rel_option (rel_prod (rel_sum (=) R) seen) (m w) (n v))"

abbreviation ignored :: "'a \<Rightarrow> 'b \<Rightarrow> bool" where
  "ignored x y \<equiv> True"

named_theorems alike_intros

lemma alike_ret: "R x y \<Longrightarrow> alike R (retA x) (retA y)"
  by (simp add: alike_def retA_def)

lemma alike_same [alike_intros]: "alike (=) (retA x) (retA x)" "alike (=) (liftR r) (liftR r)"
  by (auto simp: alike_def retA_def liftR_def intro: sum.rel_refl)

lemma alike_bind:
  fixes m :: "('d, 'a) act" and n :: "('e, 'b) act"
  assumes "alike R m n" and "\<And>x y. R x y \<Longrightarrow> alike S (f x) (g y)"
  shows "alike S (bindA m f) (bindA n g)"
  unfolding alike_def
proof (intro allI impI)
  fix w :: "'d world" and v :: "'e world"
  assume "seen w v"
  with assms(1) have "rel_option (rel_prod (rel_sum (=) R) seen) (m w) (n v)" by (simp add: alike_def)
  then show "rel_option (rel_prod (rel_sum (=) S) seen) (bindA m f w) (bindA n g v)"
  proof (cases rule: option.rel_cases)
    case (Some a b)
    obtain r w1 q v1 where ab: "a = (r, w1)" "b = (q, v1)" by (cases a, cases b)
    have "rel_sum (=) R r q" and 1: "seen w1 v1" using Some(3) by (simp_all add: ab)
    then show ?thesis
    proof (cases rule: rel_sum.cases)
      case (2 x y)
      have "alike S (f x) (g y)" by (rule assms(2)) (rule 2(3))
      then show ?thesis using 1 by (simp add: bindA_def Some ab 2 alike_def)
    qed (simp add: bindA_def Some ab 1)
  qed (simp add: bindA_def)
qed

lemma alike_bind_same [alike_intros]:
  "alike (=) m n \<Longrightarrow> (\<And>x. alike S (f x) (g x)) \<Longrightarrow> alike S (bindA m f) (bindA n g)"
  by (rule alike_bind [where R = "(=)"]) auto

lemma alike_bind_ignored:
  "alike ignored m n \<Longrightarrow> alike S m' n' \<Longrightarrow> alike S (bindA m (\<lambda>_. m')) (bindA n (\<lambda>_. n'))"
  by (rule alike_bind)

lemma alike_weaken: "alike R m n \<Longrightarrow> (\<And>x y. R x y \<Longrightarrow> S x y) \<Longrightarrow> alike S m n"
  unfolding alike_def by (blast intro: option.rel_mono_strong prod.rel_mono_strong sum.rel_mono_strong)

lemma alike_fold:
  assumes "\<And>x s t. R s t \<Longrightarrow> alike R (f x s) (g x t)" and "R s t"
  shows "alike R (foldA f xs s) (foldA g xs t)"
  using assms(2)
proof (induction xs arbitrary: s t)
  case Nil
  then show ?case by (simp add: alike_ret)
next
  case (Cons x xs)
  show ?case unfolding foldA.simps by (rule alike_bind [OF assms(1) [OF Cons.prems] Cons.IH])
qed

lemma alike_fold_same [alike_intros]:
  "(\<And>x s. alike (=) (f x s) (g x s)) \<Longrightarrow> alike (=) (foldA f xs s) (foldA g xs s)"
  by (rule alike_fold) auto

text \<open>The calls.\<close>

lemma alike_calls [alike_intros]:
  assumes "same_peers E F"
  shows "alike (=) (call_rpc E m ps) (call_rpc F m ps)"
    and "alike (=) (convert_params E m ss) (convert_params F m ss)"
    and "alike (=) (split_words E s) (split_words F s)"
    and "alike (=) (read_clock E) (read_clock F)"
  using assms
  by (auto simp: alike_def call_rpc_def convert_params_def split_words_def read_clock_def retA_def liftO_def
      next_rpc_def same_peers_def seen_def connected_def option.rel_map
      intro!: option.rel_refl_strong sum.rel_refl)

text \<open>An insertion throws on both or on none, for what it throws comes from the dates.\<close>

lemma same_dates:
  assumes "same_peers E F"
  shows "block_date (e_db F) b = block_date (e_db E) b" and "tx_dates (e_db F) tx = tx_dates (e_db E) tx"
  using assms by (simp_all add: same_peers_def block_date_def tx_dates_def split: option.split)

lemma inserted_alike:
  assumes "same_peers E F"
  shows "rel_sum (=) ignored (fst (insertBlock (e_db E) b d)) (fst (insertBlock (e_db F) b d'))"
    and "rel_sum (=) ignored (fst (insertTx (e_db E) tx d)) (fst (insertTx (e_db F) tx d'))"
  by (simp_all add: insertBlock_def insertTx_def same_dates [OF assms] split: sum.split)

lemma alike_insert [alike_intros]:
  assumes "same_peers E F"
  shows "alike ignored (db_insertTx E tx) (db_insertTx F tx)"
    and "alike ignored (db_insertBk E b) (db_insertBk F b)"
  using inserted_alike [OF assms]
  by (auto simp: alike_def db_insertTx_def db_insertBk_def with_db_def initDb_def initDb_with_def getinitance_def
      seen_def connected_def split: prod.split) (metis fst_conv)+

lemma alike_command [alike_intros]:
  assumes "same_peers E F"
  shows "alike (=) (call_command E cmd) (call_command F cmd)"
  unfolding call_command_def Let_def switchParams_def callRPC_def
  by (auto intro!: alike_intros assms split: prod.split sum.split)

lemma alike_handler [alike_intros]:
  assumes "same_peers E F"
  shows "alike (=) (getBlockCount E h) (getBlockCount F h)"
    and "alike (=) (getTransaction E txid h) (getTransaction F txid h)"
    and "alike (=) (getBlockByNumber E n h) (getBlockByNumber F n h)"
    and "alike (=) (get_transactions E ids h) (get_transactions F ids h)"
  unfolding getBlockCount_def getTransaction_def getBlockByNumber_def get_transactions_def Let_def
  by (auto intro!: alike_intros assms split: prod.split sum.split)

text \<open>The results of the insertions differ; only that they return is alike.\<close>

lemma alike_insertions [alike_intros]:
  assumes "same_peers E F"
  shows "alike ignored (insertDBBlock E h) (insertDBBlock F h)"
    and "alike ignored (insertDBTrans E h) (insertDBTrans F h)"
    and "alike ignored (insertDBBlockTrans E h) (insertDBBlockTrans F h)"
proof -
  show b: "alike ignored (insertDBBlock E h) (insertDBBlock F h)"
    unfolding insertDBBlock_def by (auto intro: alike_insert assms alike_ret)
  have "alike ignored (insert_one E tx r) (insert_one F tx q)" for tx r q
    unfolding insert_one_def by (auto intro!: alike_bind [OF alike_insert(1)] assms alike_ret)
  then show t: "alike ignored (insertDBTrans E h) (insertDBTrans F h)"
    unfolding insertDBTrans_def by (intro alike_fold) auto
  show "alike ignored (insertDBBlockTrans E h) (insertDBBlockTrans F h)"
    unfolding insertDBBlockTrans_def by (intro alike_bind_ignored b t alike_ret) simp
qed

lemma alike_task [alike_intros]:
  assumes "same_peers E F"
  shows "alike (=) (task_call E t) (task_call F t)"
proof -
  note tail = alike_bind_ignored [OF alike_insertions(1)] alike_bind_ignored [OF alike_insertions(2)]
    alike_bind_ignored [OF alike_insertions(3)]
  note tail = tail [OF assms]
  have g: "alike (=) (gensis_block E i h) (gensis_block F i h)" for i h
    unfolding gensis_block_def by (auto intro!: tail alike_intros assms split: prod.split sum.split)
  have "alike (=) (call_gensis E t) (call_gensis F t)" "alike (=) (call_block E t) (call_block F t)"
    "alike (=) (call_transaction E t) (call_transaction F t)"
    "alike (=) (call_block_or_trans E t) (call_block_or_trans F t)"
    unfolding call_gensis_def call_block_def call_transaction_def call_block_or_trans_def Let_def
    by (auto intro!: tail alike_intros g assms split: prod.split sum.split)
  then show ?thesis
    by (cases "t_type t") (simp_all add: task_call.simps alike_same)
qed

lemma alike_work_tasks [alike_intros]:
  assumes "same_peers E F"
  shows "alike (=) (work_tasks E ts loc) (work_tasks F ts loc)"
proof (induction ts arbitrary: loc)
  case (Cons t ts)
  show ?case
    unfolding work_tasks.simps work_task_def by (auto intro!: alike_intros Cons assms split: prod.split sum.split)
qed (simp add: alike_same)

lemma alike_round:
  assumes "same_peers E F"
  shows "alike (=) (work_round E s l) (work_round F s l)"
  unfolding work_round_def after_tasks_def by (auto intro!: alike_intros assms split: prod.split sum.split)

lemma round_unseen:
  assumes "same_peers E F" and "seen w v" and "work_round E s l w = Some (r, w')"
  shows "\<exists>v'. work_round F s l v = Some (r, v') \<and> seen w' v'"
proof -
  have "rel_option (rel_prod (rel_sum (=) (=)) seen) (work_round E s l w) (work_round F s l v)"
    using alike_round [OF assms(1)] assms(2) unfolding alike_def by blast
  then show ?thesis
    unfolding assms(3) sum.rel_eq by (auto simp: option_rel_Some1)
qed

text \<open>
  C9: Once connected, the schedule does not see the database: in two processes with the same node,
  the same clock and the same calendar, whatever their databases do with the statements, every run of the thread on one
  is a run on the other, with the same tasks and heights in every step. So a block that the database refuses
  is passed over like one it stores.
\<close>

theorem database_unseen:
  assumes "same_peers E F" and "seen w v" and "(work_step E)\<^sup>*\<^sup>* (s, l, w) (s', l', w')"
  shows "\<exists>v'. (work_step F)\<^sup>*\<^sup>* (s, l, v) (s', l', v') \<and> seen w' v'"
proof -
  have "\<exists>v'. (work_step F)\<^sup>*\<^sup>* (s, l, v) (fst c, fst (snd c), v') \<and> seen (snd (snd c)) v'"
    if "(work_step E)\<^sup>*\<^sup>* (s, l, w) c" for c
    using that
  proof (induction rule: rtranclp_induct)
    case base
    then show ?case using assms(2) by auto
  next
    case (step c1 c2)
    obtain s1 l1 w1 s2 l2 w2 where c: "c1 = (s1, l1, w1)" "c2 = (s2, l2, w2)" by (metis prod_cases3)
    obtain v1 where v1: "(work_step F)\<^sup>*\<^sup>* (s, l, v) (s1, l1, v1)" "seen w1 v1" using step.IH by (auto simp: c)
    obtain ms where "work_round E s1 l1 w1 = Some (Inr (Slept ms, s2, l2), w2)"
      using step.hyps(2) by (auto simp: c work_step_iff)
    from round_unseen [OF assms(1) v1(2) this] obtain v2 where
      "work_round F s1 l1 v1 = Some (Inr (Slept ms, s2, l2), v2)" "seen w2 v2" by blast
    then show ?case using v1(1) by (auto simp: c work_step_iff intro!: exI [of _ v2] rtranclp.rtrancl_into_rtrancl [OF v1(1)])
  qed
  from this [OF assms(3)] show ?thesis by simp
qed

end
