(* ===== verification/Program.thy ===== *)
theory Program
  imports Following
begin

section \<open>The program (main.cc, thread.h)\<close>

text \<open>
  The start of the process: the configuration, the first run on an empty database, and the schedule
  whose thread follows the chain. A thread that is started runs the \<open>work\<close> of its schedule; the
  thread of the first run is over before the main thread goes on, for the height the main thread
  waits for is written when the task is done. An exception in a thread ends the process.
\<close>

subsection \<open>The thread object\<close>

text \<open>\<open>th_thread\<close>: a \<open>boost::thread\<close> was made; \<open>th_running\<close> is set by the thread itself, in \<open>doWork\<close>.\<close>

record Thread =
  th_thread :: bool
  th_running :: int32

definition new_thread :: Thread where
  "new_thread = \<lparr>th_thread = False, th_running = 0\<rparr>"

definition thread_run :: "Thread \<Rightarrow> Thread" where
  "thread_run th = th\<lparr>th_thread := True\<rparr>"

definition doWork :: "Thread \<Rightarrow> Thread" where
  "doWork th = th\<lparr>th_running := 1\<rparr>"

definition working :: "Thread \<Rightarrow> int32" where
  "working th = th_running th"

text \<open>The result, and whether the object was deleted.\<close>

definition deleteThreadSafe :: "Thread option \<Rightarrow> int32 \<times> bool" where
  "deleteThreadSafe thd = (case thd of None \<Rightarrow> (0, False)
     | Some th \<Rightarrow> if working th \<noteq> 0 then (1, True) else (0, False))"

subsection \<open>The configuration\<close>

text \<open>The files are returned, for without an argument the default configuration is written.\<close>

definition initConfig :: "('p, 'f) ptree_ops \<Rightarrow> 'f \<Rightarrow> string list \<Rightarrow> args \<Rightarrow> (int32 \<times> 'f \<times> args) res" where
  "initConfig pt files argv mapArgs =
     (if length argv \<noteq> 2 then
        bindR (generate_defaultfidconfig pt files) (\<lambda>files. Inr (- 1, files, mapArgs))
      else bindR (parse_fidconfig pt files (argv ! 1) mapArgs) (\<lambda>(r, m). Inr (r, files, m)))"

subsection \<open>The first run\<close>

definition once :: int32 where
  "once = 1"

text \<open>\<open>myDB = getinitance(); myDB->initDb(); height = myDB->queryBlockCount()\<close>\<close>

definition init_db :: "'d env \<Rightarrow> ('d, int32) act" where
  "init_db E w =
     (case initDb (e_db E) (w_args w) (getinitance (w_mp w)) (w_db w) of
        (r, c, d) \<Rightarrow> Some (r, w\<lparr>w_mp := Some c, w_db := d\<rparr>))"

definition block_count :: "'d env \<Rightarrow> ('d, int32) act" where
  "block_count E w = (case queryBlockCount (e_db E) (w_db w) of (r, d) \<Rightarrow> Some (r, w\<lparr>w_db := d\<rparr>))"

text \<open>The waiting loop, once the thread is done: it does not end if the height is still -1.\<close>

definition wait_height :: "int32 \<Rightarrow> CFidTaskSchedule \<Rightarrow> ('d, int32) act" where
  "wait_height seq s w =
     (if t_height (getTask seq s) = - 1 then None else Some (Inr (t_height (getTask seq s)), w))"

text \<open>The result of \<open>initGensisBlock\<close> and the global \<open>height\<close>.\<close>

definition initGensisBlock :: "'d env \<Rightarrow> ('d, int32 \<times> int32) act" where
  "initGensisBlock E =
     bindA (init_db E) (\<lambda>_.
     bindA (block_count E) (\<lambda>height.
       if sint height > 0 then bindA (liftR (succ_height height)) (\<lambda>height. retA (height, height))
       else
         bindA (liftR (i64tostr (scast height))) (\<lambda>command.
         bindA (registerTask TASK_BLOCKGENSIS (c_str command) (new_schedule once)) (\<lambda>(seq, sched).
         bindA (work E sched) (\<lambda>sched.
         bindA (wait_height seq sched) (\<lambda>h.
         bindA (liftR (succ_height h)) (\<lambda>height. retA (0, height))))))))"

subsection \<open>main\<close>

datatype 'f main_outcome = Exited int32 'f | Running int32 int32 CFidTaskSchedule work_locals

text \<open>
  \<open>main\<close> up to its last loop: the height, the number of the task, and the thread of the schedule as
  it enters its loop.
\<close>

definition start_following :: "'d env \<Rightarrow> int32 \<Rightarrow> ('d, 'f main_outcome) act" where
  "start_following E height =
     bindA (liftR (i64tostr (scast height))) (\<lambda>command.
     bindA (registerTask TASK_BLOCK_OR_TRANS (c_str command) (new_schedule 0)) (\<lambda>(seq, sched).
     bindA (work_start E) (\<lambda>l. retA (Running height seq sched l))))"

definition main_start :: "('p, 'f) ptree_ops \<Rightarrow> 'f \<Rightarrow> string list \<Rightarrow> 'd env \<Rightarrow> ('d, 'f main_outcome) act" where
  "main_start pt files argv E w =
     (case initConfig pt files argv (w_args w) of
        Inl e \<Rightarrow> Some (Inl e, w)
      | Inr (r, files, m) \<Rightarrow>
          let w = w\<lparr>w_args := m\<rparr> in
          if r = - 1 then Some (Inr (Exited 1 files), w)
          else bindA (initGensisBlock E) (\<lambda>(_, height). start_following E height) w)"

text \<open>A turn of the last loop: the height it keeps and prints.\<close>

definition main_poll :: "int32 \<Rightarrow> CFidTaskSchedule \<Rightarrow> int32 \<Rightarrow> int32" where
  "main_poll seq sched height =
     (if t_height (getTask seq sched) = - 1 then height else t_height (getTask seq sched))"

subsection \<open>Registered tasks\<close>

lemma registerTask_eq:
  assumes "sint (w_sequence w) < 2 ^ 31 - 1"
  shows "registerTask ty command s w =
    Some (Inr (w_sequence w, s\<lparr>s_tasks := s_tasks s @ [(new_task_for ty command)\<lparr>t_sequence := w_sequence w\<rparr>]\<rparr>),
      w\<lparr>w_sequence := w_sequence w + 1\<rparr>)"
  using assms by (simp add: registerTask_def getSeq_def bindA_def retA_def Let_def)

lemma i64tostr_widen: "i64tostr (scast (h :: int32)) = Inr (dec_int (sint h))"
  by (simp add: i64tostr_dec)

lemma dec_int_c_str [simp]: "c_str (dec_int i) = dec_int i"
  by (rule c_str_no_nul) (rule dec_int_not_in; simp)

subsection \<open>The number of the next task\<close>

text \<open>Nothing but registering a task changes it.\<close>

definition same_sequence :: "('d, 'a) act \<Rightarrow> bool" where
  "same_sequence m \<longleftrightarrow> (\<forall>w r w'. m w = Some (r, w') \<longrightarrow> w_sequence w' = w_sequence w)"

named_theorems sequence_intros

lemma same_sequence_ret [sequence_intros]: "same_sequence (retA x)" "same_sequence (liftR r)"
  by (simp_all add: same_sequence_def retA_def liftR_def)

lemma same_sequence_bind [sequence_intros]:
  "same_sequence m \<Longrightarrow> (\<And>x. same_sequence (f x)) \<Longrightarrow> same_sequence (bindA m f)"
  unfolding same_sequence_def bindA_def
  by (auto split: option.splits sum.splits prod.splits)

lemma same_sequence_fold [sequence_intros]:
  "(\<And>x s. same_sequence (f x s)) \<Longrightarrow> same_sequence (foldA f xs s)"
proof (induction xs arbitrary: s)
  case Nil
  then show ?case by (simp add: sequence_intros)
next
  case (Cons x xs)
  then show ?case unfolding foldA.simps by (intro same_sequence_bind) auto
qed

lemma same_sequence_calls [sequence_intros]:
  "same_sequence (call_rpc E m ps)" "same_sequence (convert_params E m ss)" "same_sequence (split_words E s)"
  "same_sequence (read_clock E)" "same_sequence (with_db i f)" "same_sequence (db_insertTx E tx)"
  unfolding same_sequence_def call_rpc_def convert_params_def split_words_def read_clock_def with_db_def
    db_insertTx_def liftO_def retA_def
  by (auto split: sum.splits prod.splits)

lemma same_sequence_command [sequence_intros]: "same_sequence (call_command E cmd)"
  unfolding call_command_def Let_def switchParams_def callRPC_def
  by (auto intro!: sequence_intros split: prod.split sum.split)

lemma same_sequence_handler [sequence_intros]:
  "same_sequence (getBlockCount E h)" "same_sequence (getTransaction E txid h)"
  "same_sequence (getBlockByNumber E n h)" "same_sequence (insertDBBlock E h)" "same_sequence (insertDBTrans E h)"
  unfolding getBlockCount_def getTransaction_def getBlockByNumber_def insertDBBlock_def insertDBTrans_def
    insert_one_def db_insertBk_def Let_def
  by (auto intro!: sequence_intros split: prod.split sum.split)

lemma same_sequence_gensis: "same_sequence (call_gensis E task)"
  unfolding call_gensis_def gensis_block_def get_transactions_def Let_def
  by (auto intro!: sequence_intros split: prod.split sum.split)

text \<open>The task of the first run.\<close>

definition first_task :: "int32 \<Rightarrow> CFidTask" where
  "first_task seq = (new_task_for TASK_BLOCKGENSIS (dec_int 0))\<lparr>t_sequence := seq\<rparr>"

lemma first_task_simps [simp]:
  "t_type (first_task q) = TASK_BLOCKGENSIS" "t_status (first_task q) = 0" "t_height (first_task q) = - 1"
  "sint (atoi64 (t_command (first_task q))) \<le> 0" "t_sequence (first_task q) = q"
  using atoi64_dec [of 0] by (simp_all add: first_task_def new_task_for_def new_task_def)

subsection \<open>Starting with a node and a database that work\<close>

context node
begin

lemma init_db_ready:
  assumes "w_args w = args0" and "\<forall>a b u p port d. fst (db_connect (e_db E) a b u p port d) = Inr True"
  shows "\<exists>r w'. init_db E w = Some (Inr r, w') \<and> ready w' \<and> trace (w_db w') = trace (w_db w) \<and>
    w_calls w' = w_calls w \<and> w_sequence w' = w_sequence w"
proof -
  obtain r c d where 1: "initDb (e_db E) (w_args w) (getinitance (w_mp w)) (w_db w) = (r, c, d)"
    by (metis prod_cases3)
  have "(\<exists>i. r = Inr i) \<and> inited c \<noteq> 0 \<and> trace d = trace (w_db w)"
  proof (cases "inited (getinitance (w_mp w)) = 0")
    case True
    let ?d = "db_set_option (e_db E) ''gbk'' (w_db w)"
    let ?c = "db_connect (e_db E) (c_str (get_fidconfig args0 ''-database''))
        (c_str (get_fidconfig args0 ''-dburl'')) (c_str (get_fidconfig args0 ''-dbname''))
        (c_str (get_fidconfig args0 ''-dbpasswd'')) (atoi (get_fidconfig args0 ''-dbport'')) ?d"
    have t: "trace (snd ?c) = trace (w_db w)" by (simp add: trace_connect trace_set_option)
    obtain d' where d': "?c = (Inr True, d')" using assms(2) by (metis prod.collapse)
    then show ?thesis
      using 1 t True unfolding initDb_def assms(1) d' by (auto simp: finish_connect_def)
  next
    case False
    then show ?thesis using 1 by (auto simp: initDb_def)
  qed
  then show ?thesis using assms(1) by (auto simp: init_db_def 1 ready_def)
qed

lemma block_count_eq:
  assumes "ready w" and "\<forall>d. trace d = trace (w_db w) \<longrightarrow> fst (queryBlockCount (e_db E) d) = Inr c"
  shows "\<exists>w'. block_count E w = Some (Inr c, w') \<and> ready w' \<and> trace (w_db w') = trace (w_db w) \<and>
    w_calls w' = w_calls w \<and> w_sequence w' = w_sequence w"
proof -
  have "trace (snd (queryBlockCount (e_db E) (w_db w))) = trace (w_db w)"
    using trace_store [of "''select count(*) from block''" "w_db w"]
    by (auto simp: queryBlockCount_def split: prod.split sum.split option.split)
  moreover obtain d where "queryBlockCount (e_db E) (w_db w) = (Inr c, d)"
    using assms(2) by (metis prod.collapse)
  ultimately show ?thesis using assms(1) by (auto simp: block_count_def ready_def)
qed

text \<open>The thread of the first run does its task and ends.\<close>

lemma work_gensis:
  assumes "ready w" and "s_tasks s = [t]" and "s_onceRun s \<noteq> 0" and "t_type t = TASK_BLOCKGENSIS"
    and "t_status t \<noteq> 1" and "sint (atoi64 (t_command t)) \<le> 0"
  shows "\<exists>w'. work E s w = Some (Inr (s\<lparr>s_tasks := [t\<lparr>t_height := word_of_int (best (w_calls w))\<rparr>]\<rparr>), w') \<and>
    ready w' \<and> w_sequence w' = w_sequence w \<and>
    trace (w_db w') = trace (w_db w) @ concat (map block_rows [0..best (w_calls w)])"
proof -
  have t: "task_call E t = call_gensis E t" by (simp add: task_call.simps assms(4))
  obtain w1 l where w1: "work_start E w = Some (Inr l, w1)" "ready w1" "w_calls w1 = w_calls w"
    "w_db w1 = w_db w" "w_sequence w1 = w_sequence w"
    using assms(1) by (auto simp: work_start_def bindA_def read_clock_def retA_def ready_def)
  let ?t = "t\<lparr>t_height := word_of_int (best (w_calls w))\<rparr>"
  obtain w2 where w2: "call_gensis E t w1 = Some (Inr (0, ?t), w2)" "ready w2"
    "trace (w_db w2) = trace (w_db w1) @ concat (map block_rows [0..best (w_calls w1)])"
    using call_gensis_eq [OF w1(2) assms(6)] w1(3) by auto
  have sq: "w_sequence w2 = w_sequence w1" using same_sequence_gensis [of E t] w2(1) unfolding same_sequence_def by blast
  have "work_task E t (Some 0, False) w1 = Some (Inr (?t, Some 0, True), w2)"
    using w2(1) assms(5) by (simp add: work_task_def write_back_def t bindA_def retA_def liftR_def)
  then have "work_tasks E (s_tasks s) (Some 0, False) w1 = Some (Inr ([?t], Some 0, True), w2)"
    unfolding assms(2) by (rule work_tasks_one)
  then have "work_round E s l w1 = Some (Inr (Left, s\<lparr>s_tasks := [?t]\<rparr>, l), w2)"
    using assms(3) by (simp add: work_round_def after_tasks_def bindA_def retA_def)
  then have "work_loop E s l w1 = Some (Inr (s\<lparr>s_tasks := [?t]\<rparr>), w2)"
    by (subst work_loop.simps) simp
  then have "work E s w = Some (Inr (s\<lparr>s_tasks := [?t]\<rparr>), w2)"
    using w1(1) by (simp add: work_def bindA_def)
  then show ?thesis using w1 w2 sq by auto
qed

text \<open>On an empty database the task of the first run is registered.\<close>

lemma fresh_registered:
  assumes "w_args w = args0" and "\<forall>a b u p port d. fst (db_connect (e_db E) a b u p port d) = Inr True"
    and "\<forall>d. trace d = trace (w_db w) \<longrightarrow> fst (queryBlockCount (e_db E) d) = Inr 0"
    and "sint (w_sequence w) < 2 ^ 31 - 2"
  shows "\<exists>r w1 w2 w3. init_db E w = Some (Inr r, w1) \<and> block_count E w1 = Some (Inr 0, w2) \<and>
    registerTask TASK_BLOCKGENSIS (dec_int 0) (new_schedule once) w2 =
      Some (Inr (w_sequence w, (new_schedule once)\<lparr>s_tasks := [first_task (w_sequence w)]\<rparr>), w3) \<and>
    ready w3 \<and> trace (w_db w3) = trace (w_db w) \<and> w_calls w3 = w_calls w \<and> w_sequence w3 = w_sequence w + 1"
proof -
  let ?q = "w_sequence w"
  obtain r w1 where w1: "init_db E w = Some (Inr r, w1)" "ready w1" "trace (w_db w1) = trace (w_db w)"
    "w_calls w1 = w_calls w" "w_sequence w1 = ?q" using init_db_ready [OF assms(1,2)] by blast
  have "\<forall>d. trace d = trace (w_db w1) \<longrightarrow> fst (queryBlockCount (e_db E) d) = Inr 0"
    using assms(3) w1(3) by simp
  then obtain w2 where w2: "block_count E w1 = Some (Inr 0, w2)" "ready w2" "trace (w_db w2) = trace (w_db w)"
    "w_calls w2 = w_calls w" "w_sequence w2 = ?q" using block_count_eq [OF w1(2)] w1(3-5) by auto
  have "registerTask TASK_BLOCKGENSIS (dec_int 0) (new_schedule once) w2 =
      Some (Inr (?q, (new_schedule once)\<lparr>s_tasks := [first_task ?q]\<rparr>), w2\<lparr>w_sequence := ?q + 1\<rparr>)"
    using registerTask_eq [of w2 TASK_BLOCKGENSIS "dec_int 0" "new_schedule once"] assms(4) w2(5)
    by (simp add: first_task_def new_schedule_def)
  then show ?thesis using w1(1) w2 by (auto simp: ready_def)
qed

text \<open>The first run on an empty database, and none on another.\<close>

lemma initGensisBlock_fresh:
  assumes "w_args w = args0" and "\<forall>a b u p port d. fst (db_connect (e_db E) a b u p port d) = Inr True"
    and "\<forall>d. trace d = trace (w_db w) \<longrightarrow> fst (queryBlockCount (e_db E) d) = Inr 0"
    and "sint (w_sequence w) < 2 ^ 31 - 2"
  shows "\<exists>w'. initGensisBlock E w = Some (Inr (0, word_of_int (best (w_calls w) + 1)), w') \<and> ready w' \<and>
    w_sequence w' = w_sequence w + 1 \<and>
    trace (w_db w') = trace (w_db w) @ concat (map block_rows [0..best (w_calls w)])"
proof -
  let ?b = "best (w_calls w)" and ?q = "w_sequence w" and ?t = "first_task (w_sequence w)"
  let ?s = "(new_schedule once)\<lparr>s_tasks := [?t]\<rparr>"
  obtain r w1 w2 w3 where w3: "init_db E w = Some (Inr r, w1)" "block_count E w1 = Some (Inr 0, w2)"
    "registerTask TASK_BLOCKGENSIS (dec_int 0) (new_schedule once) w2 = Some (Inr (?q, ?s), w3)"
    "ready w3" "trace (w_db w3) = trace (w_db w)" "w_calls w3 = w_calls w" "w_sequence w3 = ?q + 1"
    using fresh_registered [OF assms] by auto
  obtain w4 where w4: "work E ?s w3 = Some (Inr (?s\<lparr>s_tasks := [?t\<lparr>t_height := word_of_int ?b\<rparr>]\<rparr>), w4)"
    "ready w4" "w_sequence w4 = ?q + 1" "trace (w_db w4) = trace (w_db w) @ concat (map block_rows [0..?b])"
    using work_gensis [of w3 ?s ?t] w3(4-7) by (auto simp: new_schedule_def once_def)
  have b: "sint (word_of_int ?b :: int32) = ?b" "?b + 1 < 2 ^ 31" "0 \<le> ?b"
    using best_range [of "w_calls w"] by (simp_all add: sint32_of_int)
  have ne: "(word_of_int ?b :: int32) \<noteq> - 1" using b by (metis neg_0_le_iff_le not_one_le_zero sint_n1)
  have h: "succ_height (word_of_int ?b) = Inr (word_of_int (?b + 1))"
    using b by (simp add: succ_height_def int_arith_def)
  have wait: "wait_height ?q (?s\<lparr>s_tasks := [?t\<lparr>t_height := word_of_int ?b\<rparr>]\<rparr>) w4 = Some (Inr (word_of_int ?b), w4)"
    using ne by (simp add: wait_height_def getTask_def)
  have "initGensisBlock E w = Some (Inr (0, word_of_int (?b + 1)), w4)"
    using w3(1-3) w4(1) wait h i64tostr_widen [of 0]
    by (simp add: initGensisBlock_def bindA_def liftR_def retA_def)
  then show ?thesis using w4 by auto
qed

lemma initGensisBlock_again:
  assumes "w_args w = args0" and "\<forall>a b u p port d. fst (db_connect (e_db E) a b u p port d) = Inr True"
    and "\<forall>d. trace d = trace (w_db w) \<longrightarrow> fst (queryBlockCount (e_db E) d) = Inr c"
    and "0 < sint c" and "sint c < 2 ^ 31 - 1"
  shows "\<exists>w'. initGensisBlock E w = Some (Inr (word_of_int (sint c + 1), word_of_int (sint c + 1)), w') \<and> ready w' \<and>
    w_sequence w' = w_sequence w \<and> trace (w_db w') = trace (w_db w)"
proof -
  obtain r w1 where w1: "init_db E w = Some (Inr r, w1)" "ready w1" "trace (w_db w1) = trace (w_db w)"
    "w_sequence w1 = w_sequence w" using init_db_ready [OF assms(1,2)] by blast
  have "\<forall>d. trace d = trace (w_db w1) \<longrightarrow> fst (queryBlockCount (e_db E) d) = Inr c"
    using assms(3) w1(3) by simp
  then obtain w2 where w2: "block_count E w1 = Some (Inr c, w2)" "ready w2" "trace (w_db w2) = trace (w_db w)"
    "w_sequence w2 = w_sequence w" using block_count_eq [OF w1(2)] w1(3,4) by auto
  have "succ_height c = Inr (word_of_int (sint c + 1))" using assms(4,5) by (simp add: succ_height_def int_arith_def)
  then have "initGensisBlock E w = Some (Inr (word_of_int (sint c + 1), word_of_int (sint c + 1)), w2)"
    using w1(1) w2(1) assms(4) by (simp add: initGensisBlock_def bindA_def liftR_def retA_def)
  then show ?thesis using w2 by auto
qed

lemma start_following_eq:
  assumes "ready w" and "1 \<le> n0" and "n0 < 2 ^ 31 - 1" and "sint (w_sequence w) < 2 ^ 31 - 1"
  shows "\<exists>sched l w' t. start_following E (word_of_int n0) w =
      Some (Inr (Running (word_of_int n0) (w_sequence w) sched l), w') \<and> ready w' \<and>
    trace (w_db w') = trace (w_db w) \<and> s_tasks sched = [t] \<and> s_onceRun sched = 0 \<and>
    t_type t = TASK_BLOCK_OR_TRANS \<and> wanted t = word_of_int n0 \<and> wl_bktime l = 0"
proof -
  let ?cmd = "dec_int n0"
  define t where "t = (new_task_for TASK_BLOCK_OR_TRANS ?cmd)\<lparr>t_sequence := w_sequence w\<rparr>"
  let ?w1 = "w\<lparr>w_sequence := w_sequence w + 1\<rparr>"
  have n: "sint (word_of_int n0 :: int32) = n0" "sint (word_of_int n0 :: int64) = n0"
    using assms(2,3) by (simp_all add: sint32_of_int sint64_of_int)
  have cmd: "i64tostr (scast (word_of_int n0 :: int32)) = Inr ?cmd"
    using i64tostr_widen [of "word_of_int n0"] n by simp
  have reg: "registerTask TASK_BLOCK_OR_TRANS ?cmd (new_schedule 0) w =
      Some (Inr (w_sequence w, (new_schedule 0)\<lparr>s_tasks := [t]\<rparr>), ?w1)"
    using registerTask_eq [OF assms(4), of TASK_BLOCK_OR_TRANS ?cmd "new_schedule 0"]
    by (simp add: t_def new_schedule_def)
  have "wanted t = word_of_int n0"
    using atoi64_dec [of "word_of_int n0"] n by (simp add: wanted_def t_def new_task_for_def new_task_def)
  moreover have "\<exists>l w'. work_start E ?w1 = Some (Inr l, w') \<and> ready w' \<and> w_db w' = w_db w \<and> wl_bktime l = 0"
    using assms(1) by (auto simp: work_start_def bindA_def read_clock_def retA_def ready_def)
  ultimately show ?thesis
    using cmd reg by (fastforce simp: start_following_def bindA_def liftR_def retA_def t_def new_task_for_def new_schedule_def)
qed

end
subsection \<open>Properties\<close>

text \<open>
  C2: A start on an empty database loses nothing: the program gets to its last loop, and in whatever
  configuration the thread is then, the statements executed since the start are those of block 0,
  block 1 and so on up to some block at least as high as the best one at the start, each once, in
  order and without a gap between the first run and the thread. The node is as in \<open>steady_node\<close>, with times that
  are dates from 1970 to 9999.
\<close>

theorem fresh_start_complete:
  fixes files :: 'f and w :: "'d world"
  assumes "steady_node E trace chain txs details best args0 rd"
    and "initConfig pt files argv (w_args w) = Inr (r, files', args0)" and "r \<noteq> - 1"
    and "\<forall>a b u p port d. fst (db_connect (e_db E) a b u p port d) = Inr True"
    and "\<forall>d. trace d = trace (w_db w) \<longrightarrow> fst (queryBlockCount (e_db E) d) = Inr 0"
    and "sint (w_sequence w) < 2 ^ 31 - 2"
  shows "\<exists>height seq sched l w1. main_start pt files argv E w = Some (Inr (Running height seq sched l), w1) \<and>
    (\<forall>s' l' w'. (work_step E)\<^sup>*\<^sup>* (sched, l, w1) (s', l', w') \<longrightarrow>
      (\<exists>n > best (w_calls w). trace (w_db w') =
        trace (w_db w) @ concat (map (rows_of_block (e_db E) chain txs) [0..n - 1])))"
proof -
  note nd = steady_node.axioms(1) [OF assms(1)]
  let ?w = "w\<lparr>w_args := args0\<rparr>" and ?b = "best (w_calls w)"
  have b: "0 \<le> ?b" "?b < 2 ^ 31 - 2" using node.best_range [OF nd, of "w_calls w"] by simp_all
  obtain w1 where w1: "initGensisBlock E ?w = Some (Inr (0, word_of_int (?b + 1)), w1)" "peer.ready args0 w1"
    "w_sequence w1 = w_sequence w + 1"
    "trace (w_db w1) = trace (w_db w) @ concat (map (rows_of_block (e_db E) chain txs) [0..?b])"
    using node.initGensisBlock_fresh [OF nd _ assms(4), of ?w] assms(5,6) by auto
  have "sint (w_sequence w1) < 2 ^ 31 - 1"
  proof -
    have "- (2 ^ 31) \<le> sint (w_sequence w)" using sint_ge [of "w_sequence w"] by simp
    then have "sint (word_of_int (sint (w_sequence w) + 1) :: int32) = sint (w_sequence w) + 1"
      using assms(6) by (intro sint32_of_int) simp_all
    then show ?thesis using assms(6) w1(3) by simp
  qed
  then obtain sched l w2 t where w2: "(start_following E (word_of_int (?b + 1)) :: ('d, 'f main_outcome) act) w1 =
      Some (Inr (Running (word_of_int (?b + 1)) (w_sequence w1) sched l), w2)" "peer.ready args0 w2"
    "trace (w_db w2) = trace (w_db w1)" "s_tasks sched = [t]" "s_onceRun sched = 0"
    "t_type t = TASK_BLOCK_OR_TRANS" "wanted t = word_of_int (?b + 1)" "wl_bktime l = 0"
    using node.start_following_eq [OF nd w1(2), of "?b + 1"] b by auto
  have "main_start pt files argv E w =
      Some (Inr (Running (word_of_int (?b + 1)) (w_sequence w1) sched l), w2)"
    using assms(2,3) w1(1) w2(1) by (simp add: main_start_def bindA_def Let_def)
  moreover have "\<exists>n > ?b. trace (w_db w') =
      trace (w_db w) @ concat (map (rows_of_block (e_db E) chain txs) [0..n - 1])"
    if reach: "(work_step E)\<^sup>*\<^sup>* (sched, l, w2) (s', l', w')" for s' l' w'
  proof -
    have "steady_node.stands E trace chain txs best args0 (?b + 1) (trace (w_db w1)) (?b + 1) (sched, l, w2)"
      using w2 b by (simp add: steady_node.stands_def [OF assms(1)])
    from steady_node.stands_reachable [OF assms(1) reach this] obtain n where n: "?b + 1 \<le> n"
      "trace (w_db w') = trace (w_db w1) @ concat (map (rows_of_block (e_db E) chain txs) [?b + 1..n - 1])"
      by (auto simp: steady_node.stands_def [OF assms(1)])
    have "[0..n - 1] = [0..?b] @ [?b + 1..n - 1]" using n(1) b(1) upto_split2 [of 0 ?b "n - 1"] by simp
    then show ?thesis using n w1(4) by (intro exI [of _ n]) simp
  qed
  ultimately show ?thesis by blast
qed

text \<open>
  C22: A start on a database that has blocks leaves one out: if the table holds \<open>c\<close> rows (blocks 0 to
  \<open>c - 1\<close> after a fresh start), the program follows the chain from block \<open>c + 1\<close> on, and no statement of
  block \<open>c\<close> is executed in any configuration of the thread.
\<close>

theorem restart_skips_block:
  fixes files :: 'f and w :: "'d world"
  assumes "steady_node E trace chain txs details best args0 rd"
    and "initConfig pt files argv (w_args w) = Inr (r, files', args0)" and "r \<noteq> - 1"
    and "\<forall>a b u p port d. fst (db_connect (e_db E) a b u p port d) = Inr True"
    and "\<forall>d. trace d = trace (w_db w) \<longrightarrow> fst (queryBlockCount (e_db E) d) = Inr c"
    and "0 < sint c" and "sint c < 2 ^ 31 - 2" and "sint (w_sequence w) < 2 ^ 31 - 1"
  shows "\<exists>height seq sched l w1. main_start pt files argv E w = Some (Inr (Running height seq sched l), w1) \<and>
    (\<forall>s' l' w'. (work_step E)\<^sup>*\<^sup>* (sched, l, w1) (s', l', w') \<longrightarrow>
      (\<exists>n > sint c. trace (w_db w') =
        trace (w_db w) @ concat (map (rows_of_block (e_db E) chain txs) [sint c + 1..n - 1])))"
proof -
  note nd = steady_node.axioms(1) [OF assms(1)]
  let ?w = "w\<lparr>w_args := args0\<rparr>" and ?n = "sint c + 1"
  have n: "1 \<le> ?n" "?n < 2 ^ 31 - 1" using assms(6,7) by simp_all
  obtain w1 where w1: "initGensisBlock E ?w = Some (Inr (word_of_int ?n, word_of_int ?n), w1)"
    "peer.ready args0 w1" "w_sequence w1 = w_sequence w" "trace (w_db w1) = trace (w_db w)"
    using node.initGensisBlock_again [OF nd _ assms(4) _ assms(6), of ?w] assms(5,7) by auto
  obtain sched l w2 t where w2: "(start_following E (word_of_int ?n) :: ('d, 'f main_outcome) act) w1 =
      Some (Inr (Running (word_of_int ?n) (w_sequence w1) sched l), w2)" "peer.ready args0 w2"
    "trace (w_db w2) = trace (w_db w1)" "s_tasks sched = [t]" "s_onceRun sched = 0"
    "t_type t = TASK_BLOCK_OR_TRANS" "wanted t = word_of_int ?n" "wl_bktime l = 0"
    using node.start_following_eq [OF nd w1(2) n] assms(8) w1(3) by auto
  have "main_start pt files argv E w = Some (Inr (Running (word_of_int ?n) (w_sequence w1) sched l), w2)"
    using assms(2,3) w1(1) w2(1) by (simp add: main_start_def bindA_def Let_def)
  moreover have "\<exists>n > sint c. trace (w_db w') =
      trace (w_db w) @ concat (map (rows_of_block (e_db E) chain txs) [?n..n - 1])"
    if reach: "(work_step E)\<^sup>*\<^sup>* (sched, l, w2) (s', l', w')" for s' l' w'
  proof -
    have "steady_node.stands E trace chain txs best args0 ?n (trace (w_db w)) ?n (sched, l, w2)"
      using w2 w1(4) n by (simp add: steady_node.stands_def [OF assms(1)])
    from steady_node.stands_reachable [OF assms(1) reach this] obtain m where "?n \<le> m"
      "trace (w_db w') = trace (w_db w) @ concat (map (rows_of_block (e_db E) chain txs) [?n..m - 1])"
      by (auto simp: steady_node.stands_def [OF assms(1)])
    then show ?thesis by (intro exI [of _ m]) simp
  qed
  ultimately show ?thesis by blast
qed

end
