(* ===== verification/TaskList.thy ===== *)
theory TaskList
  imports Program
begin

section \<open>The list of tasks\<close>

text \<open>
  What registering gives out and finds again, and what a round of the thread leaves as it is: only
  the heights of the tasks change.
\<close>

text \<open>Registering one task after another.\<close>

fun register_all :: "(TaskType \<times> string) list \<Rightarrow> CFidTaskSchedule \<Rightarrow> ('d, int32 list \<times> CFidTaskSchedule) act" where
  "register_all [] s = retA ([], s)"
| "register_all ((ty, command) # cs) s =
     bindA (registerTask ty command s) (\<lambda>(seq, s).
     bindA (register_all cs s) (\<lambda>(seqs, s). retA (seq # seqs, s)))"

definition numbered :: "int \<Rightarrow> nat \<times> TaskType \<times> string \<Rightarrow> CFidTask" where
  "numbered q c = (case c of (i, ty, command) \<Rightarrow>
     (new_task_for ty command)\<lparr>t_sequence := word_of_int (q + int i)\<rparr>)"

lemma enumerate_Suc: "enumerate (Suc n) xs = map (\<lambda>(i, x). (Suc i, x)) (enumerate n xs)"
  by (induction xs arbitrary: n) simp_all

lemma register_all_eq:
  assumes "sint (w_sequence w) + int (length cs) < 2 ^ 31"
  shows "\<exists>w'. register_all cs s w = Some (Inr (map (\<lambda>i. word_of_int (sint (w_sequence w) + int i)) [0..<length cs],
    s\<lparr>s_tasks := s_tasks s @ map (numbered (sint (w_sequence w))) (enumerate 0 cs)\<rparr>), w')"
  using assms
proof (induction cs arbitrary: s w)
  case Nil
  then show ?case by (simp add: retA_def)
next
  case (Cons c cs)
  obtain ty command where c: "c = (ty, command)" by fastforce
  let ?q = "w_sequence w"
  let ?s1 = "s\<lparr>s_tasks := s_tasks s @ [(new_task_for ty command)\<lparr>t_sequence := ?q\<rparr>]\<rparr>"
  let ?w1 = "w\<lparr>w_sequence := ?q + 1\<rparr>"
  have reg: "registerTask ty command s w = Some (Inr (?q, ?s1), ?w1)"
    using Cons.prems by (intro registerTask_eq) simp
  have "- (2 ^ 31) \<le> sint ?q" using sint_ge [of ?q] by simp
  then have "sint (word_of_int (sint ?q + 1) :: int32) = sint ?q + 1"
    using Cons.prems by (intro sint32_of_int) simp_all
  then have q: "sint (w_sequence ?w1) = sint ?q + 1" by simp
  then obtain w2 where "register_all cs ?s1 ?w1 =
      Some (Inr (map (\<lambda>i. word_of_int (sint ?q + 1 + int i)) [0..<length cs],
        ?s1\<lparr>s_tasks := s_tasks ?s1 @ map (numbered (sint ?q + 1)) (enumerate 0 cs)\<rparr>), w2)"
    using Cons.IH [of ?w1 ?s1] Cons.prems by auto
  moreover have "map (numbered (sint ?q + 1)) (enumerate 0 cs) = map (numbered (sint ?q)) (enumerate (Suc 0) cs)"
    unfolding enumerate_Suc by (auto simp: numbered_def algebra_simps split: prod.splits)
  moreover have "map (\<lambda>i. word_of_int (sint ?q + 1 + int i)) [0..<length cs] =
      map (\<lambda>i. word_of_int (sint ?q + int i) :: int32) [Suc 0..<Suc (length cs)]"
    by (simp add: map_Suc_upt [symmetric] comp_def algebra_simps del: upt_Suc)
  ultimately show ?case
    unfolding c by (simp add: bindA_def reg retA_def numbered_def upt_conv_Cons del: upt_Suc)
qed

lemma find_task_numbered:
  assumes "i < length cs" and "- (2 ^ 31) \<le> q" and "q + int (length cs) < 2 ^ 31"
  shows "find_task (word_of_int (q + int i)) (map (numbered q) (enumerate 0 cs)) t0 = numbered q (i, cs ! i)"
proof -
  have "find_task (word_of_int (q + int (n + i))) (map (numbered q) (enumerate n cs)) t0 = numbered q (n + i, cs ! i)"
    if "i < length cs" "q + int (n + length cs) < 2 ^ 31" for n
    using that
  proof (induction cs arbitrary: n i t0)
    case Nil
    then show ?case by simp
  next
    case (Cons c cs)
    show ?case
    proof (cases i)
      case 0
      then show ?thesis by (simp add: numbered_def split: prod.split)
    next
      case (Suc j)
      have ne: "(word_of_int (q + int (n + i)) :: int32) \<noteq> t_sequence (numbered q (n, c))"
      proof
        assume "(word_of_int (q + int (n + i)) :: int32) = t_sequence (numbered q (n, c))"
        then have "sint (word_of_int (q + int (n + i)) :: int32) = sint (word_of_int (q + int n) :: int32)"
          by (simp add: numbered_def split: prod.splits)
        moreover have "sint (word_of_int (q + int (n + i)) :: int32) = q + int (n + i)"
          "sint (word_of_int (q + int n) :: int32) = q + int n"
          using Cons.prems assms(2) by (intro sint32_of_int; simp)+
        ultimately show False using Suc by simp
      qed
      show ?thesis
        using Cons.IH [of j "Suc n"] Cons.prems Suc ne by simp
    qed
  qed
  from this [of 0] show ?thesis using assms by simp
qed

subsection \<open>A round\<close>

abbreviation task_frame :: "CFidTask \<Rightarrow> CFidTask" where
  "task_frame t \<equiv> t\<lparr>t_height := 0\<rparr>"

lemma work_task_frame:
  assumes "work_task E t loc w = Some (Inr (t', loc'), w')"
  shows "task_frame t' = task_frame t"
  using assms by (auto simp: work_task_def write_back_def bindA_Inr_iff bindR_Inr_iff liftR_def retA_def split: if_splits)

lemma work_tasks_frame:
  assumes "work_tasks E ts loc w = Some (Inr (ts', loc'), w')"
  shows "map task_frame ts' = map task_frame ts"
  using assms
proof (induction E ts loc arbitrary: w ts' loc' w' rule: work_tasks.induct)
  case (1 E loc)
  then show ?case by (simp add: retA_def)
next
  case (2 E t ts loc)
  from 2(2) obtain p w1 where p: "work_task E t loc w = Some (Inr p, w1)"
    "(case p of (t, loc) \<Rightarrow> bindA (work_tasks E ts loc) (\<lambda>(ts, loc). retA (t # ts, loc))) w1 =
      Some (Inr (ts', loc'), w')"
    unfolding work_tasks.simps bindA_Inr_iff by blast
  obtain t1 loc1 where p1: "p = (t1, loc1)" by (rule prod.exhaust)
  from p(2) obtain q w2 where q: "work_tasks E ts loc1 w1 = Some (Inr q, w2)"
    "(case q of (ts, loc) \<Rightarrow> retA (t1 # ts, loc)) w2 = Some (Inr (ts', loc'), w')"
    unfolding p1 prod.case bindA_Inr_iff by blast
  obtain ts2 loc2 where q1: "q = (ts2, loc2)" by (rule prod.exhaust)
  have "map task_frame ts2 = map task_frame ts" using q(1) unfolding q1 by (rule 2(1))
  moreover have "task_frame t1 = task_frame t" using p(1) unfolding p1 by (rule work_task_frame)
  ultimately show ?case using q(2) by (auto simp: q1 retA_def)
qed

lemma same_sequence_task: "same_sequence (task_call E t)"
  unfolding task_call.simps call_block_def call_transaction_def call_block_or_trans_def get_transactions_def
    insertDBBlockTrans_def Let_def
  by (cases "t_type t") (auto intro!: sequence_intros same_sequence_gensis split: prod.split)

lemma same_sequence_round: "same_sequence (work_round (E :: 'a env) s l)"
proof -
  have t: "same_sequence (work_task E' t loc)" for E' :: "'a env" and t loc
    unfolding work_task_def by (auto intro!: sequence_intros same_sequence_task split: prod.split)
  have "same_sequence (work_tasks E ts loc)" for ts loc
    by (induction E ts loc rule: work_tasks.induct) (auto intro!: sequence_intros t split: prod.split)
  then show ?thesis
    unfolding work_round_def after_tasks_def by (auto intro!: sequence_intros split: prod.split sum.split)
qed

lemma find_task_frame:
  "map task_frame ts' = map task_frame ts \<Longrightarrow> task_frame t0' = task_frame t0 \<Longrightarrow>
    task_frame (find_task seq ts' t0') = task_frame (find_task seq ts t0)"
proof (induction ts arbitrary: ts' t0 t0')
  case Nil
  then show ?case by simp
next
  case (Cons t ts)
  then obtain t' ts2 where ts': "ts' = t' # ts2" "task_frame t' = task_frame t" "map task_frame ts2 = map task_frame ts"
    by auto
  have "t_sequence t' = t_sequence t" using arg_cong [OF ts'(2), of t_sequence] by simp
  then show ?case using Cons.IH [OF ts'(3,2)] ts' by simp
qed

lemma work_round_frame:
  assumes "work_round E s l w = Some (Inr (r, s', l'), w')"
  shows "map task_frame (s_tasks s') = map task_frame (s_tasks s) \<and> s_onceRun s' = s_onceRun s"
proof -
  obtain p w1 where p: "work_tasks E (s_tasks s) (Some 0, False) w = Some (Inr p, w1)"
    using assms unfolding work_round_def bindA_Inr_iff by blast
  obtain ts loc where p1: "p = (ts, loc)" by (rule prod.exhaust)
  have "s' = s\<lparr>s_tasks := ts\<rparr>"
    using assms unfolding work_round_def after_tasks_def bindA_def p p1
    by (auto simp: liftR_def retA_def split: if_splits option.splits sum.splits prod.splits)
  moreover have "map task_frame ts = map task_frame (s_tasks s)" using p unfolding p1 by (rule work_tasks_frame)
  ultimately show ?thesis by simp
qed

subsection \<open>Properties\<close>

text \<open>
  C37: Registered tasks are found: as long as the numbers do not run out, registering gives consecutive
  numbers, and \<open>getTask\<close> of such a number returns the task that was registered under it, with its type
  and command; for a number that was not given out it returns the last task of the list.
\<close>

theorem registered_tasks_found:
  assumes "sint (w_sequence w) + int (length cs) < 2 ^ 31"
  shows "\<exists>seqs s w'. register_all cs (new_schedule once_run) w = Some (Inr (seqs, s), w') \<and>
    length seqs = length cs \<and> distinct seqs \<and>
    (\<forall>i < length cs. t_type (getTask (seqs ! i) s) = fst (cs ! i) \<and>
      t_command (getTask (seqs ! i) s) = snd (cs ! i) \<and> t_sequence (getTask (seqs ! i) s) = seqs ! i) \<and>
    (\<forall>seq. cs \<noteq> [] \<longrightarrow> seq \<notin> set seqs \<longrightarrow> getTask seq s = last (getTaskList s))"
proof -
  let ?q = "sint (w_sequence w)"
  let ?seqs = "map (\<lambda>i. word_of_int (?q + int i) :: int32) [0..<length cs]"
  let ?s = "(new_schedule once_run)\<lparr>s_tasks := map (numbered ?q) (enumerate 0 cs)\<rparr>"
  obtain w' where r: "register_all cs (new_schedule once_run) w = Some (Inr (?seqs, ?s), w')"
    using register_all_eq [OF assms, of "new_schedule once_run"] by (auto simp: new_schedule_def)
  have lo: "- (2 ^ 31) \<le> ?q" using sint_ge [of "w_sequence w"] by simp
  have sq: "sint (word_of_int (?q + int i) :: int32) = ?q + int i" if "i < length cs" for i
    using that lo assms by (intro sint32_of_int) simp_all
  have "inj_on (\<lambda>i. word_of_int (?q + int i) :: int32) (set [0..<length cs])"
    by (rule inj_onI) (metis sq add_left_cancel atLeastLessThan_upt atLeastLessThan_iff of_nat_eq_iff)
  then have d: "distinct ?seqs" by (simp add: distinct_map)
  have found: "getTask (?seqs ! i) ?s = numbered ?q (i, cs ! i)" if "i < length cs" for i
    using find_task_numbered [OF that lo assms] that by (simp add: getTask_def)
  have last: "find_task seq ts t0 = last ts" if "ts \<noteq> []" "seq \<notin> t_sequence ` set ts" for seq ts t0
    using that by (induction ts arbitrary: t0) auto
  have keys: "t_sequence ` set (map (numbered ?q) (enumerate 0 cs)) \<subseteq> set ?seqs"
    by (auto simp: numbered_def in_set_enumerate_eq)
  have "getTask seq ?s = last (getTaskList ?s)" if "cs \<noteq> []" "seq \<notin> set ?seqs" for seq
  proof -
    have "enumerate 0 cs \<noteq> []" using that(1) by (cases cs) simp_all
    moreover have "seq \<notin> t_sequence ` set (map (numbered ?q) (enumerate 0 cs))" using that(2) keys by blast
    ultimately show ?thesis
      unfolding getTask_def getTaskList_def by (intro trans [OF _ last]) simp_all
  qed
  then show ?thesis
    using r d found by (intro exI [of _ ?seqs] exI [of _ ?s] exI [of _ w'])
      (auto simp: numbered_def new_task_for_def split: prod.splits)
qed

theorem registered_tasks_found_witness:
  "\<exists>seqs s w'. register_all [(TASK_BLOCK, ''7''), (TASK_BLOCK_OR_TRANS, ''9'')] (new_schedule 0)
      \<lparr>w_args = [], w_mp = None, w_db = (), w_calls = 0, w_ticks = 0, w_sequence = 1\<rparr> = Some (Inr (seqs, s), w') \<and>
    t_command (getTask (seqs ! 1) s) = ''9''"
  using registered_tasks_found [of "\<lparr>w_args = [], w_mp = None, w_db = (), w_calls = 0, w_ticks = 0, w_sequence = 1\<rparr>"
      "[(TASK_BLOCK, ''7''), (TASK_BLOCK_OR_TRANS, ''9'')]" 0]
  by auto

text \<open>
  C36: A round of the thread keeps its tasks: it neither adds, drops nor reorders one and changes nothing
  but their heights, so looking up a number finds the same task as before; it gives out no number
  and leaves the mode of the schedule as it is.
\<close>

theorem round_keeps_tasks:
  assumes "work_round E s l w = Some (Inr (r, s', l'), w')"
  shows "map (\<lambda>t. t\<lparr>t_height := 0\<rparr>) (getTaskList s') = map (\<lambda>t. t\<lparr>t_height := 0\<rparr>) (getTaskList s) \<and>
    (getTask seq s')\<lparr>t_height := 0\<rparr> = (getTask seq s)\<lparr>t_height := 0\<rparr> \<and>
    s_onceRun s' = s_onceRun s \<and> w_sequence w' = w_sequence w"
  using work_round_frame [OF assms] find_task_frame [of "s_tasks s'" "s_tasks s" new_task new_task seq]
    same_sequence_round [of E s l] assms
  unfolding same_sequence_def getTask_def getTaskList_def by blast

end
