(* ===== verification/Interleave.thy ===== *)
theory Interleave
  imports TaskList
begin

section \<open>The main thread and the threads of the schedules, interleaved\<close>

text \<open>
  \<open>Program\<close> runs the thread of the first run to its end before the main thread goes on. Here the three
  threads of the process run in any order: the main thread, which looks again and again at the task
  list of a schedule (\<open>getTask\<close>), and the thread of each schedule, which calls its tasks on copies and
  writes their heights back to that list. There is no lock. An access to a member of type \<open>int\<close> is
  taken as one step; a call of a task is one step too, for it shares nothing with the main thread.
\<close>

subsection \<open>The thread of a schedule\<close>

text \<open>
  Where the thread is in \<open>work\<close>: before it; at the loop over the tasks, with the position of the
  iterator and the locals \<open>bktimelast\<close> and \<open>bContinue\<close>; after the call of the task at the iterator, with the
  copy the call has changed; or at its end.
\<close>

datatype thread_pc =
    At_start
  | At_task nat "int32 option \<times> bool"
  | At_called nat "int32 option \<times> bool" CFidTask
  | At_end

record worker =
  wk_sched :: CFidTaskSchedule
  wk_locals :: work_locals
  wk_pc :: thread_pc

definition new_worker :: "CFidTaskSchedule \<Rightarrow> worker" where
  "new_worker s = \<lparr>wk_sched = s, wk_locals = \<lparr>wl_bktime = 0, wl_t1 = 0\<rparr>, wk_pc = At_start\<rparr>"

definition after_round :: "worker \<Rightarrow> round_end \<times> CFidTaskSchedule \<times> work_locals \<Rightarrow> worker" where
  "after_round wk r = (case r of (e, s, l) \<Rightarrow>
     wk\<lparr>wk_sched := s, wk_locals := l,
        wk_pc := (case e of Left \<Rightarrow> At_end | Slept ms \<Rightarrow> At_task 0 (Some 0, False))\<rparr>)"

definition worker_step :: "'d env \<Rightarrow> worker \<Rightarrow> ('d, worker) act" where
  "worker_step E wk =
     (let ts = s_tasks (wk_sched wk) in
      case wk_pc wk of
        At_start \<Rightarrow>
          bindA (work_start E) (\<lambda>l. retA (wk\<lparr>wk_locals := l, wk_pc := At_task 0 (Some 0, False)\<rparr>))
      | At_task i loc \<Rightarrow>
          (if i < length ts then
             bindA (task_call E (ts ! i)) (\<lambda>(iRet, ftask). retA (wk\<lparr>wk_pc := At_called i loc ftask\<rparr>))
           else bindA (after_tasks E (wk_sched wk) (wk_locals wk) loc) (\<lambda>r. retA (after_round wk r)))
      | At_called i loc ftask \<Rightarrow>
          bindA (liftR (write_back (ts ! i) ftask loc)) (\<lambda>(t, loc).
            retA (wk\<lparr>wk_sched := (wk_sched wk)\<lparr>s_tasks := ts[i := t]\<rparr>, wk_pc := At_task (Suc i) loc\<rparr>))
      | At_end \<Rightarrow> retA wk)"

subsection \<open>The process\<close>

text \<open>
  The main thread: in the loop of \<open>initGensisBlock\<close> that waits for the height of task \<open>seq\<close>; past
  \<open>initGensisBlock\<close>, with the height to start from; or in the last loop of \<open>main\<close>, with the height it
  has printed last (the global \<open>height\<close>).
\<close>

datatype main_pc = Main_waits int32 | Main_starts int32 | Main_polls int32 int32

record 'd process =
  pr_init :: "worker option"
  pr_follow :: "worker option"
  pr_main :: main_pc
  pr_world :: "'d world"
  pr_exn :: "exn option"

text \<open>\<open>pr_exn\<close> is the exception that has left the main thread or a thread of a schedule; nothing catches it,
  and it ends the process.\<close>

text \<open>\<open>initGensisBlock\<close> up to its waiting loop; with blocks in the database it is over.\<close>

definition process_start :: "'d env \<Rightarrow> 'd world \<Rightarrow> ('d process res) option" where
  "process_start E w =
     map_option (\<lambda>(r, w). bindR r (\<lambda>(ini, pc). Inr \<lparr>pr_init = ini, pr_follow = None, pr_main = pc, pr_world = w, pr_exn = None\<rparr>))
       (bindA (init_db E) (\<lambda>_.
        bindA (block_count E) (\<lambda>height.
          if sint height > 0 then bindA (liftR (succ_height height)) (\<lambda>height. retA (None, Main_starts height))
          else
            bindA (liftR (i64tostr (scast height))) (\<lambda>command.
            bindA (registerTask TASK_BLOCKGENSIS (c_str command) (new_schedule once)) (\<lambda>(seq, sched).
            retA (Some (new_worker sched), Main_waits seq))))) w)"

text \<open>A turn of a loop of the main thread; \<open>getTask\<close> copies the task, so the height is read once.\<close>

definition main_wait :: "int32 \<Rightarrow> CFidTaskSchedule \<Rightarrow> main_pc res" where
  "main_wait seq s =
     (let t = getTask seq s in
      if t_height t = - 1 then Inr (Main_waits seq)
      else bindR (succ_height (t_height t)) (\<lambda>height. Inr (Main_starts height)))"

definition main_begin :: "int32 \<Rightarrow> ('d, CFidTaskSchedule \<times> main_pc) act" where
  "main_begin height =
     bindA (liftR (i64tostr (scast height))) (\<lambda>command.
     bindA (registerTask TASK_BLOCK_OR_TRANS (c_str command) (new_schedule 0)) (\<lambda>(seq, sched).
     retA (sched, Main_polls seq height)))"

inductive process_step :: "'d env \<Rightarrow> 'd process \<Rightarrow> 'd process \<Rightarrow> bool" for E where
  init_thread:
    "pr_exn P = None \<Longrightarrow> pr_init P = Some wk \<Longrightarrow> wk_pc wk \<noteq> At_end \<Longrightarrow>
     worker_step E wk (pr_world P) = Some (Inr wk', w') \<Longrightarrow>
     process_step E P (P\<lparr>pr_init := Some wk', pr_world := w'\<rparr>)"
| init_throws:
    "pr_exn P = None \<Longrightarrow> pr_init P = Some wk \<Longrightarrow> wk_pc wk \<noteq> At_end \<Longrightarrow>
     worker_step E wk (pr_world P) = Some (Inl e, w') \<Longrightarrow>
     process_step E P (P\<lparr>pr_exn := Some e, pr_world := w'\<rparr>)"
| follow_thread:
    "pr_exn P = None \<Longrightarrow> pr_follow P = Some wk \<Longrightarrow> wk_pc wk \<noteq> At_end \<Longrightarrow>
     worker_step E wk (pr_world P) = Some (Inr wk', w') \<Longrightarrow>
     process_step E P (P\<lparr>pr_follow := Some wk', pr_world := w'\<rparr>)"
| follow_throws:
    "pr_exn P = None \<Longrightarrow> pr_follow P = Some wk \<Longrightarrow> wk_pc wk \<noteq> At_end \<Longrightarrow>
     worker_step E wk (pr_world P) = Some (Inl e, w') \<Longrightarrow>
     process_step E P (P\<lparr>pr_exn := Some e, pr_world := w'\<rparr>)"
| waits:
    "pr_exn P = None \<Longrightarrow> pr_main P = Main_waits seq \<Longrightarrow> pr_init P = Some wk \<Longrightarrow>
     main_wait seq (wk_sched wk) = Inr pc \<Longrightarrow>
     process_step E P (P\<lparr>pr_main := pc\<rparr>)"
| wait_throws:
    "pr_exn P = None \<Longrightarrow> pr_main P = Main_waits seq \<Longrightarrow> pr_init P = Some wk \<Longrightarrow>
     main_wait seq (wk_sched wk) = Inl e \<Longrightarrow>
     process_step E P (P\<lparr>pr_exn := Some e\<rparr>)"
| starts:
    "pr_exn P = None \<Longrightarrow> pr_main P = Main_starts height \<Longrightarrow>
     main_begin height (pr_world P) = Some (Inr (sched, pc), w') \<Longrightarrow>
     process_step E P (P\<lparr>pr_follow := Some (new_worker sched), pr_main := pc, pr_world := w'\<rparr>)"
| start_throws:
    "pr_exn P = None \<Longrightarrow> pr_main P = Main_starts height \<Longrightarrow>
     main_begin height (pr_world P) = Some (Inl e, w') \<Longrightarrow>
     process_step E P (P\<lparr>pr_exn := Some e, pr_world := w'\<rparr>)"
| polls:
    "pr_exn P = None \<Longrightarrow> pr_main P = Main_polls seq height \<Longrightarrow> pr_follow P = Some wk \<Longrightarrow>
     process_step E P (P\<lparr>pr_main := Main_polls seq (main_poll seq (wk_sched wk) height)\<rparr>)"

inductive_cases process_stepE: "process_step E P P'"

subsection \<open>A round in steps\<close>

text \<open>Left to itself, the thread of a schedule does what \<open>work_round\<close> does, whatever its tasks.\<close>

definition worker_run :: "'d env \<Rightarrow> worker \<times> 'd world \<Rightarrow> worker \<times> 'd world \<Rightarrow> bool" where
  "worker_run E c c' \<longleftrightarrow> (case c of (wk, w) \<Rightarrow> case c' of (wk', w') \<Rightarrow>
     wk_pc wk \<noteq> At_end \<and> worker_step E wk w = Some (Inr wk', w'))"

lemma worker_tasks_run:
  assumes "wk_pc wk = At_task (length us) loc" and "s_tasks (wk_sched wk) = us @ ts"
    and "work_tasks E ts loc w = Some (Inr (ts', loc'), w')"
  shows "(worker_run E)\<^sup>*\<^sup>* (wk, w)
    (wk\<lparr>wk_sched := (wk_sched wk)\<lparr>s_tasks := us @ ts'\<rparr>, wk_pc := At_task (length us + length ts) loc'\<rparr>, w')"
  using assms
proof (induction ts arbitrary: us wk w loc ts')
  case Nil
  then have "wk\<lparr>wk_sched := (wk_sched wk)\<lparr>s_tasks := us @ ts'\<rparr>, wk_pc := At_task (length us + length ([] :: CFidTask list)) loc'\<rparr> = wk"
    by (cases wk, cases "wk_sched wk") (simp add: retA_def)
  then show ?case using Nil(3) by (simp only:) (simp add: retA_def)
next
  case (Cons t ts)
  from Cons.prems(3) obtain t1 loc1 w1 ts1 where 1: "work_task E t loc w = Some (Inr (t1, loc1), w1)"
    "work_tasks E ts loc1 w1 = Some (Inr (ts1, loc'), w')" "ts' = t1 # ts1"
    by (auto simp: bindA_Inr_iff retA_def)
  then obtain r ftask where c: "task_call E t w = Some (Inr (r, ftask), w1)" "write_back t ftask loc = Inr (t1, loc1)"
    by (auto simp: work_task_def bindA_Inr_iff liftR_def)
  let ?wk1 = "wk\<lparr>wk_pc := At_called (length us) loc ftask\<rparr>"
  let ?wk2 = "wk\<lparr>wk_sched := (wk_sched wk)\<lparr>s_tasks := (us @ [t1]) @ ts\<rparr>, wk_pc := At_task (length (us @ [t1])) loc1\<rparr>"
  have "worker_run E (wk, w) (?wk1, w1)"
    using Cons.prems(1,2) c(1) by (simp add: worker_run_def worker_step_def bindA_def retA_def)
  moreover have "worker_run E (?wk1, w1) (?wk2, w1)"
    using Cons.prems(1,2) c(2) by (simp add: worker_run_def worker_step_def bindA_def retA_def liftR_def)
  moreover have "(worker_run E)\<^sup>*\<^sup>* (?wk2, w1)
      (?wk2\<lparr>wk_sched := (wk_sched ?wk2)\<lparr>s_tasks := (us @ [t1]) @ ts1\<rparr>,
        wk_pc := At_task (length (us @ [t1]) + length ts) loc'\<rparr>, w')"
    by (rule Cons.IH) (use 1(2) in simp_all)
  ultimately show ?case
    by (simp add: 1(3))
qed

lemma worker_round_run:
  assumes "wk_pc wk = At_task 0 (Some 0, False)"
    and "work_round E (wk_sched wk) (wk_locals wk) w = Some (Inr r, w')"
  shows "(worker_run E)\<^sup>*\<^sup>* (wk, w) (after_round wk r, w')"
proof -
  let ?s = "wk_sched wk"
  from assms(2) obtain ts loc w1 where 1: "work_tasks E (s_tasks ?s) (Some 0, False) w = Some (Inr (ts, loc), w1)"
    "after_tasks E (?s\<lparr>s_tasks := ts\<rparr>) (wk_locals wk) loc w1 = Some (Inr r, w')"
    unfolding work_round_def bindA_Inr_iff by auto
  let ?wk1 = "wk\<lparr>wk_sched := ?s\<lparr>s_tasks := ts\<rparr>, wk_pc := At_task (length (s_tasks ?s)) loc\<rparr>"
  have len: "length ts = length (s_tasks ?s)"
    using work_tasks_frame [OF 1(1)] by (metis length_map)
  have "(worker_run E)\<^sup>*\<^sup>* (wk, w) (?wk1, w1)"
    using worker_tasks_run [of wk "[]" "(Some 0, False)" "s_tasks ?s" E w ts loc w1] assms(1) 1(1) by simp
  moreover have "worker_run E (?wk1, w1) (after_round ?wk1 r, w')"
    using 1(2) len by (simp add: worker_run_def worker_step_def bindA_def retA_def)
  moreover have "after_round ?wk1 r = after_round wk r"
    by (simp add: after_round_def split: prod.split)
  ultimately show ?thesis by (simp add: rtranclp.rtrancl_into_rtrancl)
qed

subsection \<open>The thread of the first run\<close>

text \<open>The steps it has still to make, which are what the main thread waits for.\<close>

fun first_left :: "thread_pc \<Rightarrow> nat" where
  "first_left At_start = 4"
| "first_left (At_task i loc) = (if i = 0 then 3 else 1)"
| "first_left (At_called i loc ftask) = 2"
| "first_left At_end = 0"

definition waiting_left :: "'a process \<Rightarrow> nat" where
  "waiting_left P = (case pr_init P of None \<Rightarrow> 0 | Some wk \<Rightarrow> first_left (wk_pc wk))"

context node
begin

text \<open>
  Where the thread of the first run stands, when \<open>m\<close> blocks have been stored; \<open>k\<close> is the number of the call
  that asks for the height.
\<close>

definition first_run :: "nat \<Rightarrow> worker \<Rightarrow> 'd world \<Rightarrow> int \<Rightarrow> bool" where
  "first_run k wk w m \<longleftrightarrow> ready w \<and> s_onceRun (wk_sched wk) \<noteq> 0 \<and>
     (\<exists>t. s_tasks (wk_sched wk) = [t] \<and> t_type t = TASK_BLOCKGENSIS \<and> t_status t \<noteq> 1 \<and>
       sint (atoi64 (t_command t)) \<le> 0 \<and>
       (case wk_pc wk of
          At_start \<Rightarrow> t_height t = - 1 \<and> m = 0 \<and> w_calls w = k
        | At_task i loc \<Rightarrow> i = 0 \<and> t_height t = - 1 \<and> m = 0 \<and> w_calls w = k \<or>
            i = 1 \<and> t_height t = word_of_int (best k) \<and> m = best k + 1
        | At_called i loc ftask \<Rightarrow> i = 0 \<and> t_height t = - 1 \<and> m = best k + 1 \<and>
            ftask = t\<lparr>t_height := word_of_int (best k)\<rparr>
        | At_end \<Rightarrow> t_height t = word_of_int (best k) \<and> m = best k + 1))"

text \<open>Its next step succeeds, and its one step that stores blocks stores all up to the best one.\<close>

lemma first_run_step:
  assumes "first_run k wk w m" and "wk_pc wk \<noteq> At_end"
  shows "\<exists>wk' w' m'. worker_step E wk w = Some (Inr wk', w') \<and> first_run k wk' w' m' \<and>
    w_sequence w' = w_sequence w \<and> first_left (wk_pc wk') < first_left (wk_pc wk) \<and>
    (m' = m \<and> trace (w_db w') = trace (w_db w) \<or>
     m = 0 \<and> m' = best k + 1 \<and> trace (w_db w') = trace (w_db w) @ concat (map block_rows [0..best k]))"
proof -
  obtain t where r: "ready w" "s_onceRun (wk_sched wk) \<noteq> 0" and
    t: "s_tasks (wk_sched wk) = [t]" "t_type t = TASK_BLOCKGENSIS" "t_status t \<noteq> 1" "sint (atoi64 (t_command t)) \<le> 0"
    using assms(1) by (auto simp: first_run_def)
  have call: "task_call E t = call_gensis E t" by (simp add: task_call.simps t(2))
  show ?thesis
  proof (cases "wk_pc wk")
    case At_start
    moreover obtain l w1 where "work_start E w = Some (Inr l, w1)" "ready w1" "w_calls w1 = w_calls w"
      "w_db w1 = w_db w" "w_sequence w1 = w_sequence w"
      using r(1) by (auto simp: work_start_def bindA_def read_clock_def retA_def ready_def)
    ultimately show ?thesis
      using assms(1) by (auto simp: worker_step_def bindA_def retA_def first_run_def)
  next
    case (At_task i loc)
    show ?thesis
    proof (cases "i = 0")
      case True
      then have c: "t_height t = - 1" "m = 0" "w_calls w = k" using assms(1) t by (simp_all add: first_run_def At_task)
      obtain w1 where w1: "call_gensis E t w = Some (Inr (0, t\<lparr>t_height := word_of_int (best k)\<rparr>), w1)" "ready w1"
        "trace (w_db w1) = trace (w_db w) @ concat (map block_rows [0..best k])"
        using call_gensis_eq [OF r(1) t(4)] c(3) by auto
      have "w_sequence w1 = w_sequence w"
        using same_sequence_gensis [of E t] w1(1) unfolding same_sequence_def by blast
      then show ?thesis
        using w1 c t r(2) True call At_task by (simp add: worker_step_def bindA_def retA_def first_run_def)
    next
      case False
      then show ?thesis
        using assms(1) t r(2) At_task
        by (auto simp: worker_step_def after_tasks_def after_round_def bindA_def retA_def first_run_def)
    qed
  next
    case (At_called i loc ftask)
    then show ?thesis
      using assms(1) t by (auto simp: worker_step_def write_back_def bindA_def retA_def liftR_def first_run_def)
  qed (use assms(2) in simp)
qed

text \<open>The waiting loop of the main thread goes on until all is stored.\<close>

lemma first_run_wait:
  assumes "first_run k wk w m"
  shows "main_wait seq (wk_sched wk) = Inr (Main_waits seq) \<or>
    main_wait seq (wk_sched wk) = Inr (Main_starts (word_of_int (best k + 1))) \<and> m = best k + 1 \<and>
    (wk_pc wk = At_end \<or> (\<exists>loc. wk_pc wk = At_task 1 loc))"
    and "wk_pc wk = At_end \<Longrightarrow> main_wait seq (wk_sched wk) = Inr (Main_starts (word_of_int (best k + 1)))"
proof -
  obtain t where t: "s_tasks (wk_sched wk) = [t]" using assms by (auto simp: first_run_def)
  then have g: "getTask seq (wk_sched wk) = t" by (simp add: getTask_def)
  have b: "sint (word_of_int (best k) :: int32) = best k" "best k + 1 < 2 ^ 31" "0 \<le> best k"
    using best_range [of k] by (simp_all add: sint32_of_int)
  then have h: "succ_height (word_of_int (best k)) = Inr (word_of_int (best k + 1))"
    by (simp add: succ_height_def int_arith_def)
  have m: "(word_of_int (best k) :: int32) \<noteq> - 1"
  proof
    assume "(word_of_int (best k) :: int32) = - 1"
    then have "sint (word_of_int (best k) :: int32) = - 1" by simp
    then show False using b(1,3) by simp
  qed
  show "main_wait seq (wk_sched wk) = Inr (Main_waits seq) \<or>
    main_wait seq (wk_sched wk) = Inr (Main_starts (word_of_int (best k + 1))) \<and> m = best k + 1 \<and>
    (wk_pc wk = At_end \<or> (\<exists>loc. wk_pc wk = At_task 1 loc))"
    using assms t g h by (cases "wk_pc wk") (auto simp: first_run_def main_wait_def)
  show "main_wait seq (wk_sched wk) = Inr (Main_starts (word_of_int (best k + 1)))" if "wk_pc wk = At_end"
    using that assms t g h m by (auto simp: first_run_def main_wait_def)
qed

end

text \<open>A thread that has done its tasks and only has to leave its loop.\<close>

definition leaving :: "worker \<Rightarrow> bool" where
  "leaving wk \<longleftrightarrow> length (s_tasks (wk_sched wk)) = 1 \<and> s_onceRun (wk_sched wk) \<noteq> 0 \<and>
     (wk_pc wk = At_end \<or> (\<exists>loc. wk_pc wk = At_task 1 loc))"

lemma leaving_step:
  assumes "leaving wk" and "wk_pc wk \<noteq> At_end"
  shows "\<exists>wk'. worker_step E wk w = Some (Inr wk', w) \<and> leaving wk'"
  using assms by (auto simp: leaving_def worker_step_def after_tasks_def after_round_def bindA_def retA_def)

subsection \<open>The thread that follows the chain\<close>

context steady_node
begin

lemma stands_height:
  assumes "stands n0 ss n (s, l, w)" and "s_tasks s = [t]"
  shows "t_height t = - 1 \<or> sint (t_height t) = n"
proof -
  have n: "1 \<le> n" "n < 2 ^ 31 - 1" "wanted t = word_of_int n" using assms by (auto simp: stands_def)
  have "sint (t_height t) = n" if "t_height t \<noteq> - 1"
  proof -
    have "sint (wanted t) = sint (t_height t)"
      using that by (simp add: wanted_def sint_up_scast is_up)
    then show ?thesis using n by (simp add: sint64_of_int)
  qed
  then show ?thesis by blast
qed

text \<open>The call of the task, and what is written back after it.\<close>

lemma stands_called:
  assumes "stands n0 ss n (s, l, w)" and "s_tasks s = [t]" and "n' = (if n \<le> best (w_calls w) then n + 1 else n)"
  shows "\<exists>r ftask t' loc w'. task_call E t w = Some (Inr (r, ftask), w') \<and>
    write_back t ftask (Some 0, False) = Inr (t', loc) \<and> ready w' \<and>
    (t_height t' = - 1 \<or> sint (t_height t') = n') \<and>
    trace (w_db w') = ss @ concat (map block_rows [n0..n' - 1])"
proof -
  have t: "t_type t = TASK_BLOCK_OR_TRANS" "wanted t = word_of_int n" and r: "ready w" "1 \<le> n0" "n0 \<le> n" "n < 2 ^ 31 - 1"
    and tr: "trace (w_db w) = ss @ concat (map block_rows [n0..n - 1])"
    using assms(1,2) by (auto simp: stands_def)
  have split: "\<exists>r ftask. task_call E t w = Some (Inr (r, ftask), w') \<and> write_back t ftask (Some 0, False) = Inr (t', loc)"
    if "work_task E t (Some 0, False) w = Some (Inr (t', loc), w')" for t' loc w'
    using that by (auto simp: work_task_def bindA_Inr_iff liftR_def)
  show ?thesis
  proof (cases "n \<le> best (w_calls w)")
    case True
    have n: "1 \<le> n" "n + 1 < 2 ^ 31" using r by simp_all
    obtain w1 where w1: "work_task E t (Some 0, False) w =
        Some (Inr (t\<lparr>t_height := word_of_int (n + 1)\<rparr>, Some (int_time n), False), w1)"
      "ready w1" "trace (w_db w1) = trace (w_db w) @ block_rows n"
      using work_task_stored [OF r(1) t n(1) True] by blast
    have "sint (word_of_int (n + 1) :: int32) = n + 1" using n by (intro sint32_of_int) simp_all
    moreover have "[n0..n] = [n0..n - 1] @ [n]" using r(3) by (simp add: upto_rec2)
    ultimately show ?thesis using split [OF w1(1)] w1(2,3) tr True assms(3) by fastforce
  next
    case False
    then have "work_task E t (Some 0, False) w = Some (Inr (t, Some 0, True), after_calls 1 w)"
      using work_task_late [OF r(1) t] r(4) by simp
    from split [OF this] show ?thesis
      using stands_height [OF assms(1,2)] r(1) tr False assms(3) by fastforce
  qed
qed

text \<open>
  Where the thread stands when exactly the blocks before \<open>m\<close> have been stored. Between the steps of a
  round, it is somewhere after a configuration in which it stood.
\<close>

definition follows :: "int \<Rightarrow> statement list \<Rightarrow> worker \<Rightarrow> 'a world \<Rightarrow> int \<Rightarrow> bool" where
  "follows n0 ss wk w m \<longleftrightarrow>
     (case wk_pc wk of
        At_start \<Rightarrow> wl_bktime (wk_locals wk) = 0 \<and> stands n0 ss m (wk_sched wk, wk_locals wk, w) \<and> m = n0
      | At_task i loc \<Rightarrow>
          i = 0 \<and> loc = (Some 0, False) \<and> stands n0 ss m (wk_sched wk, wk_locals wk, w) \<or>
          i = 1 \<and> (\<exists>s n w0 t t'. stands n0 ss n (s, wk_locals wk, w0) \<and> s_tasks s = [t] \<and>
            work_task E t (Some 0, False) w0 = Some (Inr (t', loc), w) \<and> wk_sched wk = s\<lparr>s_tasks := [t']\<rparr> \<and>
            m = (if n \<le> best (w_calls w0) then n + 1 else n))
      | At_called i loc ftask \<Rightarrow>
          i = 0 \<and> loc = (Some 0, False) \<and>
          (\<exists>n w0 t r. stands n0 ss n (wk_sched wk, wk_locals wk, w0) \<and> s_tasks (wk_sched wk) = [t] \<and>
            task_call E t w0 = Some (Inr (r, ftask), w) \<and> m = (if n \<le> best (w_calls w0) then n + 1 else n))
      | At_end \<Rightarrow> False)"

lemma follows_state:
  assumes "follows n0 ss wk w m"
  shows "trace (w_db w) = ss @ concat (map block_rows [n0..m - 1])" and "n0 \<le> m"
    and "\<exists>t. s_tasks (wk_sched wk) = [t] \<and> (t_height t = - 1 \<or> sint (t_height t) \<le> m)" and "wk_pc wk \<noteq> At_end"
proof -
  have *: "trace (w_db w) = ss @ concat (map block_rows [n0..m - 1]) \<and> n0 \<le> m \<and>
    (\<exists>t. s_tasks (wk_sched wk) = [t] \<and> (t_height t = - 1 \<or> sint (t_height t) \<le> m))"
  proof -
    have at: ?thesis if st: "stands n0 ss m (wk_sched wk, wk_locals wk, w)"
    proof -
      obtain t where t: "s_tasks (wk_sched wk) = [t]" using st by (auto simp: stands_def)
      show ?thesis using stands_height [OF st t] st t by (auto simp: stands_def)
    qed
    show ?thesis
    proof (cases "wk_pc wk")
      case At_start
      then have "stands n0 ss m (wk_sched wk, wk_locals wk, w)" using assms unfolding follows_def by auto
      then show ?thesis by (rule at)
    next
      case (At_task i loc)
      show ?thesis
      proof (cases "i = 0")
        case True
        then show ?thesis using assms At_task by (intro at) (simp add: follows_def)
      next
        case False
        then obtain s n w0 t t' where st: "stands n0 ss n (s, wk_locals wk, w0)" "s_tasks s = [t]"
          and wt: "work_task E t (Some 0, False) w0 = Some (Inr (t', loc), w)" "wk_sched wk = s\<lparr>s_tasks := [t']\<rparr>"
            "m = (if n \<le> best (w_calls w0) then n + 1 else n)"
          using assms At_task unfolding follows_def by auto
        have "n0 \<le> n" using st by (simp add: stands_def)
        with stands_called [OF st wt(3)] wt show ?thesis
          by (auto simp: work_task_def bindA_def liftR_def split: if_splits)
      qed
    next
      case (At_called i loc ftask)
      then obtain n w0 t r where st: "stands n0 ss n (wk_sched wk, wk_locals wk, w0)" "s_tasks (wk_sched wk) = [t]"
        and c: "task_call E t w0 = Some (Inr (r, ftask), w)" "m = (if n \<le> best (w_calls w0) then n + 1 else n)"
        using assms unfolding follows_def by auto
      have "n0 \<le> n" using st by (simp add: stands_def)
      with stands_called [OF st c(2)] stands_height [OF st] c st(2) show ?thesis by (auto split: if_splits)
    next
      case At_end
      then show ?thesis using assms by (simp add: follows_def)
    qed
  qed
  then show "trace (w_db w) = ss @ concat (map block_rows [n0..m - 1])" "n0 \<le> m"
    "\<exists>t. s_tasks (wk_sched wk) = [t] \<and> (t_height t = - 1 \<or> sint (t_height t) \<le> m)" by simp_all
  show "wk_pc wk \<noteq> At_end" using assms by (auto simp: follows_def)
qed

lemma follows_step:
  assumes "follows n0 ss wk w m"
  shows "\<exists>wk' w' m'. worker_step E wk w = Some (Inr wk', w') \<and> follows n0 ss wk' w' m' \<and> m \<le> m'"
proof (cases "wk_pc wk")
  case At_start
  then have st: "stands n0 ss m (wk_sched wk, wk_locals wk, w)" "m = n0" using assms by (auto simp: follows_def)
  obtain l w1 where w1: "work_start E w = Some (Inr l, w1)" "ready w1" "w_calls w1 = w_calls w" "w_db w1 = w_db w"
    "wl_bktime l = 0"
    using st(1) by (auto simp: stands_def work_start_def bindA_def read_clock_def retA_def ready_def)
  then have "stands n0 ss m (wk_sched wk, l, w1)" using st(1) by (simp add: stands_def)
  then show ?thesis
    using At_start w1(1) by (auto simp: worker_step_def bindA_def retA_def follows_def)
next
  case (At_task i loc)
  show ?thesis
  proof (cases "i = 0")
    case True
    then have st: "stands n0 ss m (wk_sched wk, wk_locals wk, w)" "loc = (Some 0, False)"
      using assms At_task by (simp_all add: follows_def)
    then obtain t where t: "s_tasks (wk_sched wk) = [t]" by (auto simp: stands_def)
    obtain r ftask w' where "task_call E t w = Some (Inr (r, ftask), w')"
      using stands_called [OF st(1) t refl] by blast
    then show ?thesis
      using At_task True st t
      by (intro exI [of _ "wk\<lparr>wk_pc := At_called 0 loc ftask\<rparr>"] exI [of _ w']
          exI [of _ "if m \<le> best (w_calls w) then m + 1 else m"])
        (auto simp: worker_step_def bindA_def retA_def follows_def)
  next
    case False
    then obtain s n w0 t t' where i: "i = 1" and st: "stands n0 ss n (s, wk_locals wk, w0)" "s_tasks s = [t]"
      and wt: "work_task E t (Some 0, False) w0 = Some (Inr (t', loc), w)" "wk_sched wk = s\<lparr>s_tasks := [t']\<rparr>"
        "m = (if n \<le> best (w_calls w0) then n + 1 else n)"
      using assms At_task unfolding follows_def by auto
    obtain ms s' l' w' where r: "work_round E s (wk_locals wk) w0 = Some (Inr (Slept ms, s', l'), w')"
      "stands n0 ss m (s', l', w')"
      using stands_round [OF st(1)] wt(3) by auto
    have "work_tasks E (s_tasks s) (Some 0, False) w0 = Some (Inr ([t'], loc), w)"
      unfolding st(2) by (rule work_tasks_one) (rule wt(1))
    then have "after_tasks E (wk_sched wk) (wk_locals wk) loc w = Some (Inr (Slept ms, s', l'), w')"
      using r(1) by (simp add: work_round_def bindA_def wt(2))
    then show ?thesis
      using At_task i wt(2) r(2)
      by (auto simp: worker_step_def bindA_def retA_def after_round_def follows_def)
  qed
next
  case (At_called i loc ftask)
  then obtain n w0 t r where i: "i = 0" "loc = (Some 0, False)"
    and st: "stands n0 ss n (wk_sched wk, wk_locals wk, w0)" "s_tasks (wk_sched wk) = [t]"
    and c: "task_call E t w0 = Some (Inr (r, ftask), w)" "m = (if n \<le> best (w_calls w0) then n + 1 else n)"
    using assms unfolding follows_def by auto
  obtain t' loc' where wb: "write_back t ftask (Some 0, False) = Inr (t', loc')"
    using stands_called [OF st c(2)] c(1) by auto
  then have "work_task E t (Some 0, False) w0 = Some (Inr (t', loc'), w)"
    using c(1) by (simp add: work_task_def bindA_def liftR_def)
  then have "follows n0 ss (wk\<lparr>wk_sched := (wk_sched wk)\<lparr>s_tasks := [t']\<rparr>, wk_pc := At_task 1 loc'\<rparr>) w m"
    using st c(2) by (simp add: follows_def del: if_split) blast
  then show ?thesis
    using At_called i st(2) wb by (auto simp: worker_step_def bindA_def retA_def liftR_def)
next
  case At_end
  then show ?thesis using assms by (simp add: follows_def)
qed

subsection \<open>The process\<close>

text \<open>
  The process when exactly the blocks before \<open>m\<close> have been stored, after a start with the statements \<open>ss\<close>:
  while the main thread waits there is only the thread of the first run; afterwards that thread has
  nothing left to do but to end, and the other one starts where it stopped.
\<close>

definition first_gone :: "'a process \<Rightarrow> bool" where
  "first_gone P \<longleftrightarrow> (\<forall>wk. pr_init P = Some wk \<longrightarrow> leaving wk)"

definition stage :: "statement list \<Rightarrow> nat \<Rightarrow> int32 \<Rightarrow> int \<Rightarrow> 'a process \<Rightarrow> bool" where
  "stage ss k q m P \<longleftrightarrow> pr_exn P = None \<and> trace (w_db (pr_world P)) = ss @ concat (map block_rows [0..m - 1]) \<and>
     (case pr_main P of
        Main_waits seq \<Rightarrow> pr_follow P = None \<and> w_sequence (pr_world P) = q \<and>
          (\<exists>wk. pr_init P = Some wk \<and> first_run k wk (pr_world P) m)
      | Main_starts h \<Rightarrow> pr_follow P = None \<and> w_sequence (pr_world P) = q \<and> first_gone P \<and>
          ready (pr_world P) \<and> h = word_of_int (best k + 1) \<and> m = best k + 1
      | Main_polls seq h \<Rightarrow> first_gone P \<and> sint h \<le> m \<and>
          (\<exists>wk. pr_follow P = Some wk \<and>
            follows (best k + 1) (ss @ concat (map block_rows [0..best k])) wk (pr_world P) m))"

lemma upto_join: "0 \<le> a \<Longrightarrow> a < m \<Longrightarrow> [0..m - 1] = [0..a] @ [a + 1..m - 1]"
  using upto_split2 [of 0 a "m - 1"] by simp

text \<open>No thread throws.\<close>

lemma stage_runs:
  assumes "stage ss k q m P" and "pr_init P = Some wk \<or> pr_follow P = Some wk" and "wk_pc wk \<noteq> At_end"
  shows "\<exists>wk' w'. worker_step E wk (pr_world P) = Some (Inr wk', w')"
proof -
  consider (first) "first_run k wk (pr_world P) m" | (leaving) "leaving wk"
    | (follow) "follows (best k + 1) (ss @ concat (map block_rows [0..best k])) wk (pr_world P) m"
    using assms(1,2) by (auto simp: stage_def first_gone_def split: main_pc.splits)
  then show ?thesis
  proof cases
    case first
    then show ?thesis using first_run_step [OF _ assms(3)] by blast
  next
    case leaving
    then show ?thesis using leaving_step [OF _ assms(3)] by blast
  next
    case follow
    then show ?thesis using follows_step by blast
  qed
qed

text \<open>The main thread starts the second schedule.\<close>

lemma main_begins:
  assumes "stage ss k q m P" and "pr_main P = Main_starts h" and "sint q < 2 ^ 31 - 1"
  shows "\<exists>sched w'. main_begin h (pr_world P) = Some (Inr (sched, Main_polls q h), w') \<and>
    stage ss k q m (P\<lparr>pr_follow := Some (new_worker sched), pr_main := Main_polls q h, pr_world := w'\<rparr>)"
proof -
  have p: "pr_follow P = None" "w_sequence (pr_world P) = q" "first_gone P" "ready (pr_world P)"
    "h = word_of_int (best k + 1)" "m = best k + 1" "trace (w_db (pr_world P)) = ss @ concat (map block_rows [0..m - 1])"
    "pr_exn P = None"
    using assms(1,2) by (auto simp: stage_def)
  have b: "0 \<le> best k" "best k + 1 < 2 ^ 31 - 1" using best_range [of k] by simp_all
  let ?n = "best k + 1" and ?cmd = "dec_int (best k + 1)"
  define t where "t = (new_task_for TASK_BLOCK_OR_TRANS ?cmd)\<lparr>t_sequence := q\<rparr>"
  let ?sched = "(new_schedule 0)\<lparr>s_tasks := [t]\<rparr>" and ?w = "(pr_world P)\<lparr>w_sequence := q + 1\<rparr>"
  have n: "sint (word_of_int ?n :: int32) = ?n" "sint (word_of_int ?n :: int64) = ?n"
    using b by (intro sint32_of_int sint64_of_int; simp)+
  have cmd: "i64tostr (scast (word_of_int ?n :: int32)) = Inr ?cmd" using i64tostr_widen [of "word_of_int ?n"] n by simp
  have reg: "registerTask TASK_BLOCK_OR_TRANS ?cmd (new_schedule 0) (pr_world P) = Some (Inr (q, ?sched), ?w)"
    using registerTask_eq [of "pr_world P" TASK_BLOCK_OR_TRANS ?cmd "new_schedule 0"] assms(3) p(2)
    by (simp add: t_def new_schedule_def)
  have "main_begin h (pr_world P) = Some (Inr (?sched, Main_polls q h), ?w)"
    using cmd reg p(5) by (simp add: main_begin_def bindA_def liftR_def retA_def)
  moreover have "wanted t = word_of_int ?n"
    using atoi64_dec [of "word_of_int ?n"] n by (simp add: wanted_def t_def new_task_for_def new_task_def)
  then have "follows ?n (ss @ concat (map block_rows [0..best k])) (new_worker ?sched) ?w m"
    using p b by (simp add: follows_def new_worker_def stands_def new_schedule_def ready_def t_def new_task_for_def)
  moreover have "sint h \<le> m" using n p by simp
  ultimately show ?thesis using p(3,7,8) by (auto simp: stage_def first_gone_def)
qed

lemma stage_step:
  assumes "stage ss k q m P" and "process_step E P P'" and "sint q < 2 ^ 31 - 1"
  shows "\<exists>m' \<ge> m. stage ss k q m' P'"
  using assms(2)
proof (cases rule: process_step.cases)
  case (init_thread wk wk' w')
  show ?thesis
  proof (cases "pr_main P")
    case (Main_waits seq)
    then have fr: "first_run k wk (pr_world P) m" "pr_follow P = None" "w_sequence (pr_world P) = q"
      using assms(1) init_thread(3) by (auto simp: stage_def)
    from first_run_step [OF fr(1) init_thread(4)] obtain m' where m': "first_run k wk' w' m'"
      "w_sequence w' = q" "m' = m \<and> trace (w_db w') = trace (w_db (pr_world P)) \<or>
        m = 0 \<and> m' = best k + 1 \<and>
          trace (w_db w') = trace (w_db (pr_world P)) @ concat (map block_rows [0..best k])"
      using init_thread(5) fr(3) by auto
    have "m \<le> m'" using m'(3) best_range [of k] by auto
    moreover have "trace (w_db w') = ss @ concat (map block_rows [0..m' - 1])"
      using m'(3) assms(1) by (auto simp: stage_def)
    ultimately show ?thesis
      using init_thread(1,2) Main_waits fr(2) m'(1,2) by (auto simp: stage_def intro!: exI [of _ m'])
  next
    case (Main_starts h)
    then have "leaving wk" using assms(1) init_thread(3) by (auto simp: stage_def first_gone_def)
    from leaving_step [OF this init_thread(4), of E "pr_world P"] have "leaving wk'" "w' = pr_world P"
      using init_thread(5) by auto
    then show ?thesis
      using init_thread(1) Main_starts assms(1) by (auto simp: stage_def first_gone_def)
  next
    case (Main_polls seq h)
    then have "leaving wk" using assms(1) init_thread(3) by (auto simp: stage_def first_gone_def)
    from leaving_step [OF this init_thread(4), of E "pr_world P"] have "leaving wk'" "w' = pr_world P"
      using init_thread(5) by auto
    then show ?thesis
      using init_thread(1) Main_polls assms(1) by (auto simp: stage_def first_gone_def)
  qed
next
  case (follow_thread wk wk' w')
  then obtain seq h where p: "pr_main P = Main_polls seq h" "first_gone P" "sint h \<le> m"
    and f: "follows (best k + 1) (ss @ concat (map block_rows [0..best k])) wk (pr_world P) m"
    using assms(1) by (auto simp: stage_def split: main_pc.splits)
  from follows_step [OF f] obtain m' where m': "follows (best k + 1) (ss @ concat (map block_rows [0..best k])) wk' w' m'"
    "m \<le> m'" using follow_thread(5) by auto
  have "[0..m' - 1] = [0..best k] @ [best k + 1..m' - 1]"
    using follows_state(2) [OF m'(1)] best_range [of k] by (intro upto_join) simp_all
  then show ?thesis
    using p m' follow_thread(1,2) follows_state(1) [OF m'(1)]
    by (auto simp: stage_def first_gone_def intro!: exI [of _ m'])
next
  case (waits seq wk pc)
  then have fr: "first_run k wk (pr_world P) m" "pr_follow P = None" "w_sequence (pr_world P) = q"
    using assms(1) by (auto simp: stage_def)
  have l: "length (s_tasks (wk_sched wk)) = 1" "s_onceRun (wk_sched wk) \<noteq> 0" "ready (pr_world P)"
    using fr(1) by (auto simp: first_run_def)
  from first_run_wait [OF fr(1), of seq] waits(5)
  consider "pc = Main_waits seq" | "pc = Main_starts (word_of_int (best k + 1))" "m = best k + 1" "leaving wk"
    using l by (auto simp: leaving_def)
  then show ?thesis
  proof cases
    case 1
    then have "P' = P" using waits(1,3) by (cases P) simp
    then show ?thesis using assms(1) by blast
  next
    case 2
    then show ?thesis using waits fr l(3) assms(1) by (auto simp: stage_def first_gone_def)
  qed
next
  case (starts h sched pc w')
  then show ?thesis using main_begins [OF assms(1) starts(3) assms(3)] by auto
next
  case (start_throws h e w')
  then show ?thesis using main_begins [OF assms(1) start_throws(3) assms(3)] by auto
next
  case (init_throws wk e w')
  then show ?thesis using stage_runs [OF assms(1), of wk] by auto
next
  case (follow_throws wk e w')
  then show ?thesis using stage_runs [OF assms(1), of wk] by auto
next
  case (wait_throws seq wk e)
  then have "first_run k wk (pr_world P) m" using assms(1) by (auto simp: stage_def)
  then show ?thesis using first_run_wait(1) [of k wk "pr_world P" m seq] wait_throws(5) by auto
next
  case (polls seq h wk)
  then have p: "first_gone P" "sint h \<le> m"
    and f: "follows (best k + 1) (ss @ concat (map block_rows [0..best k])) wk (pr_world P) m"
    using assms(1) by (auto simp: stage_def)
  from follows_state(3) [OF f] have "sint (main_poll seq (wk_sched wk) h) \<le> m"
    using p(2) by (auto simp: main_poll_def getTask_def)
  then show ?thesis using polls(1,4) p f assms(1) by (auto simp: stage_def first_gone_def)
qed

text \<open>How many changes the main thread still waits for, at most.\<close>

lemma waiting_step:
  assumes "stage ss k q m P" and "process_step E P P'" and "P' \<noteq> P" and "pr_main P' = Main_waits seq"
    and "sint q < 2 ^ 31 - 1"
  shows "pr_main P = Main_waits seq \<and> waiting_left P' < waiting_left P"
  using assms(2)
proof (cases rule: process_step.cases)
  case (init_thread wk wk' w')
  then have w: "pr_main P = Main_waits seq" using assms(4) by simp
  then have "first_run k wk (pr_world P) m" using assms(1) init_thread(3) by (auto simp: stage_def)
  from first_run_step [OF this init_thread(4)] show ?thesis
    using init_thread w by (auto simp: waiting_left_def)
next
  case (init_throws wk e w')
  then show ?thesis using stage_runs [OF assms(1), of wk] by auto
next
  case (follow_thread wk wk' w')
  then show ?thesis using assms(1,4) by (auto simp: stage_def)
next
  case (follow_throws wk e w')
  then show ?thesis using stage_runs [OF assms(1), of wk] by auto
next
  case (waits seq' wk pc)
  then have "first_run k wk (pr_world P) m" using assms(1) by (auto simp: stage_def)
  from first_run_wait(1) [OF this, of seq'] have "pc = Main_waits seq'" using waits(1,5) assms(4) by auto
  then have "P' = P" using waits(1,3) by (cases P) simp
  then show ?thesis using assms(3) by simp
next
  case (wait_throws seq' wk e)
  then have "first_run k wk (pr_world P) m" using assms(1) by (auto simp: stage_def)
  then show ?thesis using first_run_wait(1) [of k wk "pr_world P" m seq'] wait_throws(5) by auto
next
  case (starts h sched pc w')
  then show ?thesis using main_begins [OF assms(1) starts(3) assms(5)] assms(4) by auto
next
  case (start_throws h e w')
  then show ?thesis using assms(4) by simp
next
  case (polls seq' h wk)
  then show ?thesis using assms(4) by simp
qed

lemma waiting_moves:
  assumes "stage ss k q m P" and "pr_main P = Main_waits seq"
  shows "\<exists>P'. process_step E P P' \<and> P' \<noteq> P"
proof -
  obtain wk where wk: "pr_init P = Some wk" "first_run k wk (pr_world P) m" and e: "pr_exn P = None"
    using assms by (auto simp: stage_def)
  show ?thesis
  proof (cases "wk_pc wk = At_end")
    case True
    from process_step.waits [OF e assms(2) wk(1) first_run_wait(2) [OF wk(2) True]]
    show ?thesis using assms(2) by (metis main_pc.distinct(1) process.select_convs(3) process.surjective process.update_convs(3))
  next
    case False
    from first_run_step [OF wk(2) False] obtain wk' w' where
      s: "worker_step E wk (pr_world P) = Some (Inr wk', w')" "first_left (wk_pc wk') < first_left (wk_pc wk)" by blast
    let ?P = "P\<lparr>pr_init := Some wk', pr_world := w'\<rparr>"
    have "pr_init ?P \<noteq> pr_init P" using s(2) wk(1) by auto
    then have "?P \<noteq> P" by metis
    then show ?thesis using process_step.init_thread [OF e wk(1) False s(1)] by blast
  qed
qed

lemma stage_reachable:
  assumes "(process_step E)\<^sup>*\<^sup>* P P'" and "stage ss k q m P" and "sint q < 2 ^ 31 - 1"
  shows "\<exists>m' \<ge> m. stage ss k q m' P'"
  using assms
proof (induction rule: rtranclp_induct)
  case base
  then show ?case by blast
next
  case (step P1 P2)
  then obtain m1 where "m \<le> m1" "stage ss k q m1 P1" by blast
  with stage_step [OF this(2) step.hyps(2) assms(3)] show ?case by (meson order_trans)
qed

lemma waiting_bound:
  assumes "stage ss k q 0 P0" and "sint q < 2 ^ 31 - 1"
  shows "((\<lambda>P P'. process_step E P P' \<and> P' \<noteq> P) ^^ j) P0 P \<Longrightarrow> pr_main P = Main_waits seq \<Longrightarrow>
    j + waiting_left P \<le> waiting_left P0 \<and> (\<exists>P'. process_step E P P' \<and> P' \<noteq> P)"
proof (induction j arbitrary: P)
  case 0
  then show ?case using waiting_moves [OF assms(1)] by simp
next
  case (Suc j)
  then obtain P1 where 1: "((\<lambda>P P'. process_step E P P' \<and> P' \<noteq> P) ^^ j) P0 P1" "process_step E P1 P" "P \<noteq> P1" by auto
  have r: "(process_step E)\<^sup>*\<^sup>* P0 P1"
    using relpowp_imp_rtranclp [OF 1(1)]
    by (induction rule: rtranclp_induct) (auto intro: rtranclp.rtrancl_into_rtrancl)
  obtain m where m: "stage ss k q m P1" using stage_reachable [OF r assms] by blast
  from stage_step [OF m 1(2) assms(2)] obtain m' where m': "stage ss k q m' P" by blast
  from waiting_step [OF m 1(2,3) Suc.prems(2) assms(2)] Suc.IH [OF 1(1)] waiting_moves [OF m' Suc.prems(2)]
  show ?case by auto
qed

lemma stage_exn: "stage ss k q m P \<Longrightarrow> pr_exn P = None"
  by (simp add: stage_def)

lemma stage_starts:
  assumes "stage ss k q m P" and "pr_main P = Main_starts h" and "sint q < 2 ^ 31 - 1"
  shows "sint h = best k + 1 \<and> m = sint h \<and> (\<exists>r w'. main_begin h (pr_world P) = Some (Inr r, w'))"
proof -
  have "sint (word_of_int (best k + 1) :: int32) = best k + 1"
    using best_range [of k] by (intro sint32_of_int) simp_all
  then show ?thesis using assms(1,2) main_begins [OF assms] by (auto simp: stage_def)
qed

lemma stage_trace: "stage ss k q m P \<Longrightarrow> trace (w_db (pr_world P)) = ss @ concat (map block_rows [0..m - 1])"
  by (simp add: stage_def)

lemma stage_polls:
  assumes "stage ss k q m P" and "pr_main P = Main_polls seq h"
  shows "best k < m \<and> sint h \<le> m"
proof -
  obtain wk where "follows (best k + 1) (ss @ concat (map block_rows [0..best k])) wk (pr_world P) m" "sint h \<le> m"
    using assms by (auto simp: stage_def)
  then show ?thesis using follows_state(2) by fastforce
qed

lemma process_start_eq:
  assumes "w_args w = args0" and "\<forall>a b u p port d. fst (db_connect (e_db E) a b u p port d) = Inr True"
    and "\<forall>d. trace d = trace (w_db w) \<longrightarrow> fst (queryBlockCount (e_db E) d) = Inr 0"
    and "sint (w_sequence w) < 2 ^ 31 - 2"
  shows "\<exists>P. process_start E w = Some (Inr P) \<and> stage (trace (w_db w)) (w_calls w) (w_sequence w + 1) 0 P \<and>
    waiting_left P = 4"
proof -
  let ?q = "w_sequence w"
  let ?s = "(new_schedule once)\<lparr>s_tasks := [first_task ?q]\<rparr>"
  obtain r w1 w2 w3 where w3: "init_db E w = Some (Inr r, w1)" "block_count E w1 = Some (Inr 0, w2)"
    "registerTask TASK_BLOCKGENSIS (dec_int 0) (new_schedule once) w2 = Some (Inr (?q, ?s), w3)"
    "ready w3" "trace (w_db w3) = trace (w_db w)" "w_calls w3 = w_calls w" "w_sequence w3 = ?q + 1"
    using fresh_registered [OF assms] by auto
  let ?P = "\<lparr>pr_init = Some (new_worker ?s), pr_follow = None, pr_main = Main_waits ?q, pr_world = w3, pr_exn = None\<rparr>"
  have "process_start E w = Some (Inr ?P)"
    using w3(1-3) i64tostr_widen [of 0] by (simp add: process_start_def bindA_def liftR_def retA_def)
  moreover have "stage (trace (w_db w)) (w_calls w) (?q + 1) 0 ?P"
    using w3(4-7) by (simp add: stage_def first_run_def new_worker_def new_schedule_def once_def)
  moreover have "waiting_left ?P = 4" by (simp add: waiting_left_def new_worker_def)
  ultimately show ?thesis by blast
qed

end

subsection \<open>Properties\<close>

text \<open>
  C5: Whatever the scheduler does: after a start on an empty database, in every state the process can
  get to by steps of the main thread and of the threads of both schedules in any order, no exception
  has left a thread, every thread can take its next step, and the statements
  executed are exactly those of block 0, block 1 and so on below some block, in order, once each and
  without a gap. The main thread does leave its waiting loop: as long as it waits some thread can change the
  state, and at most four changes happen before it leaves. It leaves with the height after the best one, and
  exactly the blocks below it are stored; it then starts the second schedule. Once it is in its last loop, every
  block below the height it has printed is stored. The node is as in \<open>steady_node\<close>, with times that are dates from
  1970 to 9999.
\<close>

theorem interleaved_start:
  assumes "steady_node E trace chain txs details best args0 rd"
    and "w_args w = args0"
    and "\<forall>a b u p port d. fst (db_connect (e_db E) a b u p port d) = Inr True"
    and "\<forall>d. trace d = trace (w_db w) \<longrightarrow> fst (queryBlockCount (e_db E) d) = Inr 0"
    and "sint (w_sequence w) < 2 ^ 31 - 2"
  shows "\<exists>P0. process_start E w = Some (Inr P0) \<and>
    (\<forall>P. (process_step E)\<^sup>*\<^sup>* P0 P \<longrightarrow>
      pr_exn P = None \<and>
      (\<exists>m \<ge> 0. trace (w_db (pr_world P)) =
          trace (w_db w) @ concat (map (rows_of_block (e_db E) chain txs) [0..m - 1]) \<and>
        (\<forall>h. pr_main P = Main_starts h \<longrightarrow> sint h = best (w_calls w) + 1 \<and> m = sint h \<and>
          (\<exists>r w'. main_begin h (pr_world P) = Some (Inr r, w'))) \<and>
        (\<forall>seq h. pr_main P = Main_polls seq h \<longrightarrow> best (w_calls w) < m \<and> sint h \<le> m)) \<and>
      (\<forall>wk. (pr_init P = Some wk \<or> pr_follow P = Some wk) \<and> wk_pc wk \<noteq> At_end \<longrightarrow>
        (\<exists>wk' w'. worker_step E wk (pr_world P) = Some (Inr wk', w')))) \<and>
    (\<forall>j P seq. ((\<lambda>P P'. process_step E P P' \<and> P' \<noteq> P) ^^ j) P0 P \<and> pr_main P = Main_waits seq \<longrightarrow>
      j \<le> 4 \<and> (\<exists>P'. process_step E P P' \<and> P' \<noteq> P))"
proof -
  let ?k = "w_calls w" and ?q = "w_sequence w + 1"
  note node = assms(1)
  obtain P0 where P0: "process_start E w = Some (Inr P0)"
    "steady_node.stage E trace chain txs best args0 (trace (w_db w)) ?k ?q 0 P0"
    "waiting_left P0 = 4"
    using steady_node.process_start_eq [OF assms] by blast
  have "sint (word_of_int (sint (w_sequence w) + 1) :: int32) = sint (w_sequence w) + 1"
    using assms(5) sint_ge [of "w_sequence w"] by (intro sint32_of_int) simp_all
  then have q: "sint ?q < 2 ^ 31 - 1" using assms(5) by simp
  show ?thesis
  proof (rule exI [of _ P0], intro conjI allI impI)
    fix P
    assume "(process_step E)\<^sup>*\<^sup>* P0 P"
    from steady_node.stage_reachable [OF node this P0(2) q] obtain m where m: "0 \<le> m"
      "steady_node.stage E trace chain txs best args0 (trace (w_db w)) ?k ?q m P" by blast
    show "pr_exn P = None" by (rule steady_node.stage_exn [OF node m(2)])
    show "\<exists>m \<ge> 0. trace (w_db (pr_world P)) =
          trace (w_db w) @ concat (map (rows_of_block (e_db E) chain txs) [0..m - 1]) \<and>
        (\<forall>h. pr_main P = Main_starts h \<longrightarrow> sint h = best ?k + 1 \<and> m = sint h \<and>
          (\<exists>r w'. main_begin h (pr_world P) = Some (Inr r, w'))) \<and>
        (\<forall>seq h. pr_main P = Main_polls seq h \<longrightarrow> best ?k < m \<and> sint h \<le> m)"
      using m(1) steady_node.stage_trace [OF node m(2)] steady_node.stage_polls [OF node m(2)]
        steady_node.stage_starts [OF node m(2) _ q] by blast
    fix wk
    assume "(pr_init P = Some wk \<or> pr_follow P = Some wk) \<and> wk_pc wk \<noteq> At_end"
    then show "\<exists>wk' w'. worker_step E wk (pr_world P) = Some (Inr wk', w')"
      using steady_node.stage_runs [OF node m(2)] by blast
  next
    fix j P seq
    assume "((\<lambda>P P'. process_step E P P' \<and> P' \<noteq> P) ^^ j) P0 P \<and> pr_main P = Main_waits seq"
    with steady_node.waiting_bound [OF node P0(2) q] P0(3)
    show "j \<le> 4" "\<exists>P'. process_step E P P' \<and> P' \<noteq> P" by fastforce+
  qed (rule P0(1))
qed

end
