(* ===== verification/RefNode.thy ===== *)
theory RefNode
  imports Interleave
begin

section \<open>A node that meets the interface\<close>

text \<open>
  The laws of the locales \<open>node\<close> and \<open>steady_node\<close> are met by a concrete environment: a peer that
  reads the posted request with the server's own readers, answers it with \<open>HTTPReply\<close>, and has a
  chain that grows by one block with every call, and a database that keeps the statements and has
  \<open>old\<close> block rows from before.
\<close>

subsection \<open>Lengths\<close>

lemma dec_digits_length: "0 \<le> n \<Longrightarrow> n < 10 ^ k \<Longrightarrow> 0 < k \<Longrightarrow> length (dec_digits n) \<le> k"
proof (induction k arbitrary: n)
  case 0
  then show ?case by simp
next
  case (Suc k)
  show ?case
  proof (cases "n < 10")
    case True
    then show ?thesis by (subst dec_digits.simps) simp
  next
    case False
    then have "0 < k" using Suc.prems(2) by (cases k) auto
    then have "length (dec_digits (n div 10)) \<le> k" using Suc.prems by (intro Suc.IH) auto
    then show ?thesis using False by (subst dec_digits.simps) simp
  qed
qed

lemma dec_int_length:
  assumes "\<bar>i\<bar> < 10 ^ 20"
  shows "length (dec_int i) \<le> 21"
  using dec_digits_length [of "\<bar>i\<bar>" 20] assms by (auto simp: dec_int_def abs_if)

lemma int64_length: "length (dec_int (sint (i :: int64))) \<le> 21" "length (dec_int (uint (i :: int64))) \<le> 21"
proof -
  have "- (2 ^ 63) \<le> sint i" "sint i < 2 ^ 63" "0 \<le> uint i" "uint i < 2 ^ 64"
    using sint_ge [of i] sint_lt [of i] unsigned_less [of i, where ?'a = int] by simp_all
  then show "length (dec_int (sint i)) \<le> 21" "length (dec_int (uint i)) \<le> 21"
    by (intro dec_int_length; simp add: abs_less_iff)+
qed

fun size_bound :: "jvalue \<Rightarrow> nat" where
  "size_bound (VObj ms) = 2 + sum_list (map (\<lambda>(k, v). 6 * length k + 4 + size_bound v) ms)"
| "size_bound (VArr vs) = 2 + sum_list (map (\<lambda>v. size_bound v + 1) vs)"
| "size_bound (VStr s) = 6 * length s + 2"
| "size_bound (VBool b) = 5"
| "size_bound (VInt i u) = 21"
| "size_bound (VReal d) = length (fixed8 d)"
| "size_bound VNull = 4"

lemma quoted_length: "length (quoted s) \<le> Suc (Suc (6 * length s))"
proof -
  have "length (escape s) \<le> 6 * length s" by (induction s) (auto simp: escape_def)
  then show ?thesis by (simp add: quoted_def)
qed

lemma json_text_length:
  shows "length (json_text False n v) \<le> size_bound v"
    and "length (elements_text False n vs) \<le> sum_list (map (\<lambda>v. size_bound v + 1) vs)"
    and "length (members_text False n ms) \<le> sum_list (map (\<lambda>(k, v). 6 * length k + 4 + size_bound v) ms)"
proof (induction "False" n v and "False" n vs and "False" n ms
    rule: json_text_elements_text_members_text.induct)
  case (9 n v vs)
  then show ?case by (auto simp: ind_def nl_def comma_def)
next
  case (11 n k v ms)
  then show ?case using quoted_length [of k] by (auto simp: ind_def nl_def sp_def comma_def)
qed (simp_all add: quoted_length int64_length nl_def ind_def)

subsection \<open>The peer\<close>

definition serve :: "(string \<Rightarrow> jvalue list \<Rightarrow> jvalue) \<Rightarrow> string \<Rightarrow> string" where
  "serve f post =
     (case ReadHTTPRequestLine words post 0 [] [] of (_, nProto, _, _, stream) \<Rightarrow>
      case ReadHTTPMessage strip low stream nProto of (_, _, strRequest, _) \<Rightarrow>
      case read_string ref_parse strRequest VNull of
        Some (Inr (True, VObj [(_, VStr strMethod), (_, VArr params), (_, ident)])) \<Rightarrow>
          (case bindR (JSONRPCReply (f strMethod params) VNull ident) (\<lambda>body.
              HTTPReply ''now'' HTTP_OK body True) of
             Inr reply \<Rightarrow> reply
           | Inl _ \<Rightarrow> [])
      | _ \<Rightarrow> [])"

definition served_env :: "(string \<Rightarrow> jvalue list \<Rightarrow> jvalue) \<Rightarrow> rpc_env" where
  "served_env f = (example_env '''')\<lparr>env_serve := serve f\<rparr>"

text \<open>The arguments after reading the default configuration.\<close>

definition ref_args :: args where
  "ref_args =
     [(''-database'', ''fidchainblock''), (''-dbname'', ''fidchain''), (''-dbpasswd'', ''123123''),
      (''-dbport'', ''3306''), (''-dburl'', ''127.0.0.1''), (''-rpcconnect'', ''139.224.13.20''),
      (''-rpcpassword'', ''DSBs3pKSdpiTAPDms''), (''-rpcuser'', ''fidchainrpc20''),
      (''database'', []), (''rpcuser'', [])]"

lemma served_env_laws:
  "boost_strings (env_split (served_env f)) (env_trim (served_env f)) (env_lower (served_env f))"
  "json_prims (env_parse (served_env f)) ref_real ref_int ref_uint ref_string ref_rd"
  using ref_strings.boost_strings_axioms ref.json_prims_axioms by (simp_all add: served_env_def example_env_def)

text \<open>The peer sends what \<open>f\<close> answers, if the texts are short enough and reread unchanged.\<close>

lemma served_call:
  assumes "\<forall>p \<in> set params. writable p" and "map (reread ref_rd) params = params"
    and "size_bound (request_object strMethod params) < 999999"
    and "writable (f strMethod params)" and "reread ref_rd (f strMethod params) = f strMethod params"
    and "size_bound (VObj (answer (f strMethod params))) < 999999"
  shows "serves ref_rd ref_args (served_env f) strMethod params (f strMethod params)"
proof -
  let ?E = "served_env f" and ?r = "f strMethod params"
  define b where "b = json_text False 0 (request_object strMethod params) @ [CHR 0x0A]"
  define a where "a = json_text False 0 (VObj (answer ?r)) @ [CHR 0x0A]"
  have bt: "JSONRPCRequest strMethod params (value_of_int 1) = Inr b" unfolding b_def by (rule JSONRPCRequest_text)
  have lb: "int (length b) \<le> MAX_SIZE"
    using json_text_length(1) [of 0 "request_object strMethod params"] assms(3) by (simp add: MAX_SIZE_def b_def)
  have at: "JSONRPCReply ?r VNull (VInt 1 False) = Inr a" unfolding a_def answer_def by (rule JSONRPCReply_text)
  have la: "int (length a) \<le> MAX_SIZE"
    using json_text_length(1) [of 0 "VObj (answer ?r)"] assms(6) by (simp add: MAX_SIZE_def a_def)
  obtain reply where reply: "HTTPReply ''now'' HTTP_OK a True = Inr reply"
    using reply_text [OF _ la, of HTTP_OK "''now''" True] by (auto simp: http_codes)
  from request_served [OF ref_strings.boost_strings_axioms ref.json_prims_axioms assms(1) bt lb,
      of ref_args 0 "[]" "[]" VNull]
  obtain post rest h where p: "request_post (fst (request_headers ref_args)) strMethod params = Inr post"
    "ReadHTTPRequestLine words post 0 [] [] = (True, 1, ''POST'', ''/'', rest)"
    "ReadHTTPMessage strip low rest 1 = (HTTP_OK, h, b, [])"
    "read_string ref_parse b VNull = Some (Inr (True, reread ref_rd (request_object strMethod params)))"
    by blast
  have req: "reread ref_rd (request_object strMethod params) = request_object strMethod params"
    using assms(2) by (simp add: request_object_def)
  have sv: "env_serve ?E post = reply"
    by (simp add: served_env_def serve_def p(2-4) req reply at) (simp add: request_object_def at reply)
  have now: "CHR 0x0A \<notin> set ''now''" by simp
  have sent: "HTTPReply ''now'' HTTP_OK a True = Inr (env_serve ?E post)" by (simp only: sv reply)
  show ?thesis
    unfolding serves_def replies_def
    by (intro conjI exI) (rule assms(4), rule assms(5), simp, simp, simp, rule p(1), rule now, rule at, rule la, rule sent)
qed

subsection \<open>A growing chain\<close>

text \<open>One coin, as the reference library rereads it.\<close>

definition one_coin :: double where
  "one_coin = DFin False (2 ^ 52) (- 52)"

lemma one_coin_text: "fixed8 one_coin = ''1.00000000''" by code_simp

lemma one_coin_read: "ref_real ''1.00000000'' = Some (one_coin, [])"
proof -
  have d: "is_digit CHR ''0''" "is_digit CHR ''1''" "\<not> is_digit CHR ''.''" "digit_val CHR ''0'' = 0"
    "digit_val CHR ''1'' = 1" "bit_len 100000000 = 27"
    by code_simp+
  have "decimal_double False 100000000 (length ''00000000'') = one_coin"
    by (simp add: decimal_double_def one_coin_def d(6) round_half_even_def)
  then show ?thesis by (simp add: ref_real_def sign_of_def d(1-5))
qed

lemma one_coin_stable [simp]: "ref_rd one_coin = one_coin" "finite_double one_coin" "length (fixed8 one_coin) = 10"
  by (simp_all add: ref_rd_def one_coin_text one_coin_read) code_simp

definition ref_tx :: CFidTransaction where
  "ref_tx = (received_tx [coinbase_vin] [plain_vout\<lparr>vout_value := Some one_coin\<rparr>])\<lparr>tx_amount := one_coin\<rparr>"

definition ref_block :: "int \<Rightarrow> CFidBlock" where
  "ref_block n = (bk_clear new_block)\<lparr>bk_hash := ''00ff'', bk_height := Some (word_of_int n),
     bk_time := Some (word_of_int (1500000000 + 64 * n)), bk_mint := Some one_coin,
     bk_difficulty := Some one_coin, bk_vtx := [''ab'']\<rparr>"

definition ref_best :: "nat \<Rightarrow> int" where
  "ref_best k = min (int k) 1000000"

definition ref_answer :: "nat \<Rightarrow> string \<Rightarrow> jvalue list \<Rightarrow> jvalue" where
  "ref_answer k strMethod params =
     (if strMethod = ''getblockcount'' then VInt (word_of_int (ref_best k)) False
      else if strMethod = ''getblockbynumber'' then
        (case params of [VInt i _] \<Rightarrow> VObj (block_object (ref_block (sint i))) | _ \<Rightarrow> VNull)
      else if strMethod = ''gettransaction'' then VObj (tx_object [] ref_tx)
      else VNull)"

definition ref_db :: "nat \<Rightarrow> statement list db_ops" where
  "ref_db old = (log_db (\<lambda>_. None))\<lparr>db_store := (\<lambda>q d. (Inr (Some [[dec_int (int old +
     int (length (filter (\<lambda>s. (''table'', SText ''block'') \<in> set (st_defaults s)) d)))]]), d))\<rparr>"

interpretation ref_db: working_db "ref_db old" "\<lambda>d. d" for old
  by unfold_locales (simp_all add: ref_db_def log_db_def ref_date.default_written)

definition ref_env :: "nat \<Rightarrow> statement list env" where
  "ref_env old = \<lparr>e_db = ref_db old, e_rpc = (\<lambda>k. served_env (ref_answer k)),
     e_clock = (\<lambda>k. 1500000000 + of_nat k)\<rparr>"

lemma ref_env_simps [simp]: "e_rpc (ref_env old) k = served_env (ref_answer k)" "e_db (ref_env old) = ref_db old"
  by (simp_all add: ref_env_def)

lemma ref_tx_received: "received [] ref_tx"
proof -
  have "vout_type_of 0 one_coin = CHR ''T''" by code_simp
  then show ?thesis
    by (simp add: ref_tx_def received_def received_tx_def Let_def vin_array_def vout_array_def tx_kind_def
        coinbase_vin_def plain_vout_def new_vin_def new_vout_def new_tx_def del: json_text.simps)
qed

lemma ref_count: "serves ref_rd ref_args (served_env (ref_answer k)) ''getblockcount'' []
    (VInt (word_of_int (ref_best k)) False)"
  using served_call [of "[]" "''getblockcount''" "ref_answer k"]
  by (simp add: ref_answer_def request_object_def answer_def JSONRPCReplyObj_def obj_add_def)

lemma ref_block_answer:
  assumes "0 \<le> n" and "n \<le> ref_best k"
  shows "serves ref_rd ref_args (served_env (ref_answer k)) ''getblockbynumber'' [VInt (word_of_int n) False]
    (VObj (block_object (ref_block n)))"
proof -
  have "sint (word_of_int n :: int64) = n" using assms by (intro sint64_of_int) (simp_all add: ref_best_def)
  then have f: "ref_answer k ''getblockbynumber'' [VInt (word_of_int n) False] = VObj (block_object (ref_block n))"
    by (simp add: ref_answer_def)
  have "size_bound (VObj (answer (VObj (block_object (ref_block n))))) < 999999"
    by (simp add: answer_def JSONRPCReplyObj_def obj_add_def block_object_def ref_block_def bk_clear_def new_block_def)
  moreover have "reread ref_rd (VObj (block_object (ref_block n))) = VObj (block_object (ref_block n))"
    by (simp add: block_object_def ref_block_def bk_clear_def new_block_def)
  moreover have "writable (VObj (block_object (ref_block n)))"
    by (simp add: block_object_def ref_block_def bk_clear_def new_block_def)
  ultimately show ?thesis
    using served_call [of "[VInt (word_of_int n) False]" "''getblockbynumber''" "ref_answer k"]
    by (simp add: f request_object_def)
qed

lemma ref_tx_answer:
  "serves ref_rd ref_args (served_env (ref_answer k)) ''gettransaction'' [VStr ''ab''] (VObj (tx_object [] ref_tx))"
proof -
  have f: "ref_answer k ''gettransaction'' [VStr ''ab''] = VObj (tx_object [] ref_tx)"
    by (simp add: ref_answer_def)
  note defs = tx_object_def ref_tx_def received_tx_def Let_def vin_array_def vout_array_def vin_object_def
    vout_object_def coinbase_vin_def plain_vout_def new_vin_def new_vout_def new_tx_def
  have "size_bound (VObj (answer (VObj (tx_object [] ref_tx)))) < 999999"
    by (simp add: answer_def JSONRPCReplyObj_def obj_add_def defs)
  moreover have "reread ref_rd (VObj (tx_object [] ref_tx)) = VObj (tx_object [] ref_tx)"
    by (simp add: defs)
  moreover have "writable (VObj (tx_object [] ref_tx))"
    by (simp add: defs)
  ultimately show ?thesis
    using served_call [of "[VStr ''ab'']" "''gettransaction''" "ref_answer k"]
    by (simp add: f request_object_def)
qed

interpretation ref_peer: peer "ref_env old" ref_args ref_rd for old
proof (rule peer.intro)
  fix k
  show "boost_strings (env_split (e_rpc (ref_env old) k)) (env_trim (e_rpc (ref_env old) k)) (env_lower (e_rpc (ref_env old) k))"
    using served_env_laws(1) by simp
  show "\<exists>real_p int_p uint_p string_p. json_prims (env_parse (e_rpc (ref_env old) k)) real_p int_p uint_p string_p ref_rd"
    using served_env_laws(2) [of "ref_answer k"] unfolding ref_env_simps by blast
  show "\<exists>u p. map_find ref_args ''-rpcuser'' = Some u \<and> u \<noteq> '''' \<and> map_find ref_args ''-rpcpassword'' = Some p"
    by (simp add: ref_args_def)
  show "connect (e_rpc (ref_env old) k) (GetArg ref_args ''-rpcconnect'' ''127.0.0.1'')
      (GetArg ref_args ''-rpcport'' ''19772'') 0 = Inr True"
    by (simp add: connect_def served_env_def example_env_def)
qed

interpretation ref_node: node "ref_env old" "\<lambda>d. d" ref_block "\<lambda>_. ref_tx" "\<lambda>_. []" ref_best ref_args
  ref_rd for old
proof (rule node.intro)
  show "working_db (e_db (ref_env old)) (\<lambda>d. d)" using ref_db.working_db_axioms by simp
  show "peer (ref_env old) ref_args ref_rd" by (rule ref_peer.peer_axioms)
  show "node_axioms (ref_env old) ref_block (\<lambda>_. ref_tx) (\<lambda>_. []) ref_best ref_args ref_rd"
  proof (rule node_axioms.intro)
    fix k n and txid :: string
    show "serves ref_rd ref_args (e_rpc (ref_env old) k) ''getblockcount'' [] (VInt (word_of_int (ref_best k)) False)"
      using ref_count by simp
    show "0 \<le> ref_best k \<and> ref_best k < 2 ^ 31 - 2" "ref_best k \<le> ref_best (Suc k)"
      by (simp_all add: ref_best_def)
    assume n: "0 \<le> n" "n \<le> ref_best k"
    show "serves ref_rd ref_args (e_rpc (ref_env old) k) ''getblockbynumber'' [VInt (word_of_int n) False]
        (VObj (block_object (ref_block n)))"
      using ref_block_answer [OF n] by simp
    have "sint (word_of_int (1500000000 + 64 * n) :: int64) = 1500000000 + 64 * n"
      using n by (intro sint64_of_int) (simp_all add: ref_best_def)
    moreover have "bk_time (ref_block n) = Some (word_of_int (1500000000 + 64 * n))" by (simp add: ref_block_def)
    ultimately have "datable (the (bk_time (ref_block n)))"
      using n unfolding datable_def option.sel by (simp add: ref_best_def)
    then show "determinate (ref_block n) \<and> bk_hash (ref_block n) \<noteq> '''' \<and> datable (the (bk_time (ref_block n)))"
      by (simp add: ref_block_def determinate_def bk_clear_def)
    assume "txid \<in> set (bk_vtx (ref_block n))"
    then have t: "txid = ''ab''" by (simp add: ref_block_def)
    show "serves ref_rd ref_args (e_rpc (ref_env old) k) ''gettransaction'' [VStr txid] (VObj (tx_object [] ref_tx))"
      using ref_tx_answer by (simp add: t)
    have "tx_datable ref_tx" by (simp add: ref_tx_def received_tx_def Let_def tx_datable_def datable_def new_tx_def)
    then show "received [] ref_tx \<and> tx_txid ref_tx \<noteq> '''' \<and> CHR '' '' \<notin> set txid \<and> tx_datable ref_tx"
      using ref_tx_received by (simp add: t ref_tx_def received_tx_def Let_def)
  qed
qed

lemma ref_block_time:
  assumes "0 \<le> n" and "n \<le> ref_best k"
  shows "sint (the (bk_time (ref_block n))) = 1500000000 + 64 * n"
proof -
  have "sint (word_of_int (1500000000 + 64 * n) :: int64) = 1500000000 + 64 * n"
    using assms by (intro sint64_of_int) (simp_all add: ref_best_def)
  moreover have "the (bk_time (ref_block n)) = word_of_int (1500000000 + 64 * n)"
    by (simp add: ref_block_def)
  ultimately show ?thesis by (simp only:)
qed

interpretation ref_steady: steady_node "ref_env old" "\<lambda>d. d" ref_block "\<lambda>_. ref_tx" "\<lambda>_. []" ref_best ref_args
  ref_rd for old
proof (unfold_locales)
  fix k n
  assume n: "0 \<le> n" "n \<le> ref_best k"
  then have "n \<le> 1000000" by (simp add: ref_best_def)
  then show "0 < sint (the (bk_time (ref_block n))) \<and> sint (the (bk_time (ref_block n))) < 2 ^ 31"
    unfolding ref_block_time [OF n] using n by simp
next
  fix k n
  assume n: "0 \<le> n" "n + 1 \<le> ref_best k"
  have t: "sint (the (bk_time (ref_block n))) = 1500000000 + 64 * n"
    "sint (the (bk_time (ref_block (n + 1)))) = 1500000000 + 64 * (n + 1)"
    using n by (simp_all add: ref_block_time [of _ k])
  show "\<bar>sint (the (bk_time (ref_block (n + 1)))) - sint (the (bk_time (ref_block n)))\<bar> \<le> 500000"
    unfolding t by simp
qed

subsection \<open>The properties on this node\<close>

definition ref_world :: "nat \<Rightarrow> statement list world" where
  "ref_world k = \<lparr>w_args = ref_args, w_mp = Some \<lparr>inited = 1\<rparr>, w_db = [], w_calls = k, w_ticks = 0,
     w_sequence = 0\<rparr>"

lemma ref_world_simps [simp]:
  "w_args (ref_world k) = ref_args" "w_mp (ref_world k) = Some \<lparr>inited = 1\<rparr>" "w_db (ref_world k) = []"
  "w_calls (ref_world k) = k"
  by (simp_all add: ref_world_def)

definition ref_task :: CFidTask where
  "ref_task = (new_task_for TASK_BLOCK_OR_TRANS ''3'')\<lparr>t_height := 3\<rparr>"

definition ref_schedule :: CFidTaskSchedule where
  "ref_schedule = \<lparr>s_tasks = [ref_task], s_onceRun = 0\<rparr>"

definition ref_locals :: work_locals where
  "ref_locals = \<lparr>wl_bktime = 0, wl_t1 = 1500000000\<rparr>"

lemma ref_start:
  "s_tasks ref_schedule = [ref_task]" "s_onceRun ref_schedule = 0" "t_type ref_task = TASK_BLOCK_OR_TRANS"
  "wanted ref_task = word_of_int 3" "(1 :: int) \<le> 3" "(3 :: int) < 2 ^ 31 - 1" "wl_bktime ref_locals = 0"
  "w_args (ref_world k) = ref_args" "w_mp (ref_world k) = Some \<lparr>inited = 1\<rparr>" "inited \<lparr>inited = 1\<rparr> \<noteq> 0"
  by (simp_all add: ref_schedule_def ref_task_def ref_locals_def new_task_for_def wanted_def)

lemma ref_step:
  "\<exists>s' l' w' t'. work_step (ref_env old) (ref_schedule, ref_locals, ref_world 5) (s', l', w') \<and>
    w_db w' = rows_of_block (ref_db old) ref_block (\<lambda>_. ref_tx) 3 \<and> s_tasks s' = [t'] \<and> wanted t' = word_of_int 4"
proof -
  have "ref_steady.stands old 3 [] 3 (ref_schedule, ref_locals, ref_world 5)"
    by (simp add: ref_steady.stands_def ref_peer.ready_def ref_start)
  from ref_steady.stands_round [OF this] show ?thesis
    by (fastforce simp: work_step_iff ref_steady.stands_def ref_best_def)
qed

text \<open>The start of the process: configuration, connection and number of rows.\<close>

lemma ref_config:
  "initConfig ref_ptree ref_files [''fidinventor'', ''./fidinventor.conf'']
     (w_args ((ref_world k)\<lparr>w_args := [], w_mp := None\<rparr>)) =
   Inr (2, ref_files, ref_args)"
proof -
  let ?f = ref_files
  have f: "f = files" if "initConfig ref_ptree files [a, b] m = Inr (r, f, m')" for files f a b m r m'
    using that by (cases "parse_fidconfig ref_ptree files b m") (auto simp: initConfig_def)
  have "(case initConfig ref_ptree ?f [''fidinventor'', ''./fidinventor.conf''] [] of
      Inr (r, _, m) \<Rightarrow> Some (r, m) | Inl e \<Rightarrow> None) = Some (2, ref_args)"
    by code_simp
  then obtain f where "initConfig ref_ptree ?f [''fidinventor'', ''./fidinventor.conf''] [] = Inr (2, f, ref_args)"
    by (auto split: sum.splits)
  moreover from f [OF this] have "f = ?f" .
  ultimately show ?thesis by simp
qed

lemma ref_connects: "\<forall>a b u p port d. fst (db_connect (e_db (ref_env old)) a b u p port d) = Inr True"
  by (simp add: ref_db_def log_db_def)

lemma ref_count_rows:
  assumes "int old < 2 ^ 31"
  shows "fst (queryBlockCount (e_db (ref_env old)) []) = Inr (word_of_int (int old))"
proof -
  have "atoi (dec_int (int old) @ []) = word_of_int (int old)"
    using assms by (intro atoi_dec) simp_all
  then show ?thesis by (simp add: queryBlockCount_def ref_db_def log_db_def)
qed

theorem first_run_stores_witness:
  "\<exists>w'. task_call (ref_env 0) (new_task_for TASK_BLOCKGENSIS ''genesis'') (ref_world 2) =
      Some (Inr (0, (new_task_for TASK_BLOCKGENSIS ''genesis'')\<lparr>t_height := 2\<rparr>), w') \<and>
    w_db w' = concat (map (rows_of_block (ref_db 0) ref_block (\<lambda>_. ref_tx)) [0, 1, 2])"
proof -
  have "sint (atoi64 ''genesis'') \<le> 0" by code_simp
  moreover have "[0..2] = [0, 1, 2 :: int]" by code_simp
  ultimately show ?thesis
    using first_run_stores [OF ref_node.node_axioms, of "new_task_for TASK_BLOCKGENSIS ''genesis''" "ref_world 2"]
    by (simp add: new_task_for_def ref_best_def)
qed

theorem chain_followed_witness:
  "\<exists>n t' s' l' w'. (work_step (ref_env 0))\<^sup>*\<^sup>* (ref_schedule, ref_locals, ref_world 5) (s', l', w') \<and>
    w_db w' = rows_of_block (ref_db 0) ref_block (\<lambda>_. ref_tx) 3 \<and>
    s_tasks s' = [t'] \<and> wanted t' = word_of_int n \<and> 3 \<le> n \<and>
    w_db w' = concat (map (rows_of_block (ref_db 0) ref_block (\<lambda>_. ref_tx)) [3..n - 1])"
proof -
  obtain s' l' w' where st: "(work_step (ref_env 0))\<^sup>*\<^sup>*
      (ref_schedule, ref_locals, ref_world 5) (s', l', w')"
    "w_db w' = rows_of_block (ref_db 0) ref_block (\<lambda>_. ref_tx) 3"
    using ref_step [of 0] by (blast intro: r_into_rtranclp)
  from chain_followed [OF ref_steady.steady_node_axioms ref_start st(1)] st show ?thesis by fastforce
qed

theorem chain_progress_witness:
  "\<exists>s' l' w'. (work_step (ref_env 0))\<^sup>*\<^sup>* (ref_schedule, ref_locals, ref_world 5) (s', l', w') \<and>
    work_loop (ref_env 0) ref_schedule ref_locals (ref_world 5) = None \<and>
    (\<exists>ms s'' l'' w''. work_round (ref_env 0) s' l' w' = Some (Inr (Slept ms, s'', l''), w'') \<and> 0 \<le> sint ms)"
proof -
  obtain s' l' w' where st: "(work_step (ref_env 0))\<^sup>*\<^sup>*
      (ref_schedule, ref_locals, ref_world 5) (s', l', w')"
    using ref_step [of 0] by (blast intro: r_into_rtranclp)
  from chain_progress [OF ref_steady.steady_node_axioms ref_start st] st show ?thesis by blast
qed

theorem fresh_start_complete_witness:
  "\<exists>height seq sched l w1. main_start ref_ptree ref_files
      [''fidinventor'', ''./fidinventor.conf''] (ref_env 0) ((ref_world 2)\<lparr>w_args := [], w_mp := None\<rparr>) =
      Some (Inr (Running height seq sched l), w1) \<and>
    (\<exists>n > 2. w_db w1 = concat (map (rows_of_block (ref_db 0) ref_block (\<lambda>_. ref_tx)) [0..n - 1]))"
proof -
  let ?w = "(ref_world 2)\<lparr>w_args := [], w_mp := None\<rparr>"
  have "\<forall>d. d = w_db ?w \<longrightarrow> fst (queryBlockCount (e_db (ref_env 0)) d) = Inr 0"
    using ref_count_rows [of 0] by simp
  from fresh_start_complete [OF ref_steady.steady_node_axioms [of 0] _ _ ref_connects this, OF ref_config]
  show ?thesis by (fastforce simp: ref_best_def ref_world_def)
qed

theorem restart_skips_block_witness:
  "\<exists>height seq sched l w1. main_start ref_ptree ref_files
      [''fidinventor'', ''./fidinventor.conf''] (ref_env 3) ((ref_world 5)\<lparr>w_args := [], w_mp := None\<rparr>) =
      Some (Inr (Running height seq sched l), w1) \<and>
    (\<exists>n > 3. w_db w1 = concat (map (rows_of_block (ref_db 3) ref_block (\<lambda>_. ref_tx)) [4..n - 1]))"
proof -
  let ?w = "(ref_world 5)\<lparr>w_args := [], w_mp := None\<rparr>"
  have "\<forall>d. d = w_db ?w \<longrightarrow> fst (queryBlockCount (e_db (ref_env 3)) d) = Inr 3"
    using ref_count_rows [of 3] by simp
  from restart_skips_block [OF ref_steady.steady_node_axioms [of 3] _ _ ref_connects this, OF ref_config]
  show ?thesis by (fastforce simp: ref_world_def)
qed

theorem round_keeps_tasks_witness:
  "\<exists>ms s' l' w'. work_round (ref_env 0) ref_schedule ref_locals (ref_world 5) = Some (Inr (Slept ms, s', l'), w') \<and>
    (getTask 9 s')\<lparr>t_height := 0\<rparr> = ref_task\<lparr>t_height := 0\<rparr>"
proof -
  obtain s' l' w' where "work_step (ref_env 0) (ref_schedule, ref_locals, ref_world 5) (s', l', w')"
    using ref_step [of 0] by blast
  then obtain ms where r: "work_round (ref_env 0) ref_schedule ref_locals (ref_world 5) = Some (Inr (Slept ms, s', l'), w')"
    by (auto simp: work_step_iff)
  have "getTask 9 ref_schedule = ref_task" by (simp add: getTask_def ref_schedule_def)
  then show ?thesis using r round_keeps_tasks [OF r, of 9] by auto
qed

theorem interleaved_start_witness:
  "\<exists>P0. process_start (ref_env 0) (ref_world 2) = Some (Inr P0) \<and>
    (\<forall>P. process_step (ref_env 0) P0 P \<longrightarrow>
      (\<exists>m. w_db (pr_world P) = concat (map (rows_of_block (ref_db 0) ref_block (\<lambda>_. ref_tx)) [0..m - 1])))"
proof -
  have c: "\<forall>d. d = w_db (ref_world 2) \<longrightarrow> fst (queryBlockCount (e_db (ref_env 0)) d) = Inr 0"
    using ref_count_rows [of 0] by simp
  have "sint (w_sequence (ref_world 2)) < 2 ^ 31 - 2" by (simp add: ref_world_def)
  from interleaved_start [OF ref_steady.steady_node_axioms [of 0] _ ref_connects c this]
  show ?thesis by (fastforce dest: r_into_rtranclp [of "process_step (ref_env 0)"])
qed

end
