(* ===== verification/Failures.thy ===== *)
theory Failures
  imports Unseen RefNode
begin

section \<open>When the node or the database fails\<close>

text \<open>
  What the thread of a schedule does when a block is refused, when a call fails with an exception, and
  when the database refuses its statements.
\<close>

subsection \<open>A block that is refused\<close>

text \<open>An error object with a code whose absolute value is an \<open>int\<close>.\<close>

definition coded :: "jobject \<Rightarrow> bool" where
  "coded eo \<longleftrightarrow> (\<exists>code u. find_value eo ''code'' = VInt code u \<and> sint (scast code :: int32) \<noteq> - (2 ^ 31))"

lemma refused_message:
  assumes "coded eo"
  shows "\<exists>code message. reply_message (JSONRPCReplyObj VNull (VObj eo) ident) = Inr (code, message)"
  using assms
  by (auto simp: coded_def reply_message_def JSONRPCReplyObj_def obj_add_def Let_def write_string_json_text
      accessors_typed c_abs_def)

context peer
begin

lemma getBlockByNumber_refused:
  assumes "w_args w = args0" and "- (2 ^ 31) \<le> n" and "n < 2 ^ 31" and "coded eo"
    and "replies rd args0 (e_rpc E (w_calls w)) ''getblockbynumber'' [VInt (word_of_int n) False] nStatus VNull (VObj eo)"
  shows "getBlockByNumber E (word_of_int n) h w = Some (Inr ([], h), after_calls 1 w)"
proof -
  have "sint (word_of_int n :: int32) = n" using assms(2,3) by (rule sint32_of_int)
  note cmd = block_command [OF this]
  let ?r = "JSONRPCReplyObj VNull (VObj eo) (VInt 1 False)"
  obtain code message where "reply_message ?r = Inr (code, message)" using refused_message [OF assms(4)] by blast
  then obtain task where t: "call_command E (''getblockbynumber '' @ dec_int n) w =
      Some (Inr (code, message, task), after_calls 1 w)" "t_reply task = ?r"
    using call_command_eq [OF assms(1) cmd(2) _ cmd(3) replied_answer [OF assms(5)]] by auto
  have "switchBk task (h_block h) = Inr ([], h_block h)"
    by (simp add: switchBk_def t(2) JSONRPCReplyObj_def obj_add_def)
  then show ?thesis by (simp add: getBlockByNumber_def cmd(1) bindA_def t(1) [simplified] liftR_def retA_def)
qed

lemma call_command_failed:
  assumes "w_args w = args0" and "words cmd = m # ss" and "m \<noteq> ''''"
    and "convert_params E m ss w = Some (Inr ps, w)"
    and "CallRPC (e_rpc E (w_calls w)) m ps args0 = Some (Inl e, args0)"
  shows "call_command E cmd w = Some (Inl e, after_calls 1 w)"
  using assms
  by (simp add: call_command_def switchParams_def new_task_for_def callRPC_def bindA_def liftR_def retA_def Let_def
      call_rpc_def next_rpc_def after_calls_def)

lemma refused_block_or_trans:
  assumes "w_args w = args0" and "wanted t = word_of_int n" and "1 \<le> n" and "n \<le> b" and "b < 2 ^ 31 - 1"
    and "coded eo"
    and "serves rd args0 (e_rpc E (w_calls w)) ''getblockcount'' [] (VInt (word_of_int b) False)"
    and "replies rd args0 (e_rpc E (Suc (w_calls w))) ''getblockbynumber'' [VInt (word_of_int n) False] nStatus
      VNull (VObj eo)"
  shows "call_block_or_trans E t w = Some (Inr (0, t\<lparr>t_height := word_of_int n, t_status := 1, t_bktime := None\<rparr>),
    after_calls 2 w)"
proof -
  have n: "sint (wanted t) = n" "sint (word_of_int b :: int64) = b"
    using assms(2-5) by (simp_all add: sint64_of_int)
  have nw: "scast (wanted t) = (word_of_int n :: int32)"
    unfolding assms(2) by (rule bit_word_eqI) (auto simp: bit_simps)
  let ?h = "(new_handler t)\<lparr>h_height := word_of_int b\<rparr>"
  have c: "getBlockCount E (new_handler t) w = Some (Inr (word_of_int b, ?h), after_calls 1 w)"
    using assms(3-5) by (intro getBlockCount_served assms) simp_all
  have g: "getBlockByNumber E (word_of_int n) ?h (after_calls 1 w) = Some (Inr ([], ?h), after_calls 2 w)"
    using assms getBlockByNumber_refused [of "after_calls 1 w" n eo nStatus ?h] by (simp add: numeral_2_eq_2)
  have i: "insertDBBlockTrans E ?h = retA 0"
    by (simp add: insertDBBlockTrans_def insertDBBlock_def insertDBTrans_def new_handler_def new_block_def)
  show ?thesis
    using assms(3,4) c g i
    unfolding call_block_or_trans_def wanted_def [symmetric]
    by (simp add: Let_def bindA_def retA_def n nw get_transactions_def getBkTime_def new_handler_def new_block_def)
qed

end

text \<open>
  C8: If the node answers the request for a block with an error object, the thread passes the block
  over for good: nothing is written, yet the task is marked as done and its height goes on to the next
  block. The block's time was never read, so in a thread with this task the round goes on to
  branch on an indeterminate value.
\<close>

theorem refused_block_skipped:
  assumes "peer E args0 rd" and "w_args w = args0" and "t_type t = TASK_BLOCK_OR_TRANS"
    and "wanted t = word_of_int n" and "1 \<le> n" and "n \<le> b" and "b < 2 ^ 31 - 1"
    and "serves rd args0 (e_rpc E (w_calls w)) ''getblockcount'' [] (VInt (word_of_int b) False)"
    and "replies rd args0 (e_rpc E (Suc (w_calls w))) ''getblockbynumber'' [VInt (word_of_int n) False] nStatus
      VNull (VObj eo)"
    and "find_value eo ''code'' = VInt code u" and "sint (scast code :: int32) \<noteq> - (2 ^ 31)"
  shows "\<exists>t' w'. work_task E t loc w = Some (Inr (t', None, False), w') \<and>
    wanted t' = word_of_int (n + 1) \<and> t_command t' = t_command t \<and> w_db w' = w_db w \<and>
    (\<forall>s l. s_tasks s = [t] \<longrightarrow> s_onceRun s = 0 \<longrightarrow>
      (\<exists>w''. work_round E s l w = Some (Inl (Undefined ''indeterminate value''), w'') \<and> w_db w'' = w_db w))"
proof -
  have n: "sint (word_of_int n :: int32) = n" "sint (word_of_int (n + 1) :: int32) = n + 1"
    using assms(5-7) by (auto intro!: sint32_of_int simp del: of_int_add)
  let ?t = "t\<lparr>t_height := word_of_int (n + 1)\<rparr>" and ?w = "peer.after_calls 2 w"
  have "coded eo" using assms(10,11) by (auto simp: coded_def)
  from peer.refused_block_or_trans [OF assms(1,2,4-7) this assms(8,9)]
  have "task_call E t w = Some (Inr (0, t\<lparr>t_height := word_of_int n, t_status := 1, t_bktime := None\<rparr>), ?w)"
    using assms(3) by (simp add: task_call.simps)
  then have t: "work_task E t loc w = Some (Inr (?t, None, False), ?w)" for loc
    using assms(5-7) n by (simp add: work_task_def write_back_def succ_height_def int_arith_def bindA_def liftR_def)
  have db: "w_db ?w = w_db w" "w_ticks ?w = w_ticks w" by (simp_all add: peer.after_calls_def [OF assms(1)])
  have "wanted ?t = word_of_int (n + 1)" using assms(5-7) by (intro wanted_height) simp_all
  moreover have "\<exists>w''. work_round E s l w = Some (Inl (Undefined ''indeterminate value''), w'') \<and> w_db w'' = w_db w"
    if "s_tasks s = [t]" "s_onceRun s = 0" for s l
    using t that db
    by (simp add: work_round_def work_tasks_one after_tasks_def bindA_def retA_def read_clock_def liftR_def determined_def)
  ultimately show ?thesis using t db by auto
qed

subsection \<open>A call that fails with an exception\<close>

text \<open>Actions that leave the database and the connection to it alone.\<close>

definition keeps_db :: "('d, 'a) act \<Rightarrow> bool" where
  "keeps_db m \<longleftrightarrow> (\<forall>w r w'. m w = Some (r, w') \<longrightarrow> w_db w' = w_db w \<and> w_mp w' = w_mp w)"

named_theorems keeps_intros

lemma keeps_db_ret [keeps_intros]: "keeps_db (retA x)" "keeps_db (liftR r)"
  by (simp_all add: keeps_db_def retA_def liftR_def)

lemma keeps_db_bind [keeps_intros]: "keeps_db m \<Longrightarrow> (\<And>x. keeps_db (f x)) \<Longrightarrow> keeps_db (bindA m f)"
  unfolding keeps_db_def bindA_def by (auto split: option.splits sum.splits prod.splits)

lemma keeps_db_fold [keeps_intros]: "(\<And>x s. keeps_db (f x s)) \<Longrightarrow> keeps_db (foldA f xs s)"
proof (induction xs arbitrary: s)
  case (Cons x xs)
  then show ?case unfolding foldA.simps by (intro keeps_db_bind) auto
qed (simp add: keeps_intros)

lemma keeps_db_reads [keeps_intros]:
  "keeps_db (call_rpc E m ps)" "keeps_db (convert_params E m ss)" "keeps_db (split_words E s)"
  unfolding keeps_db_def call_rpc_def convert_params_def split_words_def liftO_def retA_def by auto

lemma keeps_db_command [keeps_intros]: "keeps_db (call_command E cmd)"
  unfolding call_command_def Let_def switchParams_def callRPC_def
  by (auto intro!: keeps_intros split: prod.split sum.split)

lemma keeps_db_handler [keeps_intros]:
  "keeps_db (getBlockCount E h)" "keeps_db (getBlockByNumber E n h)" "keeps_db (get_transactions E ids h)"
  unfolding getBlockCount_def getBlockByNumber_def get_transactions_def getTransaction_def Let_def
  by (auto intro!: keeps_intros split: prod.split sum.split)

lemma keeps_dbD: "keeps_db m \<Longrightarrow> m w = Some (r, w') \<Longrightarrow> w_db w' = w_db w \<and> connected w' = connected w"
  by (auto simp: keeps_db_def connected_def)

text \<open>What the insertions throw: only what the dates throw, and then the throwing one has not executed anything.\<close>

lemma insert_thrown:
  assumes "connected w"
  shows "db_insertBk E b w = Some (Inl e, w') \<Longrightarrow> block_date (e_db E) b = Inl e \<and> w_db w' = w_db w"
    and "db_insertTx E tx w = Some (Inl e, w') \<Longrightarrow> tx_dates (e_db E) tx = Inl e \<and> w_db w' = w_db w"
proof -
  show "block_date (e_db E) b = Inl e \<and> w_db w' = w_db w" if "db_insertBk E b w = Some (Inl e, w')"
    using assms that insert_throws(1) [of "e_db E" b _ "w_db w"] insert_returns(1) [of "e_db E" b _ "w_db w"]
    by (cases "block_date (e_db E) b") (fastforce simp: db_insertBk_def with_db_def initDb_def initDb_with_def
      getinitance_def connected_def)+
  show "tx_dates (e_db E) tx = Inl e \<and> w_db w' = w_db w" if "db_insertTx E tx w = Some (Inl e, w')"
    using assms that insert_throws(2) [of "e_db E" tx _ "w_db w"] insert_returns(2) [of "e_db E" tx _ "w_db w"]
    by (cases "tx_dates (e_db E) tx") (fastforce simp: db_insertTx_def with_db_def initDb_def initDb_with_def
      getinitance_def connected_def)+
qed

lemma insert_connected:
  assumes "connected w"
  shows "db_insertBk E b w = Some (r, w') \<Longrightarrow> connected w'" and "db_insertTx E tx w = Some (r, w') \<Longrightarrow> connected w'"
  using assms
  by (auto simp: db_insertBk_def db_insertTx_def with_db_def initDb_def initDb_with_def getinitance_def
      connected_def split: prod.splits)

lemma trans_thrown:
  assumes "connected w" and "foldA (insert_one E) txs r w = Some (Inl e, w')"
  shows "\<exists>k<length txs. tx_dates (e_db E) (txs ! k) = Inl e \<and>
    (\<exists>r' w2. foldA (insert_one E) (take k txs) r w = Some (Inr r', w2) \<and> w_db w' = w_db w2)"
  using assms
proof (induction txs arbitrary: r w)
  case Nil
  then show ?case by (simp add: retA_def)
next
  case (Cons tx txs)
  obtain q w1 where 1: "insert_one E tx r w = Some (q, w1)"
    using Cons.prems(2) by (cases "insert_one E tx r w") (auto simp: bindA_def)
  have c: "connected w1"
    using 1 insert_connected(2) [OF Cons.prems(1)] Cons.prems(1)
    by (fastforce simp: insert_one_def bindA_def retA_def split: if_splits option.splits prod.splits sum.splits)
  show ?case
  proof (cases q)
    case (Inl e')
    then have e: "e' = e" "w1 = w'" using Cons.prems(2) 1 by (simp_all add: bindA_def)
    then have "db_insertTx E tx w = Some (Inl e, w')"
      using 1 Inl by (auto simp: insert_one_def bindA_def retA_def split: if_splits option.splits prod.splits sum.splits)
    from insert_thrown(2) [OF Cons.prems(1) this] show ?thesis
      by (intro exI [of _ 0]) (simp add: retA_def)
  next
    case (Inr r1)
    then have "foldA (insert_one E) txs r1 w1 = Some (Inl e, w')" using Cons.prems(2) 1 by (simp add: bindA_def)
    from Cons.IH [OF c this] obtain k r' w2 where "k < length txs" "tx_dates (e_db E) (txs ! k) = Inl e"
      "foldA (insert_one E) (take k txs) r1 w1 = Some (Inr r', w2)" "w_db w' = w_db w2" by blast
    then show ?thesis using 1 Inr by (intro exI [of _ "Suc k"]) (simp add: bindA_def)
  qed
qed

lemma insertion_thrown:
  assumes "connected w" and "insertDBBlockTrans E h w = Some (Inl e, w')"
  shows "block_date (e_db E) (h_block h) = Inl e \<and> w_db w' = w_db w \<or>
    (\<exists>k<length (h_vtx h). tx_dates (e_db E) (h_vtx h ! k) = Inl e \<and>
      (\<exists>r w2. insertDBBlockTrans E (h\<lparr>h_vtx := take k (h_vtx h)\<rparr>) w = Some (Inr r, w2) \<and> w_db w' = w_db w2))"
proof -
  obtain q w1 where 1: "insertDBBlock E h w = Some (q, w1)"
    using assms(2) by (cases "insertDBBlock E h w") (auto simp: insertDBBlockTrans_def bindA_def)
  show ?thesis
  proof (cases q)
    case (Inl e')
    then have "e' = e" "w1 = w'" using assms(2) 1 by (simp_all add: insertDBBlockTrans_def bindA_def)
    then have "db_insertBk E (h_block h) w = Some (Inl e, w')"
      using 1 Inl by (auto simp: insertDBBlock_def retA_def split: if_splits)
    from insert_thrown(1) [OF assms(1) this] show ?thesis by blast
  next
    case (Inr r)
    have c: "connected w1"
      using 1 insert_connected(1) [OF assms(1)] assms(1) by (auto simp: insertDBBlock_def retA_def split: if_splits)
    have "foldA (insert_one E) (h_vtx h) 0 w1 = Some (Inl e, w')"
      using assms(2) 1 Inr
      by (auto simp: insertDBBlockTrans_def insertDBTrans_def bindA_def retA_def split: option.splits prod.splits sum.splits)
    from trans_thrown [OF c this] obtain k r' w2 where k: "k < length (h_vtx h)"
      "tx_dates (e_db E) (h_vtx h ! k) = Inl e"
      "foldA (insert_one E) (take k (h_vtx h)) 0 w1 = Some (Inr r', w2)" "w_db w' = w_db w2" by blast
    have "insertDBBlock E (h\<lparr>h_vtx := take k (h_vtx h)\<rparr>) = insertDBBlock E h"
      by (simp add: insertDBBlock_def)
    then show ?thesis
      using k 1 Inr by (intro disjI2 exI [of _ k]) (simp add: insertDBBlockTrans_def insertDBTrans_def bindA_def retA_def)
  qed
qed

text \<open>The calls of a turn: the handler \<open>h\<close> has the block and all its transactions.\<close>

definition fetched :: "'d env \<Rightarrow> CFidTask \<Rightarrow> 'd world \<Rightarrow> CFidHandler \<Rightarrow> 'd world \<Rightarrow> bool" where
  "fetched E t w h w3 \<longleftrightarrow> (\<exists>b h0 ids h1 w1 w2.
     getBlockCount E (new_handler t) w = Some (Inr (b, h0), w1) \<and>
     getBlockByNumber E (scast (if sint (wanted t) \<le> 0 then b else wanted t)) h0 w1 = Some (Inr (ids, h1), w2) \<and>
     get_transactions E ids h1 w2 = Some (Inr h, w3))"

text \<open>A turn throws in a call, or else in the insertion.\<close>

lemma turn_thrown:
  assumes "call_block_or_trans E t w = Some (Inl e, w')"
  shows "(\<nexists>h w3. fetched E t w h w3) \<and> w_db w' = w_db w \<or>
    (\<exists>h w3. fetched E t w h w3 \<and> w_db w3 = w_db w \<and> connected w3 = connected w \<and>
      insertDBBlockTrans E h w3 = Some (Inl e, w'))"
proof -
  obtain q w1 where 1: "getBlockCount E (new_handler t) w = Some (q, w1)"
    using assms by (cases "getBlockCount E (new_handler t) w") (auto simp: call_block_or_trans_def Let_def bindA_def)
  note k1 = keeps_dbD [OF keeps_db_handler(1) 1]
  show ?thesis
  proof (cases q)
    case (Inl e')
    then show ?thesis using assms 1 k1 by (auto simp: call_block_or_trans_def Let_def bindA_def fetched_def)
  next
    case (Inr p)
    obtain b h0 where p: "p = (b, h0)" by (cases p)
    define n :: int32 where "n = scast (if sint (wanted t) \<le> 0 then b else wanted t)"
    have late: "\<not> (\<not> sint (wanted t) \<le> 0 \<and> sint (wanted t) > sint b)"
    proof
      assume "\<not> sint (wanted t) \<le> 0 \<and> sint (wanted t) > sint b"
      then show False
        using assms 1 Inr p unfolding call_block_or_trans_def wanted_def [symmetric] by (simp add: Let_def bindA_def retA_def)
    qed
    have rest: "bindA (getBlockByNumber E n h0) (\<lambda>(vtx, hand). bindA (get_transactions E vtx hand) (\<lambda>hand.
        bindA (insertDBBlockTrans E hand) (\<lambda>_. retA (0 :: int32, t\<lparr>t_height := n, t_status := 1, t_bktime := getBkTime hand\<rparr>)))) w1 =
      Some (Inl e, w')"
      using assms 1 Inr p late unfolding call_block_or_trans_def wanted_def [symmetric] n_def
      by (simp add: Let_def bindA_def split del: if_split cong: if_cong)
    have f: "fetched E t w h w3 \<longleftrightarrow> (\<exists>ids h1 w2. getBlockByNumber E n h0 w1 = Some (Inr (ids, h1), w2) \<and>
      get_transactions E ids h1 w2 = Some (Inr h, w3))" for h w3
      using 1 Inr p by (simp add: fetched_def n_def split del: if_split)
    obtain q2 w2 where 2: "getBlockByNumber E n h0 w1 = Some (q2, w2)"
      using rest by (cases "getBlockByNumber E n h0 w1") (auto simp: bindA_def)
    note k2 = keeps_dbD [OF keeps_db_handler(2) 2]
    show ?thesis
    proof (cases q2)
      case (Inl e')
      then show ?thesis using rest 2 k1 k2 by (simp add: bindA_def f)
    next
      case (Inr p2)
      note q2 = Inr
      obtain ids h1 where p2: "p2 = (ids, h1)" by (cases p2)
      obtain q3 w3 where 3: "get_transactions E ids h1 w2 = Some (q3, w3)"
        using rest 2 q2 p2 by (cases "get_transactions E ids h1 w2") (auto simp: bindA_def)
      note k3 = keeps_dbD [OF keeps_db_handler(3) 3]
      show ?thesis
      proof (cases q3)
        case (Inl e')
        then show ?thesis using rest 2 3 k1 k2 k3 q2 p2 by (simp add: bindA_def f)
      next
        case (Inr h)
        have "fetched E t w h w3" using 2 3 q2 p2 Inr by (simp add: f)
        moreover have "insertDBBlockTrans E h w3 = Some (Inl e, w')"
          using rest 2 3 q2 p2 Inr
          by (auto simp: bindA_def retA_def split: option.splits prod.splits sum.splits)
        ultimately show ?thesis using k1 k2 k3 by (intro disjI2 exI [of _ h] exI [of _ w3]) simp
      qed
    qed
  qed
qed

text \<open>
  C7: An exception in a turn is caught nowhere: it ends the loop of the thread. If it comes from a call (the
  node is down or replies with an error of HTTP or with no JSON; the members of an object are missing or of
  another type), then nothing of the block is stored. If it comes after the calls, it is what
  \<open>DateTimeStrFormat\<close> throws for a time it cannot write: of the block (or the block has no time), and then
  nothing is stored; or of a transaction, and then the database is left as by inserting the block with the
  transactions before that one, half stored.
\<close>

theorem failed_turn:
  assumes "s_tasks s = t # ts" and "t_type t = TASK_BLOCK_OR_TRANS"
    and "w_mp w = Some c" and "inited c \<noteq> 0" and "task_call E t w = Some (Inl e, w')"
  shows "work_loop E s l w = Some (Inl e, w') \<and>
    ((\<nexists>h w3. fetched E t w h w3) \<and> w_db w' = w_db w \<or>
     (\<exists>h w3. fetched E t w h w3 \<and> w_db w3 = w_db w \<and>
       (block_date (e_db E) (h_block h) = Inl e \<and> w_db w' = w_db w \<or>
        (\<exists>k<length (h_vtx h). tx_dates (e_db E) (h_vtx h ! k) = Inl e \<and>
          (\<exists>r w4. insertDBBlockTrans E (h\<lparr>h_vtx := take k (h_vtx h)\<rparr>) w3 = Some (Inr r, w4) \<and>
            w_db w' = w_db w4)))))"
proof
  have "work_round E s l w = Some (Inl e, w')"
    using assms(5) by (simp add: work_round_def assms(1) work_task_def bindA_def)
  then show "work_loop E s l w = Some (Inl e, w')" by (subst work_loop.simps) simp
  have "call_block_or_trans E t w = Some (Inl e, w')" using assms(2,5) by (simp add: task_call.simps)
  from turn_thrown [OF this] show "(\<nexists>h w3. fetched E t w h w3) \<and> w_db w' = w_db w \<or>
     (\<exists>h w3. fetched E t w h w3 \<and> w_db w3 = w_db w \<and>
       (block_date (e_db E) (h_block h) = Inl e \<and> w_db w' = w_db w \<or>
        (\<exists>k<length (h_vtx h). tx_dates (e_db E) (h_vtx h ! k) = Inl e \<and>
          (\<exists>r w4. insertDBBlockTrans E (h\<lparr>h_vtx := take k (h_vtx h)\<rparr>) w3 = Some (Inr r, w4) \<and>
            w_db w' = w_db w4))))"
  proof
    assume "\<exists>h w3. fetched E t w h w3 \<and> w_db w3 = w_db w \<and> connected w3 = connected w \<and>
      insertDBBlockTrans E h w3 = Some (Inl e, w')"
    then obtain h w3 where h: "fetched E t w h w3" "w_db w3 = w_db w" "connected w3"
      "insertDBBlockTrans E h w3 = Some (Inl e, w')" using assms(3,4) by (auto simp: connected_def)
    from insertion_thrown [OF h(3,4)] h(1,2) show ?thesis by metis
  qed blast
qed

subsection \<open>Examples\<close>

text \<open>The node of the example: a count, then the error of a block that is out of range.\<close>

definition said :: "jvalue \<Rightarrow> jvalue \<Rightarrow> string" where
  "said result error = (case JSONRPCReply result error (VInt 1 False) of
     Inr body \<Rightarrow> (case HTTPReply ''now'' (if error = VNull then HTTP_OK else HTTP_INTERNAL_SERVER_ERROR) body True of
       Inr text \<Rightarrow> text | Inl _ \<Rightarrow> [])
   | Inl _ \<Rightarrow> [])"

lemma said_replies:
  assumes "writable result" and "reread ref_rd result = result" and "writable error" and "reread ref_rd error = error"
    and "size_bound (VObj (JSONRPCReplyObj result error (VInt 1 False))) < 999999"
  shows "replies ref_rd m (example_env (said result error)) strMethod params
    (if error = VNull then HTTP_OK else HTTP_INTERNAL_SERVER_ERROR) result error"
proof -
  let ?st = "if error = VNull then HTTP_OK else HTTP_INTERNAL_SERVER_ERROR"
  define body where "body = json_text False 0 (VObj (JSONRPCReplyObj result error (VInt 1 False))) @ [CHR 0x0A]"
  have b: "JSONRPCReply result error (VInt 1 False) = Inr body" unfolding body_def by (rule JSONRPCReply_text)
  have l: "int (length body) \<le> MAX_SIZE"
    using json_text_length(1) [of 0 "VObj (JSONRPCReplyObj result error (VInt 1 False))"] assms(5)
    by (simp add: MAX_SIZE_def body_def)
  have st: "?st \<noteq> HTTP_UNAUTHORIZED" by (simp add: http_codes)
  obtain post where p: "request_post (fst (request_headers m)) strMethod params = Inr post"
    using request_post_text by blast
  have now: "CHR 0x0A \<notin> set ''now''" by simp
  have t: "HTTPReply ''now'' ?st body True = Inr (env_serve (example_env (said result error)) post)"
    using reply_text [OF st l, of "''now''" True] by (simp add: example_env_def said_def b)
  show ?thesis
    unfolding replies_def
    by (intro conjI exI) (rule assms(1-4) | simp; fail | rule p | rule now | rule b | rule l | rule t)+
qed

definition spoken_env :: "(nat \<Rightarrow> string) \<Rightarrow> unit env" where
  "spoken_env says = \<lparr>e_db = \<lparr>db_set_option = (\<lambda>opt d. d), db_connect = (\<lambda>db server user passwd port d. (Inr True, d)),
       db_execute = (\<lambda>s d. (Inl (BadQuery ''down''), d)), db_count_rows = (\<lambda>t d. (Inr 0, d)),
       db_store = (\<lambda>q d. (Inr None, d)), db_to_int = (\<lambda>s. Inr (atoi s)), db_date = DateTimeStrFormat_default (ref_dates 28800)\<rparr>,
     e_rpc = (\<lambda>k. example_env (says k)), e_clock = (\<lambda>k. 1500000000 + of_nat k)\<rparr>"

interpretation spoken: peer "spoken_env says" ref_args ref_rd for says
proof (rule peer.intro)
  fix k
  show "boost_strings (env_split (e_rpc (spoken_env says) k)) (env_trim (e_rpc (spoken_env says) k)) (env_lower (e_rpc (spoken_env says) k))"
    using ref_strings.boost_strings_axioms by (simp add: spoken_env_def example_env_def)
  show "\<exists>real_p int_p uint_p string_p. json_prims (env_parse (e_rpc (spoken_env says) k)) real_p int_p uint_p string_p ref_rd"
    using ref.json_prims_axioms by (auto simp: spoken_env_def example_env_def)
  show "\<exists>u p. map_find ref_args ''-rpcuser'' = Some u \<and> u \<noteq> [] \<and> map_find ref_args ''-rpcpassword'' = Some p"
    by (simp add: ref_args_def)
  show "connect (e_rpc (spoken_env says) k) (GetArg ref_args ''-rpcconnect'' ''127.0.0.1'')
      (GetArg ref_args ''-rpcport'' ''19772'') 0 = Inr True"
    by (simp add: connect_def spoken_env_def example_env_def)
qed

definition spoken_world :: "unit world" where
  "spoken_world = \<lparr>w_args = ref_args, w_mp = Some \<lparr>inited = 1\<rparr>, w_db = (), w_calls = 0, w_ticks = 0, w_sequence = 0\<rparr>"

definition out_of_range :: jobject where
  "out_of_range = [(''code'', VInt (- 1) False), (''message'', VStr ''Block number out of range.'')]"

theorem refused_block_skipped_witness:
  "\<exists>t' w'. work_task (spoken_env (\<lambda>k. if k = 0 then said (VInt 7 False) VNull else said VNull (VObj out_of_range)))
      ref_task (Some 0, False) spoken_world = Some (Inr (t', None, False), w') \<and> wanted t' = 4"
proof -
  let ?E = "spoken_env (\<lambda>k. if k = 0 then said (VInt 7 False) VNull else said VNull (VObj out_of_range))"
  have c: "serves ref_rd ref_args (e_rpc ?E (w_calls spoken_world)) ''getblockcount'' [] (VInt (word_of_int 7) False)"
    using said_replies [of "VInt 7 False" VNull]
    by (simp add: serves_def spoken_env_def spoken_world_def JSONRPCReplyObj_def obj_add_def)
  have r: "replies ref_rd ref_args (e_rpc ?E (Suc (w_calls spoken_world))) ''getblockbynumber''
      [VInt (word_of_int 3) False] HTTP_INTERNAL_SERVER_ERROR VNull (VObj out_of_range)"
    using said_replies [of VNull "VObj out_of_range"]
    by (simp add: spoken_env_def spoken_world_def JSONRPCReplyObj_def obj_add_def out_of_range_def)
  have e: "find_value out_of_range ''code'' = VInt (- 1) False" by (simp add: out_of_range_def)
  have "w_args spoken_world = ref_args" by (simp add: spoken_world_def)
  from refused_block_skipped [OF spoken.peer_axioms this ref_start(3,4) _ _ _ c r e, of "(Some 0, False)"]
  show ?thesis by auto
qed

text \<open>The node falls silent after the count.\<close>

theorem failed_turn_witness:
  "\<exists>w'. work_loop (spoken_env (\<lambda>k. if k = 0 then said (VInt 7 False) VNull else [])) ref_schedule ref_locals
      spoken_world = Some (Inl (RuntimeError ''no response from server''), w')"
proof -
  let ?E = "spoken_env (\<lambda>k. if k = 0 then said (VInt 7 False) VNull else [])"
  let ?w = "spoken.after_calls 1 spoken_world" and ?h = "(new_handler ref_task)\<lparr>h_height := 7\<rparr>"
  have w: "w_args spoken_world = ref_args" "w_mp spoken_world = Some \<lparr>inited = 1\<rparr>" "inited \<lparr>inited = 1\<rparr> \<noteq> 0"
    by (simp_all add: spoken_world_def)
  have c: "serves ref_rd ref_args (e_rpc ?E (w_calls spoken_world)) ''getblockcount'' [] (VInt (word_of_int 7) False)"
    using said_replies [of "VInt 7 False" VNull]
    by (simp add: serves_def spoken_env_def spoken_world_def JSONRPCReplyObj_def obj_add_def)
  have 1: "getBlockCount ?E (new_handler ref_task) spoken_world = Some (Inr (7, ?h), ?w)"
    using spoken.getBlockCount_served [OF w(1) _ _ c] by simp
  have "sint (3 :: int32) = 3" by simp
  note cmd = spoken.block_command [OF this]
  have "example_env [] = e_rpc ?E 1" by (simp add: spoken_env_def)
  moreover have "CallRPC (example_env []) ''getblockbynumber'' [VInt 3 False] ref_args =
      Some (Inl (RuntimeError ''no response from server''), ref_args)"
  proof -
    have u: "GetArg ref_args ''-rpcuser'' [] \<noteq> []" "snd (request_headers ref_args) = ref_args"
      by (simp_all add: ref_args_def GetArg_find request_headers_def map_index_def)
    obtain post where p: "request_post (fst (request_headers ref_args)) ''getblockbynumber'' [VInt 3 False] = Inr post"
      using request_post_text by blast
    have "receive_reply (example_env []) [] = Some (Inl (RuntimeError ''no response from server''))"
      using ref_strings.boost_strings_axioms by (intro receive_nothing) (simp add: example_env_def)
    then show ?thesis
      using CallRPC_sent [OF u(1) example_connect_loop p] u(2) by (simp add: example_env_def)
  qed
  moreover have h: "t_height ref_task = 3" by (simp add: ref_task_def)
  ultimately have f: "call_command ?E (''getblockbynumber '' @ dec_int 3) ?w =
      Some (Inl (RuntimeError ''no response from server''), spoken.after_calls 2 spoken_world)"
    using spoken.call_command_failed [OF _ cmd(2) _ cmd(3), of ?w] w(1)
    by (simp add: spoken_world_def numeral_2_eq_2)
  have "task_call ?E ref_task spoken_world = Some (Inl (RuntimeError ''no response from server''),
      spoken.after_calls 2 spoken_world)"
    using 1 cmd(1) f h
    by (simp add: task_call.simps ref_start(3) call_block_or_trans_def getBlockByNumber_def bindA_def liftR_def)
  from failed_turn [OF ref_start(1,3) w(2,3) this] show ?thesis by blast
qed

text \<open>
  A block of \<open>RefNode\<close> with a transaction whose time is a second before 1970: the row of the block is
  written, then the exception comes.
\<close>

lemma half_stored:
  defines "h \<equiv> (new_handler ref_task)\<lparr>h_block := ref_block 3, h_vtx := [ref_tx\<lparr>tx_time := - 1\<rparr>, ref_tx]\<rparr>"
  shows "\<exists>w'. insertDBBlockTrans (ref_env 0) h (ref_world 3) =
      Some (Inl (OutOfRange ''Cannot convert dates prior to Jan 1, 1970''), w') \<and>
    w_db w' = [row_of_block (ref_db 0) (ref_block 3)]"
proof -
  have "datable (the (bk_time (h_block h)))" "bk_time (h_block h) \<noteq> None" "bk_hash (h_block h) \<noteq> ''''"
    by (simp_all add: h_def ref_block_def datable_def)
  moreover have "ref_peer.ready (ref_world 3)" by (simp add: ref_peer.ready_def)
  ultimately obtain w1 where 1: "insertDBBlock (ref_env 0) h (ref_world 3) = Some (Inr 0, w1)"
    "ref_peer.ready w1" "w_db w1 = [row_of_block (ref_db 0) (ref_block 3)]"
    using ref_node.insertDBBlock_eq [of "ref_world 3" h 0] by (auto simp: h_def)
  let ?tx = "ref_tx\<lparr>tx_time := - 1\<rparr>" and ?e = "OutOfRange ''Cannot convert dates prior to Jan 1, 1970''"
  have "tx_dates (ref_db 0) ?tx = Inl ?e"
    using dates_east(3) by (simp add: tx_dates_def ref_db_def log_db_def)
  note throws = insert_throws(2) [OF this, of "w_db w1"]
  obtain c where c: "w_mp w1 = Some c" "inited c \<noteq> 0" using 1(2) by (auto simp: ref_peer.ready_def)
  have "tx_txid ?tx \<noteq> ''''" by (simp add: ref_tx_def received_tx_def Let_def)
  then have "\<exists>w'. insert_one (ref_env 0) ?tx 0 w1 = Some (Inl ?e, w') \<and> w_db w' = w_db w1"
    using c throws by (simp add: insert_one_def tx_checkValidy_def db_insertTx_def with_db_def getinitance_def
      initDb_def bindA_def)
  then show ?thesis
    using 1 by (auto simp: insertDBBlockTrans_def insertDBTrans_def bindA_def h_def)
qed

text \<open>The peer of \<open>RefNode\<close>, and a database that keeps the rows or one that refuses them all.\<close>

definition deaf_env :: "unit env" where
  "deaf_env = (spoken_env (\<lambda>k. []))\<lparr>e_rpc := e_rpc (ref_env 0)\<rparr>"

theorem database_unseen_witness:
  "\<exists>s' l' v' t'. (work_step deaf_env)\<^sup>*\<^sup>* (ref_schedule, ref_locals, spoken_world\<lparr>w_calls := 5\<rparr>) (s', l', v') \<and>
    s_tasks s' = [t'] \<and> wanted t' = 4"
proof -
  have p: "same_peers (ref_env 0) deaf_env" by (simp add: same_peers_def deaf_env_def ref_env_def spoken_env_def ref_db_def log_db_def)
  have w: "seen (ref_world 5) (spoken_world\<lparr>w_calls := 5\<rparr>)"
    by (simp add: seen_def connected_def spoken_world_def ref_world_def)
  obtain s' l' w' t' where st: "work_step (ref_env 0) (ref_schedule, ref_locals, ref_world 5) (s', l', w')"
    "s_tasks s' = [t']" "wanted t' = word_of_int 4"
    using ref_step [of 0] by blast
  have "(work_step (ref_env 0))\<^sup>*\<^sup>* (ref_schedule, ref_locals, ref_world 5) (s', l', w')"
    using st(1) by (rule r_into_rtranclp)
  from database_unseen [OF p w this] st(2,3) show ?thesis by auto
qed

end
