(* ===== verification/Threads.thy ===== *)
theory Threads
  imports Program
begin

section \<open>Thread objects, signals and the end of main (thread.h, main.cc)\<close>

text \<open>
  What is left of \<open>thread.h\<close> and \<open>main.cc\<close>: thread objects on the heap, with \<open>catchUp\<close>, the
  destructor and \<open>deleteThreadSafe\<close>; the loop of \<open>TestThread\<close>; the signals \<open>main\<close> registers, whose handlers
  only print; and the statements after its last loop, which are not reached, for nothing clears \<open>bQuit\<close>.
\<close>

subsection \<open>The heap of thread objects\<close>

text \<open>
  A pointer is \<open>None\<close> if it is null; a pointer that is not in the heap is dangling, and its use is
  undefined. \<open>over\<close> says whether the work of an object comes to an end, which is what \<open>join\<close> waits for:
  otherwise the result is \<open>None\<close>, for the call does not return.
\<close>

type_synonym 'p thread_heap = "'p \<Rightarrow> Thread option"

definition thread_at :: "'p thread_heap \<Rightarrow> 'p \<Rightarrow> Thread res" where
  "thread_at H p = (case H p of None \<Rightarrow> Inl (Undefined ''dangling pointer'') | Some th \<Rightarrow> Inr th)"

definition catchUp :: "bool \<Rightarrow> Thread \<Rightarrow> unit option" where
  "catchUp over th = (if th_thread th then if over then Some () else None else Some ())"

text \<open>\<open>~Thread\<close> and the release of the object.\<close>

definition delete_thread :: "('p \<Rightarrow> bool) \<Rightarrow> 'p option \<Rightarrow> 'p thread_heap \<Rightarrow> 'p thread_heap res option" where
  "delete_thread over p H =
     (case p of
        None \<Rightarrow> Some (Inr H)
      | Some q \<Rightarrow>
          (case thread_at H q of
             Inl e \<Rightarrow> Some (Inl e)
           | Inr th \<Rightarrow> map_option (\<lambda>_. Inr (H(q := None))) (catchUp (over q) th)))"

text \<open>\<open>deleteThreadSafe\<close>; the macro \<open>DeleteThreadSafe\<close> does the same without a result.\<close>

definition deleteThread :: "('p \<Rightarrow> bool) \<Rightarrow> 'p option \<Rightarrow> 'p thread_heap \<Rightarrow> (int32 \<times> 'p thread_heap) res option" where
  "deleteThread over p H =
     (case p of
        None \<Rightarrow> Some (Inr (0, H))
      | Some q \<Rightarrow>
          (case thread_at H q of
             Inl e \<Rightarrow> Some (Inl e)
           | Inr th \<Rightarrow>
               if working th \<noteq> 0
               then map_option (\<lambda>r. bindR r (\<lambda>H. Inr (1, H))) (delete_thread over p H)
               else Some (Inr (0, H))))"

definition DeleteThreadSafe_macro :: "('p \<Rightarrow> bool) \<Rightarrow> 'p option \<Rightarrow> 'p thread_heap \<Rightarrow> 'p thread_heap res option" where
  "DeleteThreadSafe_macro over p H = map_option (\<lambda>r. bindR r (\<lambda>(_, H). Inr H)) (deleteThread over p H)"

subsection \<open>TestThread\<close>

lemma sint_count_up:
  assumes "\<not> sint (count :: int32) > 5"
  shows "sint (count + 1) = sint count + 1"
proof -
  have "sint (word_of_int (sint count + 1) :: int32) = sint count + 1"
    using assms sint_ge [of count] by (intro sint32_of_int) simp_all
  then show ?thesis by simp
qed

text \<open>
  \<open>while (1) { if (count > 5) break; count++; sleep(1 s); }\<close>, with the seconds slept so far. No
  constructor initialises \<open>count\<close>.
\<close>

function test_loop :: "int32 \<Rightarrow> nat \<Rightarrow> int32 \<times> nat" where
  "test_loop count slept =
     (if sint count > 5 then (count, slept) else test_loop (count + 1) (slept + 1))"
  by pat_completeness auto

termination
  by (relation "measure (\<lambda>(count, _). nat (6 - sint count))") (auto simp: sint_count_up)

definition test_work :: "int32 option \<Rightarrow> (int32 \<times> nat) res" where
  "test_work count =
     (case count of None \<Rightarrow> Inl (Undefined ''count is not initialised'') | Some c \<Rightarrow> Inr (test_loop c 0))"

declare test_loop.simps [simp del]

lemma test_loop_ends: "test_loop count slept =
    (if sint count > 5 then (count, slept) else (6, slept + nat (6 - sint count)))"
proof (induction count slept rule: test_loop.induct)
  case (1 count slept)
  show ?case
  proof (cases "sint count > 5")
    case True
    then show ?thesis by (subst test_loop.simps) simp
  next
    case False
    show ?thesis
    proof (cases "sint count = 5")
      case True
      then have "count = 5" by (intro signed_word_eqI) simp
      then show ?thesis by (simp add: test_loop.simps)
    next
      case n: False
      then have "\<not> sint (count + 1) > 5" using False by (simp add: sint_count_up)
      then show ?thesis using 1 [OF False] False
        by (subst test_loop.simps) (simp add: sint_count_up nat_diff_distrib')
    qed
  qed
qed

subsection \<open>Signals\<close>

datatype signal = SIGHUP | SIGINT | SIGPIPE | SIGTERM

datatype disposition = SIG_DFL | SIG_IGN | HandleSIGTERM | HandleSIGHUP

definition registerSignalHandler :: "signal \<Rightarrow> disposition \<Rightarrow> (signal \<Rightarrow> disposition) \<Rightarrow> signal \<Rightarrow> disposition" where
  "registerSignalHandler sig handler sigs = sigs(sig := handler)"

definition main_signals :: "(signal \<Rightarrow> disposition) \<Rightarrow> signal \<Rightarrow> disposition" where
  "main_signals sigs =
     (registerSignalHandler SIGHUP HandleSIGHUP (registerSignalHandler SIGINT HandleSIGTERM
       (registerSignalHandler SIGHUP HandleSIGHUP sigs)))(SIGPIPE := SIG_IGN)"

text \<open>An interrupt is only printed, and a termination request is left to the default.\<close>

lemma main_signals_are:
  "main_signals sigs SIGINT = HandleSIGTERM" "main_signals sigs SIGHUP = HandleSIGHUP"
  "main_signals sigs SIGPIPE = SIG_IGN" "main_signals sigs SIGTERM = sigs SIGTERM"
  by (simp_all add: main_signals_def registerSignalHandler_def)

subsection \<open>After the last loop\<close>

definition main_end :: "('p \<Rightarrow> bool) \<Rightarrow> 'p option \<Rightarrow> 'p option \<Rightarrow> 'p thread_heap \<Rightarrow> (int32 \<times> 'p thread_heap) res option" where
  "main_end over pTaskSchedInit pTaskSched H =
     Option.bind (deleteThread over pTaskSchedInit H) (\<lambda>r. case r of
       Inl e \<Rightarrow> Some (Inl e)
     | Inr (_, H) \<Rightarrow>
         Option.bind (deleteThread over pTaskSched H) (\<lambda>r. case r of
           Inl e \<Rightarrow> Some (Inl e)
         | Inr (_, H) \<Rightarrow> Some (Inr (0, H))))"

text \<open>What \<open>initGensisBlock\<close> does with the schedule of the first run when there are blocks.\<close>

definition delete_init :: "('p \<Rightarrow> bool) \<Rightarrow> 'p option \<Rightarrow> 'p thread_heap \<Rightarrow> 'p thread_heap res option" where
  "delete_init over p H = (if p \<noteq> None then delete_thread over p H else Some (Inr H))"

subsection \<open>What deleting does\<close>

text \<open>
  Deleting threads: \<open>deleteThreadSafe\<close> deletes an object only after its thread has come to an end,
  reports it by 1, and leaves alone null and what is not running; it does not return for a running
  thread whose work is never over. It cannot tell a deleted object: a pointer that is kept is
  dangling. So after a start on a database with blocks, which deletes the schedule of the first run
  and keeps the pointer, the end of \<open>main\<close> would be undefined.
\<close>

lemma delete_thread_safe:
  "(case deleteThread over p H of
      Some (Inr (r, H')) \<Rightarrow>
        if r = 1 then \<exists>q th. p = Some q \<and> H q = Some th \<and> working th \<noteq> 0 \<and>
          (th_thread th \<longrightarrow> over q) \<and> H' = H(q := None)
        else r = 0 \<and> H' = H \<and> (\<forall>q th. p = Some q \<and> H q = Some th \<longrightarrow> working th = 0)
    | Some (Inl e) \<Rightarrow> \<exists>q. p = Some q \<and> H q = None
    | None \<Rightarrow> \<exists>q th. p = Some q \<and> H q = Some th \<and> working th \<noteq> 0 \<and> th_thread th \<and> \<not> over q) \<and>
   (\<forall>q sched H'. delete_init over (Some q) H = Some (Inr H') \<longrightarrow>
      main_end over (Some q) sched H' = Some (Inl (Undefined ''dangling pointer'')))"
proof (intro conjI allI impI)
  show "case deleteThread over p H of
      Some (Inr (r, H')) \<Rightarrow>
        if r = 1 then \<exists>q th. p = Some q \<and> H q = Some th \<and> working th \<noteq> 0 \<and>
          (th_thread th \<longrightarrow> over q) \<and> H' = H(q := None)
        else r = 0 \<and> H' = H \<and> (\<forall>q th. p = Some q \<and> H q = Some th \<longrightarrow> working th = 0)
    | Some (Inl e) \<Rightarrow> \<exists>q. p = Some q \<and> H q = None
    | None \<Rightarrow> \<exists>q th. p = Some q \<and> H q = Some th \<and> working th \<noteq> 0 \<and> th_thread th \<and> \<not> over q"
    by (auto simp: deleteThread_def delete_thread_def thread_at_def catchUp_def split: option.split)
  fix q sched H'
  assume "delete_init over (Some q) H = Some (Inr H')"
  then have "H' q = None"
    by (auto simp: delete_init_def delete_thread_def thread_at_def catchUp_def split: option.splits if_splits)
  then show "main_end over (Some q) sched H' = Some (Inl (Undefined ''dangling pointer''))"
    by (simp add: main_end_def deleteThread_def thread_at_def)
qed

end
