(* ===== verification/FidText.thy ===== *)
theory FidText
  imports FidData TinyFormat
begin

section \<open>What blocks and transactions print (block.cpp, transaction.cpp)\<close>

text \<open>
  The \<open>toString\<close> functions print their object to \<open>cout\<close>, in whatever state it is, and return the empty
  string. To print a member that is indeterminate is undefined.
\<close>

type_synonym put = "ostream \<Rightarrow> ostream res"

definition put_text :: "string \<Rightarrow> put" where
  "put_text s os = Inr (os_put_string s os)"

definition put_endl :: put where
  "put_endl os = Inr (os_write [CHR 0x0A] os)"

definition put_signed :: "'a::len word \<Rightarrow> put" where
  "put_signed w os = Inr (os_put_int True (sint w) (uint w) os)"

definition put_unsigned :: "'a::len word \<Rightarrow> put" where
  "put_unsigned w os = Inr (os_put_int False (uint w) (uint w) os)"

definition put_real :: "double \<Rightarrow> put" where
  "put_real d os = Inr (os_put_double d os)"

definition put_bool :: "bool \<Rightarrow> put" where
  "put_bool b os =
     Inr (if os_boolalpha os then os_put_string (if b then ''true'' else ''false'') os
          else os_put_int True (of_bool b) (of_bool b) os)"

definition put_opt :: "('a \<Rightarrow> put) \<Rightarrow> 'a option \<Rightarrow> put" where
  "put_opt f v = (case v of Some x \<Rightarrow> f x | None \<Rightarrow> (\<lambda>os. Inl (Undefined ''indeterminate value'')))"

text \<open>A chain of \<open>operator<<\<close>.\<close>

fun put_all :: "put list \<Rightarrow> put" where
  "put_all [] os = Inr os"
| "put_all (f # fs) os = bindR (f os) (put_all fs)"

text \<open>\<open>name(value)\<close> and what follows it.\<close>

definition put_member :: "string \<Rightarrow> put \<Rightarrow> string \<Rightarrow> put list" where
  "put_member name value after = [put_text (name @ ''(''), value, put_text (CHR '')'' # after)]"

definition banner :: string where
  "banner = ''++++++++++++++++++++++++++++++++++++++++++''"

definition bk_puts :: "CFidBlock \<Rightarrow> put list" where
  "bk_puts b =
     (let m = (\<lambda>name value. put_member name value '', '') in
      [put_text (''CFidBlock::'' @ banner @ '' start~'')]
      @ m ''hash'' (put_text (bk_hash b))
      @ m ''confirmations'' (put_opt put_unsigned (bk_confirmations b))
      @ m ''size'' (put_opt put_signed (bk_size b))
      @ m ''height'' (put_opt put_unsigned (bk_height b))
      @ m ''version'' (put_opt put_signed (bk_version b))
      @ m ''merkleroot'' (put_text (bk_merkleroot b))
      @ m ''mint'' (put_opt put_real (bk_mint b))
      @ m ''time'' (put_opt put_signed (bk_time b))
      @ m ''nonce'' (put_opt put_signed (bk_nonce b))
      @ m ''bits'' (put_text (bk_bits b))
      @ m ''difficulty'' (put_opt put_real (bk_difficulty b))
      @ m ''blocktrust'' (put_text (bk_blocktrust b))
      @ m ''chaintrust'' (put_text (bk_chaintrust b))
      @ m ''previousblockhash'' (put_text (bk_previousblockhash b))
      @ m ''nextblockhash'' (put_text (bk_nextblockhash b))
      @ m ''flags'' (put_text (bk_flags b))
      @ m ''proofhash'' (put_text (bk_proofhash b))
      @ m ''entropybit'' (put_opt put_signed (bk_entropybit b))
      @ m ''modifier'' (put_text (bk_modifier b))
      @ m ''tx'' (put_text (bk_tx b))
      @ [put_text (''CFidBlock::'' @ banner @ ''  over~''), put_endl])"

definition bk_toString :: "CFidBlock \<Rightarrow> ostream \<Rightarrow> (string \<times> ostream) res" where
  "bk_toString b cout = bindR (put_all (bk_puts b) cout) (\<lambda>cout. Inr ([], cout))"

definition vin_puts :: "int32 \<Rightarrow> CFidTxVin \<Rightarrow> put list" where
  "vin_puts i v =
     [put_text ''vin('', put_signed i, put_text ''-'', put_opt (\<lambda>c. put_text [c]) (vin_type v), put_text '':'',
      put_opt put_unsigned (vin_sequence v), put_text '':'', put_text (vin_txid v), put_text ''), \<newline>'',
      put_text ''vin('', put_signed i, put_text ''-'', put_opt put_signed (vin_vout v), put_text '':'',
      put_text (sig_sasm (vin_scriptSig v)), put_text '':'', put_text (sig_hex (vin_scriptSig v)),
      put_text ''), \<newline>'']"

definition vout_puts :: "int32 \<Rightarrow> CFidTxVout \<Rightarrow> put list" where
  "vout_puts i v =
     [put_text ''vout('', put_signed i, put_text ''-'', put_opt (\<lambda>c. put_text [c]) (vout_type v), put_text '':'',
      put_opt put_real (vout_value v), put_text '':'', put_opt put_signed (vout_n v), put_text ''), \<newline>'',
      put_text ''vout('', put_signed i, put_text ''-'', put_opt put_signed (pk_reqSigs (vout_scriptPubKey v)),
      put_text '':'', put_text (pk_type (vout_scriptPubKey v)), put_text '':'',
      put_text (pk_sasm (vout_scriptPubKey v)), put_text '':'',
      put_text (pk_addresses (vout_scriptPubKey v)), put_text ''), \<newline>'']"

definition tx_puts :: "CFidTransaction \<Rightarrow> put list" where
  "tx_puts tx =
     (let m = (\<lambda>name value. put_member name value '', \<newline>'') in
      [put_text (''CFidTransaction::'' @ banner @ '' start~\<newline>'')]
      @ m ''txid'' (put_text (tx_txid tx))
      @ m ''confirmations'' (put_unsigned (tx_confirmations tx))
      @ m ''time'' (put_signed (tx_time tx))
      @ m ''locktime'' (put_signed (tx_locktime tx))
      @ m ''version'' (put_signed (tx_version tx))
      @ m ''amount'' (put_real (tx_amount tx))
      @ m ''generated'' (put_bool (tx_generated tx))
      @ m ''blockhash'' (put_text (tx_blockhash tx))
      @ m ''blockindex'' (put_signed (tx_blockindex tx))
      @ m ''blocktime'' (put_signed (tx_blocktime tx))
      @ m ''timereceived'' (put_signed (tx_timereceived tx))
      @ m ''type'' (put_text [tx_type tx])
      @ concat (map (\<lambda>(i, v). vin_puts (of_nat i) v) (enumerate 0 (tx_vins tx)))
      @ concat (map (\<lambda>(i, v). vout_puts (of_nat i) v) (enumerate 0 (tx_vouts tx)))
      @ [put_text (''CFidBlock::'' @ banner @ ''  over~''), put_endl])"

definition tx_toString :: "CFidTransaction \<Rightarrow> ostream \<Rightarrow> (string \<times> ostream) res" where
  "tx_toString tx cout = bindR (put_all (tx_puts tx) cout) (\<lambda>cout. Inr ([], cout))"

text \<open>Printing a block with nothing indeterminate, as \<open>clear\<close> leaves it, is defined.\<close>

lemma put_all_total:
  assumes "\<forall>f \<in> set fs. \<forall>os. \<exists>os'. f os = Inr os'"
  shows "\<exists>os'. put_all fs os = Inr os'"
  using assms
proof (induction fs arbitrary: os)
  case (Cons f fs)
  then obtain os1 where "f os = Inr os1" by fastforce
  then show ?case using Cons.IH [of os1] Cons.prems by simp
qed simp

lemmas put_defs = put_text_def put_endl_def put_signed_def put_unsigned_def put_real_def put_bool_def

lemma put_opt_total: "v \<noteq> None \<Longrightarrow> (\<And>x. \<exists>os'. f x os = Inr os') \<Longrightarrow> \<exists>os'. put_opt f v os = Inr os'"
  by (cases v) (simp_all add: put_opt_def)

lemma bk_toString_defined:
  assumes "determinate b"
  shows "\<exists>cout'. bk_toString b cout = Inr ([], cout')"
proof -
  have "\<forall>f \<in> set (bk_puts b). \<forall>os. \<exists>os'. f os = Inr os'"
    using assms by (simp add: bk_puts_def put_member_def put_defs put_opt_total determinate_def Let_def)
  from put_all_total [OF this, of cout] show ?thesis by (auto simp: bk_toString_def)
qed

lemma bk_toString_new: "bk_toString new_block cout = Inl (Undefined ''indeterminate value'')"
  by (simp add: bk_toString_def bk_puts_def put_member_def put_text_def put_opt_def new_block_def)

end
