(* ===== verification/Spec2Isabelle.thy ===== *)
theory Spec2Isabelle
  imports Base64 TinyStream JsonStreams ValueImpl Args Config RpcRoundtrip SslDevice CommandLine Singleton Failures Threads FidText Dates
begin

text \<open>
  A model of FidInventor, the program that follows a Bitcoin-like node over JSON-RPC and writes its
  blocks and transactions to a MySQL database, with the theorems that make it correct. Files are named
  relative to \<open>src/src\<close>.

  \<^bold>\<open>How the program works.\<close> \<open>main.cc\<close> reads a configuration file into the global \<open>mapArgs\<close>
  (\<open>config.cpp\<close>), and on an empty database runs one task in a thread that asks the node for its height
  and stores block 0 to that height. It then starts the thread of a \<open>CFidTaskSchedule\<close> with one task that
  follows the chain for ever: ask for the height, fetch the next block if there is one, fetch its
  transactions, insert everything, sleep (\<open>taskschedule.cpp\<close>). A task works through a \<open>CFidHandler\<close>
  (\<open>wrap.cpp\<close>): commands become JSON-RPC calls (\<open>rpcclient.cpp\<close>, \<open>rpcprotocol.cpp\<close>), replies become
  \<open>CFidBlock\<close> and \<open>CFidTransaction\<close> (\<open>block.h\<close>, \<open>transaction.h\<close>), and these become SQL statements through the
  single \<open>CMysqlDb\<close> (\<open>mysqldb/mysqldb.cpp\<close>). Underneath are the JSON library (\<open>json/\<close>), the formatting
  library (\<open>tinyformat.h\<close>) and Base64 (\<open>utils.cpp\<close>).

  \<^bold>\<open>Conventions.\<close> \<open>int\<close>, \<open>int64_t\<close> and \<open>uint64_t\<close> are words of their width (\<open>sint\<close> and \<open>uint\<close> read them);
  \<open>std::string\<close> is a list of characters; \<open>std::map\<close> is an association list in key order (\<open>StdMap\<close>). A result
  \<open>'a res\<close> is \<open>Inl\<close> of an exception, or of \<open>Undefined\<close> where C++ leaves the behaviour undefined, or \<open>Inr\<close> of
  the value (\<open>Prelude\<close>). An action on the state of the process also may not return, which is \<open>None\<close>
  (\<open>World\<close>). A member that no constructor initialises has an option type. What only goes to \<open>cout\<close> is left
  out, an indeterminate value that is only copied or goes to \<open>cout\<close> with it; where a branch, a
  conversion, arithmetic or a text depends on such a value, the result is \<open>Undefined\<close>.

  \<^bold>\<open>The theories.\<close>
  \<^item> \<open>Prelude\<close>, \<open>StdMap\<close>: results, words, decimal numbers, \<open>strtoll\<close>, sorted association lists; locales
    for codecs and for ordered maps.
  \<^item> \<open>Base64\<close>: \<open>EncodeBase64\<close> and \<open>DecodeBase64\<close>, their loops and tables. Decoding inverts encoding; what
    the decoder accepts is canonical.
  \<^item> \<open>Double\<close>, \<open>TinyFormat\<close>: floating-point numbers and their texts; the format-string interpreter behind \<open>strprintf\<close>, its meaning on plain conversions and
    its errors. \<open>TinyStream\<close>: the same into a stream in use, whose state is restored.
  \<^item> \<open>JsonValue\<close>, \<open>JsonWriter\<close>, \<open>JsonReader\<close>, \<open>JsonActions\<close>, \<open>JsonGrammar\<close>, \<open>JsonParse\<close>, \<open>JsonTotal\<close>,
    \<open>JsonLibrary\<close>: values and accessors, the generator, escapes, the semantic actions, the grammar, and
    \<open>read_string\<close>. Boost.Spirit is the parameter \<open>parser\<close>, with its laws in the locale \<open>json_prims\<close>, met by
    the reference parser \<open>ref_parse\<close>. Reading inverts writing, and never fails an assertion.
  \<^item> \<open>JsonSimulation\<close>, \<open>JsonMap\<close>, \<open>JsonStreams\<close>: the other instances of the same templates. A simulation shows
    that the parser takes related states to related states; with it, objects as maps (\<open>Config_map\<close>) and
    readers over position iterators read like the plain reader, and values follow each other in a stream.
  \<^item> \<open>ValueImpl\<close>: the representation of a value by a type tag, a variant and a flag, which refines the
    values of \<open>JsonValue\<close>.
  \<^item> \<open>Args\<close>, \<open>Config\<close>: numbers, \<open>GetArg\<close> and its relatives, the configuration file over the parameter
    \<open>ptree_ops\<close> (Boost.PropertyTree, locale \<open>ptree\<close>).
  \<^item> \<open>Http\<close>, \<open>HttpRoundtrip\<close>: messages and their readers, over Boost's string functions (locale
    \<open>boost_strings\<close>); each message that is written is read back.
  \<^item> \<open>RpcClient\<close>, \<open>RpcRoundtrip\<close>, \<open>CommandLine\<close>: \<open>CallRPC\<close> with its connection loop, the parameter table, and
    \<open>CommandLineRPC\<close>, over the record \<open>rpc_env\<close> (resolver, connections and the peer's bytes); a call to a
    server that answers returns its answer, and every refusal has its error.
  \<^item> \<open>Dates\<close>: dates over Boost.DateTime (\<open>date_ops\<close>, locale \<open>dates\<close>), with a reference calendar. Each of
    its operations may throw; the times from 1970 to 9999 (\<open>datable\<close>) can be written.
  \<^item> \<open>SslDevice\<close>: the stream device under the connection, with its one handshake and its loop over the
    endpoints, over the calls of Boost.Asio (\<open>ssl_ops\<close>, locale \<open>logged_net\<close>).
  \<^item> \<open>FidData\<close>, \<open>FidText\<close>, \<open>MysqlDb\<close>, \<open>Singleton\<close>: the records and what they print; the statements, over \<open>db_ops\<close> (MySQL++) with the locales
    \<open>logged_db\<close> and \<open>working_db\<close>; the double-checked lock of \<open>getinitance\<close> under any interleaving
    of any number of calls, with sequentially consistent accesses. A date of a block or a transaction that
    cannot be written is an exception that \<open>insertBlock\<close> and \<open>insertTx\<close> do not catch.
  \<^item> \<open>World\<close>, \<open>Handler\<close>, \<open>Conversion\<close>: the state the parts share, the handler, and what it makes of the
    node's objects.
  \<^item> \<open>TaskSchedule\<close>, \<open>Node\<close>, \<open>Following\<close>, \<open>TaskList\<close>, \<open>Program\<close>: tasks, the thread as the loop \<open>work_loop\<close> and
    as the step relation \<open>work_step\<close>, and \<open>main\<close>. The locales \<open>peer\<close>, \<open>node\<close> and \<open>steady_node\<close> describe a node
    by the bytes it sends for the posted requests (\<open>replies\<close>, \<open>serves\<close>); inside them every operation has its result, and the invariant \<open>stands\<close> of the thread gives the
    theorems about whole runs.
  \<^item> \<open>Interleave\<close>: the main thread and the threads of both schedules as one step relation \<open>process_step\<close>,
    in which any of them may take the next step. A step of a thread is what it does between two accesses to what
    the threads share: reading a task, calling it, writing it back. An exception that leaves any of the three
    ends the process and is kept in the state (\<open>pr_exn\<close>).
  \<^item> \<open>Threads\<close>: thread objects on the heap and their deletion, the signals, the end of \<open>main\<close>.
  \<^item> \<open>RefNode\<close>: a concrete node, peer and database that meet these locales.
  \<^item> \<open>Unseen\<close>, \<open>Failures\<close>: the schedule without those locales. Two runs on different databases are related
    step by step; a node may refuse a block, or a call may throw.

  \<^bold>\<open>What the theorems show.\<close> With a node whose chain only grows and a database that works, the program
  stores exactly the blocks of the chain, in order and once each, for ever, and its sleeping times are in
  range; a start on an empty database has no gap, however the threads interleave, and the main thread does leave
  its waiting loop; a start on another database skips a block. Calls, conversions, messages, texts and integers
  survive their way through the layers; a double is written to JSON with eight decimals and comes back as
  what these say. Errors of the server, of the database and of the input have the results the code gives them: a
  block that the node refuses or the database rejects is passed over for good; an exception of a call ends the
  thread with nothing of the block stored, and a transaction whose date cannot be written ends it with the
  block half stored.

  \<^bold>\<open>Bounds and fuel.\<close> There is no fuel: loops that may not end are \<open>partial_function\<close>s into \<open>option\<close>, and
  theorems say when they return. Heights stay below \<open>2 ^ 31 - 2\<close> in the locale \<open>node\<close>, for the program
  narrows them to \<open>int\<close>; neighbouring block times are at most 500000 seconds apart in \<open>steady_node\<close>, so that
  the product with 4000 fits an \<open>int\<close>; in \<open>node\<close> the times of blocks and transactions are dates from 1970 to
  9999, without which the insertion throws; HTTP bodies are at most \<open>MAX_SIZE\<close>, which the readers enforce.

  \<^bold>\<open>Not modelled.\<close> What the MySQL server does with a statement, Boost and the C library
  beyond what is used of them, sockets and TLS included: they are parameters. The JSON functions for wide strings, and how far
  a stream is read ahead. The macros of \<open>tinyformat.h\<close> that repeat its functions for each number of
  arguments. \<open>main\<close> reads the height of the task while the thread may write it
  without a lock; the model takes each as one access.
\<close>

end
